(* ===== verification/Prelude.thy ===== *)
theory Prelude
  imports Main "HOL-Library.Word" "HOL-Library.AList" "HOL-Library.Char_ord"
begin

text \<open>
  What the component theories share: the types that stand for the C++ standard library's
  (\<open>std::string_view\<close> searches, \<open>std::from_chars\<close>, \<open>std::stoul\<close>/\<open>std::stoi\<close>,
  \<open>std::format\<close> of integers), the log and event effects that every plugin emits, and the
  generic lemmas on strings and association lists that the component proofs use.
\<close>

section \<open>Effects\<close>

text \<open>
  Plugins report through the two ambient facades of the process, \<open>core::logger\<close> and
  \<open>core::events\<close>. An operation of the model returns the list of calls it makes on them, in
  order: the level and subsystem of a log line (its rendered text is not modelled) and the
  name and payload of an event. \<open>Host_log\<close> is a call of the host's log callback.
\<close>

datatype log_level = DEBUG | INFO | IMPORTANT | WARNING | ERROR | FATAL

type_synonym payload = "(string \<times> string) list"

datatype effect =
    Log log_level string
  | Publish string payload
  | Host_log int string

type_synonym effects = "effect list"

text \<open>The numeric value of a level, \<open>static_cast<int>(level)\<close>.\<close>

fun level_code :: "log_level \<Rightarrow> int" where
  "level_code DEBUG = 0"
| "level_code INFO = 1"
| "level_code IMPORTANT = 2"
| "level_code WARNING = 3"
| "level_code ERROR = 4"
| "level_code FATAL = 5"

section \<open>Strings\<close>

named_theorems str_simps \<open>equations of the string functions of the standard library\<close>

text \<open>\<open>find(c)\<close> on a string view: the position of the first occurrence.\<close>

fun find_char :: "char \<Rightarrow> string \<Rightarrow> nat option" where
  "find_char c [] = None"
| "find_char c (x # xs) = (if x = c then Some 0 else map_option Suc (find_char c xs))"

lemma find_char_None_iff: "find_char c s = None \<longleftrightarrow> c \<notin> set s"
  by (induction s) auto

lemma find_char_Some_nth:
  "find_char c s = Some i \<Longrightarrow> i < length s \<and> s ! i = c \<and> c \<notin> set (take i s)"
proof (induction s arbitrary: i)
  case Nil
  then show ?case by simp
next
  case (Cons x xs)
  then show ?case by (cases i) (auto split: if_splits)
qed

lemma find_char_append:
  "c \<notin> set s \<Longrightarrow> find_char c (s @ c # t) = Some (length s)"
  by (induction s) auto

text \<open>\<open>rfind(c)\<close>: the position of the last occurrence.\<close>

fun rfind_char :: "char \<Rightarrow> string \<Rightarrow> nat option" where
  "rfind_char c [] = None"
| "rfind_char c (x # xs) =
     (case rfind_char c xs of Some i \<Rightarrow> Some (Suc i) | None \<Rightarrow> if x = c then Some 0 else None)"

lemma rfind_char_None: "c \<notin> set s \<Longrightarrow> rfind_char c s = None"
  by (induction s) auto

lemma rfind_char_append: "c \<notin> set t \<Longrightarrow> rfind_char c (s @ c # t) = Some (length s)"
  by (induction s) (auto simp: rfind_char_None)

text \<open>\<open>find\<close> of a text: the position of its first occurrence.\<close>

fun find_sub :: "string \<Rightarrow> string \<Rightarrow> nat option" where
  "find_sub n [] = (if n = [] then Some 0 else None)"
| "find_sub n (c # cs) = (if take (length n) (c # cs) = n then Some 0 else map_option Suc (find_sub n cs))"

lemma find_sub_self: "find_sub n (n @ t) = Some 0"
  by (cases "n @ t") (auto, metis append_eq_conv_conj)

lemma find_sub_append:
  "find_sub n (g @ n) = Some (length g) \<Longrightarrow> find_sub n (g @ n @ t) = Some (length g)"
proof (induction g)
  case Nil
  then show ?case by (simp add: find_sub_self)
next
  case (Cons c g)
  then have ne: "take (length n) (c # g @ n) \<noteq> n" by (auto split: if_splits)
  have "take (length n) (c # g @ n @ t) = take (length n) (c # g @ n)" by (cases "length n") simp_all
  then show ?case using Cons ne by (auto split: if_splits)
qed

text \<open>
  Splitting at every occurrence of a separator, empty pieces included; the pieces of a
  string are joined back by \<open>join_on\<close>.
\<close>

fun split_on :: "char \<Rightarrow> string \<Rightarrow> string list" where
  "split_on c [] = [[]]"
| "split_on c (x # xs) =
     (if x = c then [] # split_on c xs
      else case split_on c xs of [] \<Rightarrow> [[x]] | p # ps \<Rightarrow> (x # p) # ps)"

fun join_on :: "char \<Rightarrow> string list \<Rightarrow> string" where
  "join_on c [] = []"
| "join_on c [p] = p"
| "join_on c (p # q # ps) = p @ c # join_on c (q # ps)"

lemma split_on_neq_Nil [simp]: "split_on c s \<noteq> []"
  by (induction s) (auto split: list.splits)

lemma split_on_no_sep: "c \<notin> set s \<Longrightarrow> split_on c s = [s]"
  by (induction s) auto

lemma split_on_append_sep:
  "c \<notin> set s \<Longrightarrow> split_on c (s @ c # t) = s # split_on c t"
  by (induction s) auto

lemma split_on_join_on:
  "ps \<noteq> [] \<Longrightarrow> \<forall>p \<in> set ps. c \<notin> set p \<Longrightarrow> split_on c (join_on c ps) = ps"
  by (induction c ps rule: join_on.induct) (auto simp: split_on_no_sep split_on_append_sep)

lemma join_on_split_on: "join_on c (split_on c s) = s"
proof (induction s)
  case Nil
  then show ?case by simp
next
  case (Cons x xs)
  obtain p ps where ps: "split_on c xs = p # ps"
    by (cases "split_on c xs") auto
  with Cons show ?case by (cases ps) auto
qed

lemma set_split_on_no_sep: "p \<in> set (split_on c s) \<Longrightarrow> c \<notin> set p"
  by (induction s arbitrary: p) (auto split: if_splits list.splits)

text \<open>
  Loops that build a text put one text before the first element and another before each of
  the others.
\<close>

fun prefixed :: "string \<Rightarrow> string \<Rightarrow> string list \<Rightarrow> string" where
  "prefixed p q [] = []"
| "prefixed p q (x # xs) = p @ x @ prefixed q q xs"

section \<open>Integers in decimal text\<close>

text \<open>
  \<open>std::from_chars\<close>, \<open>std::stoi\<close> and \<open>std::stoul\<close> read decimal digits;
  \<open>std::format("{}", n)\<close> and \<open>std::to_string\<close> write them.
\<close>

definition is_dec :: "char \<Rightarrow> bool" where
  "is_dec c \<longleftrightarrow> 48 \<le> (of_char c :: int) \<and> (of_char c :: int) \<le> 57"

definition dec_val :: "char \<Rightarrow> int" where
  "dec_val c = of_char c - 48"

definition dec_char :: "nat \<Rightarrow> char" where
  "dec_char d = char_of (int d + 48)"

definition read_dec :: "string \<Rightarrow> int" where
  "read_dec s = foldl (\<lambda>n c. 10 * n + dec_val c) 0 s"

fun show_nat :: "nat \<Rightarrow> string" where
  "show_nat n = (if n < 10 then [dec_char n] else show_nat (n div 10) @ [dec_char (n mod 10)])"

declare show_nat.simps [simp del]

definition show_int :: "int \<Rightarrow> string" where
  "show_int i = (if i < 0 then CHR ''-'' # show_nat (nat (- i)) else show_nat (nat i))"

lemma dec_char_props:
  assumes "d < 10"
  shows "is_dec (dec_char d)" and "dec_val (dec_char d) = int d"
  using assms by (simp_all add: is_dec_def dec_char_def dec_val_def)

lemma show_nat_digits: "\<forall>c \<in> set (show_nat n). is_dec c"
proof (induction n rule: show_nat.induct)
  case (1 n)
  show ?case
  proof (cases "n < 10")
    case True
    then show ?thesis by (simp add: show_nat.simps [of n] dec_char_props)
  next
    case False
    with 1 show ?thesis by (simp add: show_nat.simps [of n] dec_char_props)
  qed
qed

lemma show_nat_neq_Nil [simp]: "show_nat n \<noteq> []"
  by (subst show_nat.simps) simp

lemma read_dec_snoc: "read_dec (s @ [c]) = 10 * read_dec s + dec_val c"
  by (simp add: read_dec_def)

lemma read_dec_show_nat: "read_dec (show_nat n) = int n"
proof (induction n rule: show_nat.induct)
  case (1 n)
  show ?case
  proof (cases "n < 10")
    case True
    then show ?thesis
      by (simp add: show_nat.simps [of n] read_dec_def dec_char_props)
  next
    case False
    with 1 have "read_dec (show_nat (n div 10)) = int (n div 10)" by simp
    with False show ?thesis
      by (simp add: show_nat.simps [of n] read_dec_snoc dec_char_props zdiv_int zmod_int)
  qed
qed

lemma takeWhile_show_nat: "takeWhile is_dec (show_nat n) = show_nat n"
  using show_nat_digits by (simp add: takeWhile_eq_all_conv)

lemma dropWhile_show_nat: "dropWhile is_dec (show_nat n) = []"
  using show_nat_digits by (simp add: dropWhile_eq_Nil_conv)

lemma not_is_dec_minus [simp]: "\<not> is_dec CHR ''-''"
  by (simp add: is_dec_def)

lemma not_is_dec_comma [simp]: "\<not> is_dec CHR '',''"
  by (simp add: is_dec_def)

lemma not_is_dec_star [simp]: "\<not> is_dec CHR ''*''"
  by (simp add: is_dec_def)

lemma not_is_dec_space [simp]: "\<not> is_dec CHR '' ''"
  by (simp add: is_dec_def)

lemma show_nat_not_in: "\<not> is_dec c \<Longrightarrow> c \<notin> set (show_nat n)"
  using show_nat_digits by blast

text \<open>
  Machine \<open>int\<close> is 32 bits wide. \<open>std::from_chars\<close> accepts a minus sign and at least one
  digit, nothing else (no blanks, no plus sign); it returns the value or the error, and the
  unread rest of the text.
\<close>

definition INT_MAX :: int where "INT_MAX = 2147483647"
definition INT_MIN :: int where "INT_MIN = - 2147483648"

datatype errc = Invalid_argument | Result_out_of_range

definition from_chars_int :: "string \<Rightarrow> (errc + int) \<times> string" where
  "from_chars_int s =
     (let neg = (s \<noteq> [] \<and> hd s = CHR ''-'');
          t = (if neg then tl s else s);
          ds = takeWhile is_dec t;
          rest = dropWhile is_dec t;
          v = (if neg then - read_dec ds else read_dec ds)
      in if ds = [] then (Inl Invalid_argument, s)
         else if INT_MIN \<le> v \<and> v \<le> INT_MAX then (Inr v, rest)
         else (Inl Result_out_of_range, rest))"

text \<open>
  \<open>std::from_chars\<close> on an unsigned type of \<open>w\<close> bits: digits at the start, the rest is ignored;
  None leaves the target as it was.
\<close>

definition from_chars_unsigned :: "nat \<Rightarrow> string \<Rightarrow> int option" where
  "from_chars_unsigned w s =
     (let ds = takeWhile is_dec s in if ds = [] \<or> read_dec ds \<ge> 2 ^ w then None else Some (read_dec ds))"

lemma from_chars_show_nat:
  assumes "int n \<le> INT_MAX"
  shows "from_chars_int (show_nat n) = (Inr (int n), [])"
proof -
  have "hd (show_nat n) \<noteq> CHR ''-''"
    using show_nat_digits [of n] hd_in_set [OF show_nat_neq_Nil, of n] by (metis not_is_dec_minus)
  then show ?thesis
    using assms
    by (simp add: from_chars_int_def takeWhile_show_nat dropWhile_show_nat read_dec_show_nat
        INT_MIN_def Let_def)
qed

lemma from_chars_range:
  "from_chars_int s = (Inr v, r) \<Longrightarrow> INT_MIN \<le> v \<and> v \<le> INT_MAX"
  by (auto simp: from_chars_int_def Let_def split: if_splits)

text \<open>
  \<open>std::stoi\<close> skips leading white space, takes an optional sign and reads as many digits as
  there are; what follows them is ignored. It throws if there is no digit or the value does not
  fit.
\<close>

definition is_space :: "char \<Rightarrow> bool" where
  "is_space c \<longleftrightarrow> c = CHR '' '' \<or> (9 \<le> (of_char c :: int) \<and> (of_char c :: int) \<le> 13)"

definition strto_int :: "string \<Rightarrow> int option" where
  "strto_int s =
     (let t = dropWhile is_space s;
          neg = (t \<noteq> [] \<and> hd t = CHR ''-'');
          u = (if t \<noteq> [] \<and> (hd t = CHR ''-'' \<or> hd t = CHR ''+'') then tl t else t);
          ds = takeWhile is_dec u
      in if ds = [] then None else Some (if neg then - read_dec ds else read_dec ds))"

definition stoi :: "string \<Rightarrow> errc + int" where
  "stoi s =
     (case strto_int s of
        None \<Rightarrow> Inl Invalid_argument
      | Some v \<Rightarrow> if INT_MIN \<le> v \<and> v \<le> INT_MAX then Inr v else Inl Result_out_of_range)"

lemma stoi_range: "stoi s = Inr v \<Longrightarrow> INT_MIN \<le> v \<and> v \<le> INT_MAX"
  by (auto simp: stoi_def split: option.splits if_splits)

text \<open>
  \<open>std::stoul\<close> reads the same texts into 64 unsigned bits: a value with a minus sign is negated
  modulo the range, and it throws when the magnitude does not fit.
\<close>

definition ULONG_MAX :: int where "ULONG_MAX = 18446744073709551615"

definition stoul :: "string \<Rightarrow> errc + nat" where
  "stoul s =
     (case strto_int s of
        None \<Rightarrow> Inl Invalid_argument
      | Some v \<Rightarrow> if \<bar>v\<bar> \<le> ULONG_MAX then Inr (nat (v mod (ULONG_MAX + 1))) else Inl Result_out_of_range)"

text \<open>A string read through \<open>c_str()\<close> ends at its first null byte.\<close>

definition c_str :: "string \<Rightarrow> string" where
  "c_str s = takeWhile (\<lambda>c. c \<noteq> CHR 0x00) s"

lemma c_str_idem [simp]: "c_str (c_str s) = c_str s"
  by (simp add: c_str_def)

lemma c_str_id: "CHR 0x00 \<notin> set s \<Longrightarrow> c_str s = s"
  by (auto simp: c_str_def takeWhile_eq_all_conv)

section \<open>Integer intervals\<close>

lemma all_int_interval:
  "(\<forall>u::int. c \<le> u \<and> u < t \<longrightarrow> P u) \<longleftrightarrow>
     (c < t \<longrightarrow> P c) \<and> (\<forall>u. c + 1 \<le> u \<and> u < t \<longrightarrow> P u)"
  by (metis add1_zle_eq order_le_less order_le_less_trans)

section \<open>Outcomes\<close>

text \<open>What C++ leaves undefined, or what ends the process, is a value of its own.\<close>

datatype ub =
    Signed_overflow
  | Inactive_union_member
  | Null_dereference
  | Use_after_free
  | Out_of_bounds
  | Bad_format

type_synonym 'a may_ub = "ub + 'a"

definition bind_ub :: "'e + 'a \<Rightarrow> ('a \<Rightarrow> 'e + 'b) \<Rightarrow> 'e + 'b" where
  "bind_ub m f = (case m of Inl u \<Rightarrow> Inl u | Inr x \<Rightarrow> f x)"

lemma bind_ub_simps [simp]:
  "bind_ub (Inl u) f = Inl u"
  "bind_ub (Inr x) f = f x"
  by (simp_all add: bind_ub_def)

lemma bind_ub_Inr_iff: "bind_ub m f = Inr y \<longleftrightarrow> (\<exists>x. m = Inr x \<and> f x = Inr y)"
  by (cases m) simp_all

lemma map_sum_eq_Inr: "map_sum id f m = Inr y \<longleftrightarrow> (\<exists>x. m = Inr x \<and> y = f x)"
  by (cases m) auto

lemma map_sum_eq_Inl: "map_sum id f m = Inl u \<longleftrightarrow> m = Inl u"
  by (cases m) auto

end
