(* ===== verification/Calendar.thy ===== *)
theory Calendar
  imports Prelude
begin

text \<open>
  The part of \<open>std::chrono\<close> that the cron backend reads: time points in nanoseconds,
  \<open>year_month_day\<close> and \<open>weekday\<close> of a day count.
\<close>

section \<open>Time points, dates and weekdays\<close>

text \<open>
  Times are nanoseconds since the epoch, the representation of
  \<open>system_clock::time_point\<close>; \<open>floor<minutes>\<close> and \<open>floor<days>\<close> round down.
  \<open>year_month_day\<close> is the proleptic Gregorian calendar, counted in years that begin on
  1 March, and \<open>weekday\<close> has Sunday as 0.
\<close>

type_synonym time = int

definition ns_per_minute :: int where "ns_per_minute = 60000000000"
definition ns_per_hour :: int where "ns_per_hour = 3600000000000"
definition ns_per_day :: int where "ns_per_day = 86400000000000"

lemmas ns_defs = ns_per_minute_def ns_per_hour_def ns_per_day_def

definition civil_from_days :: "int \<Rightarrow> int \<times> int \<times> int" where
  "civil_from_days z =
     (let era = (z + 719468) div 146097;
          doe = (z + 719468) mod 146097;
          c = min 3 (doe div 36524);
          doc = doe - c * 36524;
          q = doc div 1461;
          doq = doc mod 1461;
          yq = min 3 (doq div 365);
          doy = doq - yq * 365;
          mp = (5 * doy + 2) div 153;
          d = doy - (153 * mp + 2) div 5 + 1;
          m = (if mp < 10 then mp + 3 else mp - 9);
          y = era * 400 + c * 100 + q * 4 + yq + (if m \<le> 2 then 1 else 0)
      in (y, m, d))"

definition days_from_civil :: "int \<Rightarrow> int \<Rightarrow> int \<Rightarrow> int" where
  "days_from_civil y m d =
     (let y' = (if m \<le> 2 then y - 1 else y);
          mp = (if m > 2 then m - 3 else m + 9);
          doy = (153 * mp + 2) div 5 + d - 1;
          era = y' div 400;
          yoe = y' mod 400;
          doe = yoe * 365 + yoe div 4 - yoe div 100 + doy
      in era * 146097 + doe - 719468)"

definition weekday_from_days :: "int \<Rightarrow> int" where
  "weekday_from_days z = (z + 4) mod 7"


section \<open>The calendar is right\<close>

text \<open>
  Every step of \<open>civil_from_days\<close> with the ranges of its intermediate values, which the
  bounds and the round trip below share.
\<close>

lemma min_div_remainder:
  fixes x n :: int
  assumes "0 < n" "0 \<le> x"
  shows "0 \<le> min 3 (x div n)" and "0 \<le> x - min 3 (x div n) * n"
    and "min 3 (x div n) < 3 \<Longrightarrow> x - min 3 (x div n) * n < n"
proof -
  have x: "x - (x div n) * n = x mod n" by (simp add: minus_div_mult_eq_mod)
  have m: "0 \<le> x mod n" "x mod n < n" using assms by simp_all
  show "0 \<le> min 3 (x div n)" using assms by (simp add: pos_imp_zdiv_nonneg_iff)
  have "min 3 (x div n) * n \<le> (x div n) * n" using assms by (intro mult_right_mono) simp_all
  then show "0 \<le> x - min 3 (x div n) * n" using x m(1) by linarith
  assume "min 3 (x div n) < 3"
  then have "min 3 (x div n) = x div n" by simp
  then show "x - min 3 (x div n) * n < n" using x m(2) by simp
qed

lemma civil_steps:
  fixes z :: int
  obtains era c q yq doy mp where
    "z + 719468 = era * 146097 + c * 36524 + q * 1461 + yq * 365 + doy"
    "0 \<le> c" "c \<le> 3" "0 \<le> q" "q \<le> 24" "0 \<le> yq" "yq \<le> 3" "0 \<le> doy" "doy \<le> 365"
    "doy = 365 \<longrightarrow> yq = 3 \<and> (q < 24 \<or> c = 3)"
    "mp = (5 * doy + 2) div 153"
    "civil_from_days z =
       (era * 400 + c * 100 + q * 4 + yq + (if (if mp < 10 then mp + 3 else mp - 9) \<le> 2 then 1 else 0),
        (if mp < 10 then mp + 3 else mp - 9),
        doy - (153 * mp + 2) div 5 + 1)"
proof -
  define era where "era = (z + 719468) div 146097"
  define doe where "doe = (z + 719468) mod 146097"
  define c where "c = min 3 (doe div 36524)"
  define doc where "doc = doe - c * 36524"
  define q where "q = doc div 1461"
  define doq where "doq = doc mod 1461"
  define yq where "yq = min 3 (doq div 365)"
  define doy where "doy = doq - yq * 365"
  define mp where "mp = (5 * doy + 2) div 153"
  have z: "z + 719468 = era * 146097 + doe"
    unfolding era_def doe_def by simp
  have doe: "0 \<le> doe" "doe < 146097" unfolding doe_def by simp_all
  have c: "0 \<le> c" "c \<le> 3" using doe unfolding c_def by (auto simp: pos_imp_zdiv_nonneg_iff)
  have doc: "0 \<le> doc" "doc \<le> 36524" "doc = 36524 \<Longrightarrow> c = 3"
    using min_div_remainder(2,3) [of 36524 doe] doe c unfolding doc_def c_def [symmetric] by force+
  have doc2: "doc = q * 1461 + doq" unfolding q_def doq_def by simp
  have doq: "0 \<le> doq" "doq < 1461" unfolding doq_def by simp_all
  have q: "0 \<le> q" "q \<le> 24" using doc unfolding q_def by (auto simp: pos_imp_zdiv_nonneg_iff)
  have yq: "0 \<le> yq" "yq \<le> 3" using doq unfolding yq_def by (auto simp: pos_imp_zdiv_nonneg_iff)
  have doy: "0 \<le> doy" "doy \<le> 365" "doy = 365 \<Longrightarrow> yq = 3 \<and> doq = 1460"
    using min_div_remainder(2,3) [of 365 doq] doq yq unfolding doy_def yq_def [symmetric] by force+
  have leap: "doy = 365 \<longrightarrow> yq = 3 \<and> (q < 24 \<or> c = 3)"
    using doy doc doc2 q by (cases "q = 24") auto
  have sum: "z + 719468 = era * 146097 + c * 36524 + q * 1461 + yq * 365 + doy"
    using z doc2 unfolding doc_def doy_def by simp
  have civ: "civil_from_days z =
       (era * 400 + c * 100 + q * 4 + yq + (if (if mp < 10 then mp + 3 else mp - 9) \<le> 2 then 1 else 0),
        (if mp < 10 then mp + 3 else mp - 9),
        doy - (153 * mp + 2) div 5 + 1)"
    unfolding civil_from_days_def Let_def era_def doe_def c_def doc_def q_def doq_def yq_def
      doy_def mp_def by (rule refl)
  show ?thesis
    by (rule that [OF sum c q yq doy(1,2) leap mp_def civ])
qed

lemma month_bounds:
  fixes doy :: int
  assumes "0 \<le> doy" "doy \<le> 365" "mp = (5 * doy + 2) div 153"
  shows "0 \<le> mp \<and> mp \<le> 11" and "1 \<le> doy - (153 * mp + 2) div 5 + 1"
    and "doy - (153 * mp + 2) div 5 + 1 \<le> 31"
    and "mp = 11 \<Longrightarrow> doy - (153 * mp + 2) div 5 + 1 \<le> 29"
proof -
  define k where "k = (153 * mp + 2) div 5"
  have mp: "153 * mp \<le> 5 * doy + 2" "5 * doy + 2 < 153 * mp + 153"
    using assms(3) by linarith+
  have k: "5 * k \<le> 153 * mp + 2" "153 * mp + 2 < 5 * k + 5"
    unfolding k_def by linarith+
  show "0 \<le> mp \<and> mp \<le> 11" using mp assms(1,2) by linarith
  show "1 \<le> doy - (153 * mp + 2) div 5 + 1" "doy - (153 * mp + 2) div 5 + 1 \<le> 31"
    unfolding k_def [symmetric] using mp k by linarith+
  assume "mp = 11"
  then show "doy - (153 * mp + 2) div 5 + 1 \<le> 29" using assms(2) by simp
qed

theorem civil_bounds:
  assumes "civil_from_days z = (y, m, d)"
  shows "1 \<le> m" "m \<le> 12" "1 \<le> d" "d \<le> 31" "m = 2 \<Longrightarrow> d \<le> 29"
proof -
  obtain era c q yq doy mp where doy: "0 \<le> doy" "doy \<le> 365"
    and mp: "mp = (5 * doy + 2) div 153"
    and eq: "civil_from_days z =
       (era * 400 + c * 100 + q * 4 + yq + (if (if mp < 10 then mp + 3 else mp - 9) \<le> 2 then 1 else 0),
        (if mp < 10 then mp + 3 else mp - 9),
        doy - (153 * mp + 2) div 5 + 1)"
    by (rule civil_steps [of z]) blast
  note b = month_bounds [OF doy mp]
  have m: "m = (if mp < 10 then mp + 3 else mp - 9)" and d: "d = doy - (153 * mp + 2) div 5 + 1"
    using eq assms by auto
  show "1 \<le> m" "m \<le> 12" using m b(1) by (auto split: if_splits)
  show "1 \<le> d" "d \<le> 31" using d b by auto
  assume "m = 2"
  then have "mp = 11" using m b(1) by (auto split: if_splits)
  then show "d \<le> 29" using b(4) d by simp
qed

text \<open>Where 29 February falls.\<close>

lemma feb29_day:
  assumes "civil_from_days z = (y, 2, 29)"
  obtains era c q where "z + 719468 = era * 146097 + c * 36524 + q * 1461 + 1460"
    "0 \<le> c" "c \<le> 3" "0 \<le> q" "q \<le> 24" "q < 24 \<or> c = 3"
proof -
  obtain era c q yq doy mp where
    z: "z + 719468 = era * 146097 + c * 36524 + q * 1461 + yq * 365 + doy"
    and c: "0 \<le> c" "c \<le> 3" and q: "0 \<le> q" "q \<le> 24"
    and doy: "0 \<le> doy" "doy \<le> 365"
    and leap: "doy = 365 \<longrightarrow> yq = 3 \<and> (q < 24 \<or> c = 3)" and mp: "mp = (5 * doy + 2) div 153"
    and eq: "civil_from_days z =
       (era * 400 + c * 100 + q * 4 + yq + (if (if mp < 10 then mp + 3 else mp - 9) \<le> 2 then 1 else 0),
        (if mp < 10 then mp + 3 else mp - 9),
        doy - (153 * mp + 2) div 5 + 1)"
    by (rule civil_steps [of z]) blast
  have "(if mp < 10 then mp + 3 else mp - 9) = 2" "doy - (153 * mp + 2) div 5 + 1 = 29"
    using eq assms by simp_all
  moreover from this have "mp = 11" using month_bounds(1) [OF doy mp] by (simp split: if_splits)
  ultimately have "doy = 365" by simp
  then have "yq = 3" "q < 24 \<or> c = 3" using leap by simp_all
  moreover from this have "z + 719468 = era * 146097 + c * 36524 + q * 1461 + 1460"
    using z \<open>doy = 365\<close> by simp
  ultimately show ?thesis using that c q by blast
qed

lemma days_from_civil_of_civil: "(case civil_from_days z of (y, m, d) \<Rightarrow> days_from_civil y m d) = z"
proof -
  obtain era c q yq doy mp where
    z: "z + 719468 = era * 146097 + c * 36524 + q * 1461 + yq * 365 + doy"
    and c: "0 \<le> c" "c \<le> 3" and q: "0 \<le> q" "q \<le> 24" and yq: "0 \<le> yq" "yq \<le> 3"
    and doy: "0 \<le> doy" "doy \<le> 365" and mp: "mp = (5 * doy + 2) div 153"
    and eq: "civil_from_days z =
       (era * 400 + c * 100 + q * 4 + yq + (if (if mp < 10 then mp + 3 else mp - 9) \<le> 2 then 1 else 0),
        (if mp < 10 then mp + 3 else mp - 9),
        doy - (153 * mp + 2) div 5 + 1)"
    by (rule civil_steps [of z]) blast
  have mpb: "0 \<le> mp" "mp \<le> 11" using month_bounds(1) [OF doy mp] by simp_all
  define yoe where "yoe = c * 100 + q * 4 + yq"
  have yoe: "0 \<le> yoe" "yoe < 400" using c q yq by (simp_all add: yoe_def)
  have y: "(era * 400 + yoe) div 400 = era" "(era * 400 + yoe) mod 400 = yoe"
    using yoe by simp_all
  have d4: "yoe div 4 = c * 25 + q" using yq by (simp add: yoe_def)
  have d100: "yoe div 100 = c" using q yq by (simp add: yoe_def)
  have "days_from_civil
      (era * 400 + c * 100 + q * 4 + yq + (if (if mp < 10 then mp + 3 else mp - 9) \<le> 2 then 1 else 0))
      (if mp < 10 then mp + 3 else mp - 9) (doy - (153 * mp + 2) div 5 + 1) =
      era * 146097 + (yoe * 365 + yoe div 4 - yoe div 100 + doy) - 719468"
    using mpb y by (auto simp: days_from_civil_def Let_def yoe_def add.assoc split: if_splits)
  also have "\<dots> = z" using z by (simp add: d4 d100) (simp add: yoe_def)
  finally show ?thesis using eq by simp
qed

end
