(* ===== verification/CronExpr.thy ===== *)
theory CronExpr
  imports Calendar
begin

text \<open>
  The cron expressions of the local cron backend: \<open>CronExpression\<close> of
  plugins/cron/local/bin/local_cron.cc (\<open>parse\<close>, \<open>parse_field\<close>, \<open>parse_token\<close>,
  \<open>parse_int\<close>, \<open>matches\<close>, \<open>next_after\<close>), with the calendar that \<open>std::chrono\<close>
  gives the matcher. Signed overflow, which C++ leaves undefined, is an outcome of its own.
\<close>

section \<open>Parsing\<close>

record CronExpression =
  m_minutes :: "int list"
  m_hours :: "int list"
  m_days :: "int list"
  m_months :: "int list"
  m_weekdays :: "int list"

text \<open>\<open>parse_int\<close>: \<open>from_chars\<close> must succeed and read the whole text.\<close>

definition parse_int :: "string \<Rightarrow> int option" where
  "parse_int text =
     (case from_chars_int text of
        (Inr v, rest) \<Rightarrow> if rest = [] then Some v else None
      | (Inl _, _) \<Rightarrow> None)"

text \<open>
  The step loop \<open>for (int value = min; value <= max; value += step)\<close>: the addition after
  the push is the one that can overflow. The source runs it with a positive step only.
\<close>

function push_step :: "int \<Rightarrow> int \<Rightarrow> int \<Rightarrow> int list may_ub" where
  "push_step val mx step =
     (if val \<le> mx \<and> 0 < step
      then (if val + step > INT_MAX then Inl Signed_overflow
            else map_sum id (\<lambda>vs. val # vs) (push_step (val + step) mx step))
      else Inr [])"
  by pat_completeness auto
termination
  by (relation "measure (\<lambda>(val, mx, step). nat (mx - val + 1))") auto

declare push_step.simps [simp del]

text \<open>
  \<open>parse_token\<close>: \<open>Inr None\<close> is the return value false, \<open>Inr (Some vs)\<close> is true with
  \<open>vs\<close> appended to \<open>out\<close>.
\<close>

definition parse_token :: "string \<Rightarrow> int \<Rightarrow> int \<Rightarrow> int list option may_ub" where
  "parse_token token mn mx =
     (if token = [] then Inr None
      else if token = ''*'' then Inr (Some [mn..mx])
      else if take 2 token = ''*/'' then
        (case parse_int (drop 2 token) of
           None \<Rightarrow> Inr None
         | Some step \<Rightarrow>
             if step \<le> 0 then Inr None else map_sum id Some (push_step mn mx step))
      else (case find_char CHR ''-'' token of
          Some dash \<Rightarrow>
            (case (parse_int (take dash token), parse_int (drop (Suc dash) token)) of
               (Some lo, Some hi) \<Rightarrow>
                 if lo > hi then Inr None else Inr (Some [max lo mn..min hi mx])
             | _ \<Rightarrow> Inr None)
        | None \<Rightarrow>
            (case parse_int token of
               None \<Rightarrow> Inr None
             | Some val \<Rightarrow>
                 if val < mn \<or> val > mx then Inr None else Inr (Some [val]))))"

text \<open>
  The token loop of \<open>parse_field\<close> on the part of the field from \<open>start\<close> on.
\<close>

function parse_tokens :: "string \<Rightarrow> int \<Rightarrow> int \<Rightarrow> int list \<Rightarrow> int list option may_ub" where
  "parse_tokens field mn mx values =
     (case find_char CHR '','' field of
        None \<Rightarrow>
          bind_ub (parse_token field mn mx) (\<lambda>r.
            case r of None \<Rightarrow> Inr None | Some vs \<Rightarrow> Inr (Some (values @ vs)))
      | Some comma \<Rightarrow>
          bind_ub (parse_token (take comma field) mn mx) (\<lambda>r.
            case r of
              None \<Rightarrow> Inr None
            | Some vs \<Rightarrow> parse_tokens (drop (Suc comma) field) mn mx (values @ vs)))"
  by pat_completeness auto
termination
  by (relation "measure (\<lambda>(field, mn, mx, values). length field)")
     (auto dest: find_char_Some_nth)

declare parse_tokens.simps [simp del]

definition parse_field :: "string \<Rightarrow> int \<Rightarrow> int \<Rightarrow> int list option may_ub" where
  "parse_field field mn mx =
     bind_ub (parse_tokens field mn mx []) (\<lambda>r.
       case r of
         None \<Rightarrow> Inr None
       | Some values \<Rightarrow>
           if values = [] then Inr None else Inr (Some (remdups_adj (sort values))))"

text \<open>The field splitter of \<open>parse\<close>: runs of blanks separate fields.\<close>

function split_fields :: "string \<Rightarrow> string list" where
  "split_fields expr =
     (let t = dropWhile (\<lambda>c. c = CHR '' '') expr
      in if t = [] then []
         else takeWhile (\<lambda>c. c \<noteq> CHR '' '') t # split_fields (dropWhile (\<lambda>c. c \<noteq> CHR '' '') t))"
  by pat_completeness auto
termination
proof (relation "measure length", goal_cases)
  case 1
  then show ?case by simp
next
  case (2 expr x)
  then obtain c cs where x: "x = c # cs" "c \<noteq> CHR '' ''"
    by (metis (mono_tags, lifting) dropWhile_eq_Cons_conv neq_Nil_conv)
  have "length (dropWhile (\<lambda>c. c \<noteq> CHR '' '') x) \<le> length cs"
    using x by (simp add: length_dropWhile_le)
  also have "length cs < length x" using x by simp
  also have "length x \<le> length expr"
    using 2 by (simp add: length_dropWhile_le)
  finally show ?case by simp
qed

declare split_fields.simps [simp del]

definition parse :: "string \<Rightarrow> CronExpression option may_ub" where
  "parse expr =
     (case split_fields expr of
        [f0, f1, f2, f3, f4] \<Rightarrow>
          bind_ub (parse_field f0 0 59) (\<lambda>minutes.
          bind_ub (parse_field f1 0 23) (\<lambda>hours.
          bind_ub (parse_field f2 1 31) (\<lambda>days.
          bind_ub (parse_field f3 1 12) (\<lambda>months.
          bind_ub (parse_field f4 0 6) (\<lambda>weekdays.
            case (minutes, hours, days, months, weekdays) of
              (Some mi, Some ho, Some da, Some mo, Some we) \<Rightarrow>
                Inr (Some \<lparr>m_minutes = mi, m_hours = ho, m_days = da, m_months = mo,
                           m_weekdays = we\<rparr>)
            | _ \<Rightarrow> Inr None)))))
      | _ \<Rightarrow> Inr None)"

section \<open>Matching and searching\<close>

definition matches :: "CronExpression \<Rightarrow> time \<Rightarrow> bool" where
  "matches e candidate =
     (let days_point = candidate div ns_per_day;
          (y, m, d) = civil_from_days days_point;
          time_of_day = candidate - days_point * ns_per_day;
          hours = time_of_day div ns_per_hour;
          minutes = (time_of_day mod ns_per_hour) div ns_per_minute
      in minutes \<in> set (m_minutes e) \<and> hours \<in> set (m_hours e) \<and>
         d \<in> set (m_days e) \<and> m \<in> set (m_months e) \<and>
         weekday_from_days days_point \<in> set (m_weekdays e))"

text \<open>
  The minute-by-minute loop of \<open>next_after\<close>; \<open>candidate\<close> and \<open>deadline\<close> count minutes.
\<close>

definition horizon :: int where "horizon = 4 * 366 * 24 * 60"

function next_search :: "CronExpression \<Rightarrow> int \<Rightarrow> int \<Rightarrow> int option" where
  "next_search e candidate deadline =
     (if candidate < deadline
      then (if matches e (candidate * ns_per_minute) then Some candidate
            else next_search e (candidate + 1) deadline)
      else None)"
  by pat_completeness auto
termination
  by (relation "measure (\<lambda>(e, candidate, deadline). nat (deadline - candidate))") auto

declare next_search.simps [simp del]

definition next_after :: "CronExpression \<Rightarrow> time \<Rightarrow> time option" where
  "next_after e base =
     (let candidate = base div ns_per_minute + 1
      in map_option (\<lambda>c. c * ns_per_minute) (next_search e candidate (candidate + horizon)))"

section \<open>The step loop\<close>

lemma push_step_set:
  "push_step val mx step = Inr vs \<Longrightarrow> 0 < step \<Longrightarrow>
     set vs = {x. val \<le> x \<and> x \<le> mx \<and> (x - val) mod step = 0}"
proof (induction val mx step arbitrary: vs rule: push_step.induct)
  case (1 val mx step)
  show ?case
  proof (cases "val \<le> mx")
    case False
    with 1 show ?thesis by (auto simp: push_step.simps [of val mx step])
  next
    case True
    with 1 obtain ws where ws: "push_step (val + step) mx step = Inr ws"
      and vs: "vs = val # ws" and noov: "\<not> val + step > INT_MAX"
      by (cases "push_step (val + step) mx step")
         (auto simp: push_step.simps [of val mx step] split: if_splits)
    have "set ws = {x. val + step \<le> x \<and> x \<le> mx \<and> (x - (val + step)) mod step = 0}"
      using 1 True noov ws by auto
    also have "\<dots> = {x. val + step \<le> x \<and> x \<le> mx \<and> (x - val) mod step = 0}"
      by (simp add: diff_diff_eq [symmetric])
    also have "insert val \<dots> = {x. val \<le> x \<and> x \<le> mx \<and> (x - val) mod step = 0}"
    proof (rule set_eqI)
      fix x
      have far: "val + step \<le> x" if "val \<le> x" "x \<noteq> val" "(x - val) mod step = 0"
      proof -
        have "step dvd x - val" using that(3) by (simp only: dvd_eq_mod_eq_0)
        then have "step \<le> x - val" using that(1,2) by (intro zdvd_imp_le) simp_all
        then show ?thesis by linarith
      qed
      show "x \<in> insert val {x. val + step \<le> x \<and> x \<le> mx \<and> (x - val) mod step = 0} \<longleftrightarrow>
          x \<in> {x. val \<le> x \<and> x \<le> mx \<and> (x - val) mod step = 0}"
        using True \<open>0 < step\<close> far by (cases "x = val") (simp_all, linarith+)
    qed
    finally show ?thesis using vs by simp
  qed
qed

lemma push_step_Inl: "push_step val mx step = Inl u \<Longrightarrow> u = Signed_overflow"
proof (induction val mx step rule: push_step.induct)
  case (1 val mx step)
  then show ?case
    by (auto simp: push_step.simps [of val mx step] map_sum_eq_Inl split: if_splits)
qed

text \<open>
  Exactly when the loop overflows: the sum after the last pushed value exceeds the range.
\<close>

lemma push_step_overflow_iff:
  "0 < step \<Longrightarrow>
     push_step val mx step = Inl Signed_overflow \<longleftrightarrow>
     val \<le> mx \<and> INT_MAX < val + ((mx - val) div step + 1) * step"
proof (induction val mx step rule: push_step.induct)
  case (1 val mx step)
  show ?case
  proof (cases "val \<le> mx")
    case False
    then show ?thesis by (simp add: push_step.simps [of val mx step])
  next
    case True
    have q0: "0 \<le> (mx - val) div step"
      using True 1 by (simp add: pos_imp_zdiv_nonneg_iff)
    show ?thesis
    proof (cases "val + step > INT_MAX")
      case ov: True
      have "step \<le> ((mx - val) div step + 1) * step"
        using q0 1 by (simp add: algebra_simps)
      with ov have "INT_MAX < val + ((mx - val) div step + 1) * step" by linarith
      with ov True 1 show ?thesis by (simp add: push_step.simps [of val mx step])
    next
      case noov: False
      have IH: "push_step (val + step) mx step = Inl Signed_overflow \<longleftrightarrow>
          val + step \<le> mx \<and>
          INT_MAX < val + step + ((mx - (val + step)) div step + 1) * step"
        using 1 True noov by auto
      have div_eq: "(mx - (val + step)) div step = (mx - val) div step - 1"
        using 1 div_add_self2 [of step "mx - (val + step)"] by simp
      have sum_eq: "val + step + ((mx - (val + step)) div step + 1) * step =
          val + ((mx - val) div step + 1) * step"
        unfolding div_eq by (simp add: algebra_simps)
      have small: "(mx - val) div step = 0" if "\<not> val + step \<le> mx"
        using that True by (simp add: div_pos_pos_trivial)
      have "push_step val mx step = Inl Signed_overflow \<longleftrightarrow>
          push_step (val + step) mx step = Inl Signed_overflow"
        using True noov 1
        by (cases "push_step (val + step) mx step")
           (auto simp: push_step.simps [of val mx step])
      also have "\<dots> \<longleftrightarrow> val \<le> mx \<and> INT_MAX < val + ((mx - val) div step + 1) * step"
        using IH small True noov by (cases "val + step \<le> mx") (auto simp: sum_eq)
      finally show ?thesis .
    qed
  qed
qed

section \<open>The search loop\<close>

lemma next_search_Some_iff:
  "next_search e c deadline = Some t \<longleftrightarrow>
     c \<le> t \<and> t < deadline \<and> matches e (t * ns_per_minute) \<and>
     (\<forall>u. c \<le> u \<and> u < t \<longrightarrow> \<not> matches e (u * ns_per_minute))"
proof (induction e c deadline rule: next_search.induct)
  case (1 e c deadline)
  show ?case
  proof (cases "c < deadline \<and> \<not> matches e (c * ns_per_minute)")
    case True
    then have "next_search e c deadline = next_search e (c + 1) deadline"
      by (simp add: next_search.simps [of e c])
    moreover have "c + 1 \<le> t \<longleftrightarrow> c \<le> t \<and> t \<noteq> c" by auto
    ultimately show ?thesis
      using 1 True all_int_interval [of c t "\<lambda>u. \<not> matches e (u * ns_per_minute)"] by auto
  next
    case False
    then show ?thesis by (auto simp: next_search.simps [of e c])
  qed
qed

lemma next_search_None_iff:
  "next_search e c deadline = None \<longleftrightarrow>
     (\<forall>u. c \<le> u \<and> u < deadline \<longrightarrow> \<not> matches e (u * ns_per_minute))"
proof (induction e c deadline rule: next_search.induct)
  case (1 e c deadline)
  show ?case
  proof (cases "c < deadline \<and> \<not> matches e (c * ns_per_minute)")
    case True
    then have "next_search e c deadline = next_search e (c + 1) deadline"
      by (simp add: next_search.simps [of e c])
    then show ?thesis
      using 1 True all_int_interval [of c deadline "\<lambda>u. \<not> matches e (u * ns_per_minute)"]
      by auto
  next
    case False
    then show ?thesis by (auto simp: next_search.simps [of e c])
  qed
qed

section \<open>Fields\<close>

text \<open>The tokens of a field, parsed one after the other.\<close>

fun parse_all :: "string list \<Rightarrow> int \<Rightarrow> int \<Rightarrow> int list option may_ub" where
  "parse_all [] mn mx = Inr (Some [])"
| "parse_all (t # ts) mn mx =
     bind_ub (parse_token t mn mx) (\<lambda>r.
       case r of
         None \<Rightarrow> Inr None
       | Some vs \<Rightarrow>
           bind_ub (parse_all ts mn mx) (\<lambda>r'.
             case r' of None \<Rightarrow> Inr None | Some ws \<Rightarrow> Inr (Some (vs @ ws))))"

lemma take_find_char_split:
  assumes "find_char c s = Some i"
  shows "split_on c s = take i s # split_on c (drop (Suc i) s)"
proof -
  have "s = take i s @ c # drop (Suc i) s" and "c \<notin> set (take i s)"
    using find_char_Some_nth [OF assms] id_take_nth_drop [of i s] by auto
  then show ?thesis using split_on_append_sep [of c "take i s" "drop (Suc i) s"] by metis
qed

lemma parse_tokens_eq:
  "parse_tokens f mn mx vs =
     bind_ub (parse_all (split_on CHR '','' f) mn mx) (\<lambda>r.
       case r of None \<Rightarrow> Inr None | Some ws \<Rightarrow> Inr (Some (vs @ ws)))"
proof (induction f mn mx vs rule: parse_tokens.induct)
  case (1 f mn mx vs)
  show ?case
  proof (cases "find_char CHR '','' f")
    case None
    then have "split_on CHR '','' f = [f]"
      by (simp add: find_char_None_iff split_on_no_sep)
    with None show ?thesis
      by (simp add: parse_tokens.simps [of f] bind_ub_def split: sum.splits option.splits)
  next
    case (Some i)
    have sp: "split_on CHR '','' f = take i f # split_on CHR '','' (drop (Suc i) f)"
      using Some by (rule take_find_char_split)
    show ?thesis
    proof (cases "parse_token (take i f) mn mx")
      case (Inl u)
      then show ?thesis using Some sp by (simp add: parse_tokens.simps [of f])
    next
      case (Inr r)
      then show ?thesis
        using Some sp 1 [OF Some]
        by (cases r)
           (auto simp: parse_tokens.simps [of f] bind_ub_def split: sum.splits option.splits)
    qed
  qed
qed

lemma distinct_remdups_adj: "sorted xs \<Longrightarrow> distinct (remdups_adj xs)"
  by (induction xs rule: remdups_adj.induct) auto

lemma remdups_adj_sort: "remdups_adj (sort xs) = sorted_list_of_set (set xs)"
proof -
  have "sorted (remdups_adj (sort xs))" and "distinct (remdups_adj (sort xs))"
    by (simp_all add: sorted_remdups_adj distinct_remdups_adj)
  then show ?thesis
    by (intro sorted_distinct_set_unique) simp_all
qed

lemma parse_field_eq:
  "parse_field f mn mx =
     bind_ub (parse_all (split_on CHR '','' f) mn mx) (\<lambda>r.
       case r of
         None \<Rightarrow> Inr None
       | Some vs \<Rightarrow>
           if vs = [] then Inr None else Inr (Some (sorted_list_of_set (set vs))))"
  by (simp add: parse_field_def parse_tokens_eq remdups_adj_sort bind_ub_def
      split: sum.splits option.splits)

lemma parse_int_range: "parse_int s = Some v \<Longrightarrow> INT_MIN \<le> v \<and> v \<le> INT_MAX"
  by (auto simp: parse_int_def split: prod.splits sum.splits if_splits dest: from_chars_range)

lemma parse_int_show_nat: "int n \<le> INT_MAX \<Longrightarrow> parse_int (show_nat n) = Some (int n)"
  by (simp add: parse_int_def from_chars_show_nat)

lemma parse_token_bounds:
  assumes "parse_token t mn mx = Inr (Some vs)"
  shows "set vs \<subseteq> {mn..mx}"
  using assms push_step_set [of mn mx _ vs]
  by (auto simp: parse_token_def map_sum_eq_Inr split: if_splits option.splits)

lemma parse_all_Cons_Some:
  "parse_all (t # ts) mn mx = Inr (Some vs) \<longleftrightarrow>
     (\<exists>us ws. parse_token t mn mx = Inr (Some us) \<and> parse_all ts mn mx = Inr (Some ws) \<and>
        vs = us @ ws)"
  by (auto simp: bind_ub_def split: sum.splits option.splits)

lemma parse_all_bounds:
  "parse_all ts mn mx = Inr (Some vs) \<Longrightarrow> set vs \<subseteq> {mn..mx}"
proof (induction ts arbitrary: vs)
  case Nil
  then show ?case by simp
next
  case (Cons t ts)
  from Cons.prems obtain us ws where "parse_token t mn mx = Inr (Some us)"
      and "parse_all ts mn mx = Inr (Some ws)" and vs: "vs = us @ ws"
    by (auto simp only: parse_all_Cons_Some)
  then have "set us \<subseteq> {mn..mx}" and "set ws \<subseteq> {mn..mx}"
    by (auto simp only: parse_token_bounds Cons.IH)
  then show ?case by (simp add: vs)
qed

section \<open>Well-formed expressions\<close>

definition field_wf :: "int \<Rightarrow> int \<Rightarrow> int list \<Rightarrow> bool" where
  "field_wf mn mx vs \<longleftrightarrow> vs \<noteq> [] \<and> sorted vs \<and> distinct vs \<and> set vs \<subseteq> {mn..mx}"

definition cron_wf :: "CronExpression \<Rightarrow> bool" where
  "cron_wf e \<longleftrightarrow>
     field_wf 0 59 (m_minutes e) \<and> field_wf 0 23 (m_hours e) \<and> field_wf 1 31 (m_days e) \<and>
     field_wf 1 12 (m_months e) \<and> field_wf 0 6 (m_weekdays e)"

lemma parse_field_wf: "parse_field f mn mx = Inr (Some vs) \<Longrightarrow> field_wf mn mx vs"
  by (auto simp: parse_field_eq bind_ub_def field_wf_def split: sum.splits option.splits if_splits
      dest!: parse_all_bounds)

lemma parse_Some_iff:
  "parse expr = Inr (Some e) \<longleftrightarrow>
     (\<exists>f0 f1 f2 f3 f4. split_fields expr = [f0, f1, f2, f3, f4] \<and>
        parse_field f0 0 59 = Inr (Some (m_minutes e)) \<and>
        parse_field f1 0 23 = Inr (Some (m_hours e)) \<and>
        parse_field f2 1 31 = Inr (Some (m_days e)) \<and>
        parse_field f3 1 12 = Inr (Some (m_months e)) \<and>
        parse_field f4 0 6 = Inr (Some (m_weekdays e)))"
  by (cases e)
     (auto simp: parse_def bind_ub_def split: list.splits sum.splits option.splits)

lemma parse_cron_wf: "parse expr = Inr (Some e) \<Longrightarrow> cron_wf e"
  by (auto simp: parse_Some_iff cron_wf_def intro: parse_field_wf)

section \<open>Signed overflow\<close>

text \<open>
  A token overflows only if it is \<open>*/2147483647\<close> in a field that begins at 1.
\<close>

lemma step_overflow:
  assumes "0 < step" "step \<le> INT_MAX" "mn \<in> {0, 1}" "mn \<le> mx" "mx \<le> 59"
    and ov: "INT_MAX < mn + ((mx - mn) div step + 1) * step"
  shows "mn = 1 \<and> step = INT_MAX"
proof (cases "step \<le> mx - mn")
  case True
  have "(mx - mn) div step * step \<le> mx - mn"
    using assms(1) by (simp add: minus_mod_eq_div_mult [symmetric])
  then have "mn + ((mx - mn) div step + 1) * step \<le> mn + (mx - mn) + step"
    by (simp add: algebra_simps)
  also have "\<dots> \<le> INT_MAX"
    using True assms(3-5) by (auto simp: INT_MAX_def)
  finally show ?thesis using ov by simp
next
  case False
  then have "(mx - mn) div step = 0"
    using assms(4) by (simp add: div_pos_pos_trivial)
  with ov assms(2,3) show ?thesis by auto
qed

lemma parse_token_overflow:
  assumes "parse_token t mn mx = Inl u" "mn \<in> {0, 1}" "mn \<le> mx" "mx \<le> 59"
  shows "mn = 1 \<and> (\<exists>s. t = ''*/'' @ s \<and> parse_int s = Some INT_MAX)"
proof -
  obtain step where t: "take 2 t = ''*/''" and p: "parse_int (drop 2 t) = Some step"
      and pos: "0 < step" and ov: "push_step mn mx step = Inl u"
    using assms(1)
    by (auto simp: parse_token_def map_sum_eq_Inl split: if_splits option.splits prod.splits)
  have "push_step mn mx step = Inl Signed_overflow"
    using ov push_step_Inl by blast
  then have "INT_MAX < mn + ((mx - mn) div step + 1) * step"
    using push_step_overflow_iff [OF pos] by blast
  moreover have "step \<le> INT_MAX"
    using parse_int_range [OF p] by simp
  ultimately have "mn = 1 \<and> step = INT_MAX"
    using step_overflow [OF pos _ assms(2-4)] by blast
  moreover have "t = ''*/'' @ drop 2 t"
    using t append_take_drop_id [of 2 t] by metis
  ultimately show ?thesis using p by blast
qed

lemma parse_all_overflow:
  assumes "parse_all ts mn mx = Inl u" "mn \<in> {0, 1}" "mn \<le> mx" "mx \<le> 59"
  shows "mn = 1 \<and> (\<exists>s. ''*/'' @ s \<in> set ts \<and> parse_int s = Some INT_MAX)"
  using assms(1)
proof (induction ts)
  case Nil
  then show ?case by simp
next
  case (Cons t ts)
  then have "parse_token t mn mx = Inl u \<or> parse_all ts mn mx = Inl u"
    by (auto simp: bind_ub_def split: sum.splits option.splits)
  then show ?case
    using Cons.IH parse_token_overflow [OF _ assms(2-4)] by auto
qed

lemma parse_field_overflow:
  assumes "parse_field f mn mx = Inl u" "mn \<in> {0, 1}" "mn \<le> mx" "mx \<le> 59"
  shows "mn = 1 \<and> (\<exists>s. ''*/'' @ s \<in> set (split_on CHR '','' f) \<and> parse_int s = Some INT_MAX)"
  using assms parse_all_overflow
  by (auto simp: parse_field_eq bind_ub_def split: sum.splits option.splits if_splits)

section \<open>The grammar of a field\<close>

text \<open>
  What the header comment of \<open>CronExpression\<close> promises: \<open>*\<close>, \<open>*/N\<close>, \<open>A-B\<close>, a
  number, and comma lists of those. An item has a text and a set of values.
\<close>

datatype cron_item = Star | Every nat | Range nat nat | Single nat

fun item_text :: "cron_item \<Rightarrow> string" where
  "item_text Star = ''*''"
| "item_text (Every n) = ''*/'' @ show_nat n"
| "item_text (Range a b) = show_nat a @ CHR ''-'' # show_nat b"
| "item_text (Single v) = show_nat v"

fun item_set :: "int \<Rightarrow> int \<Rightarrow> cron_item \<Rightarrow> int set" where
  "item_set mn mx Star = {mn..mx}"
| "item_set mn mx (Every n) = {x. mn \<le> x \<and> x \<le> mx \<and> (x - mn) mod int n = 0}"
| "item_set mn mx (Range a b) = {max (int a) mn..min (int b) mx}"
| "item_set mn mx (Single v) = {int v}"

fun item_ok :: "int \<Rightarrow> int \<Rightarrow> cron_item \<Rightarrow> bool" where
  "item_ok mn mx Star \<longleftrightarrow> True"
| "item_ok mn mx (Every n) \<longleftrightarrow> 0 < n \<and> int n < INT_MAX"
| "item_ok mn mx (Range a b) \<longleftrightarrow> a \<le> b \<and> int b \<le> INT_MAX"
| "item_ok mn mx (Single v) \<longleftrightarrow> mn \<le> int v \<and> int v \<le> mx"

lemma find_char_show_nat [simp]: "\<not> is_dec c \<Longrightarrow> find_char c (show_nat n) = None"
  by (simp add: find_char_None_iff show_nat_not_in)

lemma show_nat_neq_star: "show_nat n \<noteq> CHR ''*'' # s" "CHR ''*'' # s \<noteq> show_nat n"
  using show_nat_not_in [of "CHR ''*''" n] by (metis list.set_intros(1) not_is_dec_star)+

lemma show_nat_append_neq_star: "show_nat n @ r \<noteq> CHR ''*'' # s"
  using show_nat_neq_star(1) by (metis append_eq_Cons_conv show_nat_neq_Nil)

lemma take2_show_nat_append: "take 2 (show_nat n @ r) \<noteq> ''*/''"
proof
  assume "take 2 (show_nat n @ r) = ''*/''"
  then have "show_nat n @ r = ''*/'' @ drop 2 (show_nat n @ r)"
    by (metis append_take_drop_id)
  then show False using show_nat_append_neq_star by simp
qed

lemma parse_token_item:
  assumes ok: "item_ok mn mx i" and mn: "mn \<in> {0, 1}" and le: "mn \<le> mx" "mx \<le> 59"
  shows "\<exists>vs. parse_token (item_text i) mn mx = Inr (Some vs) \<and> set vs = item_set mn mx i"
proof (cases i)
  case Star
  then show ?thesis by (simp add: parse_token_def)
next
  case (Every n)
  with ok have n: "0 < int n" "int n < INT_MAX" by simp_all
  have "push_step mn mx (int n) \<noteq> Inl Signed_overflow"
    using push_step_overflow_iff [OF n(1)] step_overflow [OF n(1) _ mn le] n(2) by auto
  then obtain vs where vs: "push_step mn mx (int n) = Inr vs"
    by (cases "push_step mn mx (int n)") (auto dest: push_step_Inl)
  have "parse_token (item_text i) mn mx = Inr (Some vs)"
    using Every n vs by (simp add: parse_token_def parse_int_show_nat)
  then show ?thesis using push_step_set [OF vs n(1)] Every by simp
next
  case (Range a b)
  with ok have ab: "int a \<le> int b" "int b \<le> INT_MAX" by simp_all
  have "find_char CHR ''-'' (item_text i) = Some (length (show_nat a))"
    using Range by (simp add: find_char_append show_nat_not_in)
  moreover have "take (length (show_nat a)) (show_nat a @ r) = show_nat a" for r
    by simp
  ultimately have "parse_token (item_text i) mn mx = Inr (Some [max (int a) mn..min (int b) mx])"
    using Range ab
    by (simp add: parse_token_def parse_int_show_nat show_nat_append_neq_star
        take2_show_nat_append del: take_append)
  then show ?thesis using Range by simp
next
  case (Single v)
  with ok le have v: "int v \<le> INT_MAX" by (simp add: INT_MAX_def)
  have "parse_token (item_text i) mn mx = Inr (Some [int v])"
    using Single ok v take2_show_nat_append [of v "[]"]
    by (simp add: parse_token_def parse_int_show_nat show_nat_neq_star)
  then show ?thesis using Single by simp
qed

lemma item_text_no_comma: "CHR '','' \<notin> set (item_text i)"
  by (cases i) (simp_all add: show_nat_not_in)

lemma item_text_no_blank: "CHR '' '' \<notin> set (item_text i)"
  by (cases i) (simp_all add: show_nat_not_in)

lemma parse_all_items:
  assumes "mn \<in> {0, 1}" "mn \<le> mx" "mx \<le> 59"
  shows "\<forall>i \<in> set is. item_ok mn mx i \<Longrightarrow>
    \<exists>vs. parse_all (map item_text is) mn mx = Inr (Some vs) \<and> set vs = (\<Union>i \<in> set is. item_set mn mx i)"
proof (induction "is")
  case Nil
  then show ?case by simp
next
  case (Cons i "is")
  then obtain us ws where "parse_token (item_text i) mn mx = Inr (Some us)"
      and "set us = item_set mn mx i"
      and "parse_all (map item_text is) mn mx = Inr (Some ws)"
      and "set ws = (\<Union>i \<in> set is. item_set mn mx i)"
    using parse_token_item [OF _ assms, of i] by auto
  then show ?case by simp
qed

lemma parse_field_items:
  assumes mn: "mn \<in> {0, 1}" "mn \<le> mx" "mx \<le> 59"
    and ok: "\<forall>i \<in> set is. item_ok mn mx i"
    and ne: "(\<Union>i \<in> set is. item_set mn mx i) \<noteq> {}"
  shows "parse_field (join_on CHR '','' (map item_text is)) mn mx =
    Inr (Some (sorted_list_of_set (\<Union>i \<in> set is. item_set mn mx i)))"
proof -
  obtain vs where vs: "parse_all (map item_text is) mn mx = Inr (Some vs)"
      "set vs = (\<Union>i \<in> set is. item_set mn mx i)"
    using parse_all_items [OF mn ok] by blast
  have "map item_text is \<noteq> []" using ne by auto
  then have "split_on CHR '','' (join_on CHR '','' (map item_text is)) = map item_text is"
    by (intro split_on_join_on) (auto simp: item_text_no_comma)
  then show ?thesis
    using vs ne by (auto simp: parse_field_eq)
qed

section \<open>Splitting an expression\<close>

lemma split_fields_skip: "split_fields (CHR '' '' # s) = split_fields s"
  by (simp add: split_fields.simps [of "CHR '' '' # s"] split_fields.simps [of s])

lemma split_fields_Nil [simp]: "split_fields [] = []"
  by (simp add: split_fields.simps)

lemma split_fields_word:
  assumes "w \<noteq> []" "CHR '' '' \<notin> set w"
  shows "split_fields (w @ CHR '' '' # s) = w # split_fields s"
    and "split_fields w = [w]"
proof -
  obtain c cs where w: "w = c # cs" and c: "c \<noteq> CHR '' ''"
    using assms by (cases w) auto
  have d: "dropWhile (\<lambda>c. c = CHR '' '') (w @ t) = w @ t" for t
    using w c by simp
  have a: "\<forall>c \<in> set w. c \<noteq> CHR '' ''" using assms by auto
  have tk: "takeWhile (\<lambda>c. c \<noteq> CHR '' '') (w @ CHR '' '' # s) = w"
    "dropWhile (\<lambda>c. c \<noteq> CHR '' '') (w @ CHR '' '' # s) = CHR '' '' # s"
    using a by (simp_all add: takeWhile_append2 dropWhile_append2)
  show "split_fields (w @ CHR '' '' # s) = w # split_fields s"
    using d [of "CHR '' '' # s"] tk
    by (subst split_fields.simps) (simp add: split_fields_skip)
  have e: "takeWhile (\<lambda>c. c \<noteq> CHR '' '') w = w" "dropWhile (\<lambda>c. c \<noteq> CHR '' '') w = []"
    using a by simp_all
  show "split_fields w = [w]"
    using d [of "[]"] assms(1) by (subst split_fields.simps) (simp add: Let_def e)
qed

lemma split_fields_join:
  "\<forall>w \<in> set ws. w \<noteq> [] \<and> CHR '' '' \<notin> set w \<Longrightarrow> split_fields (join_on CHR '' '' ws) = ws"
  by (induction "CHR '' ''" ws rule: join_on.induct) (auto simp: split_fields_word)

section \<open>Properties of cron expressions\<close>

definition field_text :: "cron_item list \<Rightarrow> string" where
  "field_text is = join_on CHR '','' (map item_text is)"

definition items_ok :: "int \<Rightarrow> int \<Rightarrow> cron_item list \<Rightarrow> bool" where
  "items_ok mn mx is \<longleftrightarrow>
     (\<forall>i \<in> set is. item_ok mn mx i) \<and> (\<Union>i \<in> set is. item_set mn mx i) \<noteq> {}"

definition items_values :: "int \<Rightarrow> int \<Rightarrow> cron_item list \<Rightarrow> int list" where
  "items_values mn mx is = sorted_list_of_set (\<Union>i \<in> set is. item_set mn mx i)"

lemma field_text_word:
  assumes "items_ok mn mx is"
  shows "field_text is \<noteq> [] \<and> CHR '' '' \<notin> set (field_text is)"
proof -
  have ne: "is \<noteq> []" using assms by (auto simp: items_ok_def)
  have item: "item_text i \<noteq> []" for i by (cases i) simp_all
  have "set (join_on c ps) \<subseteq> insert c (\<Union>p \<in> set ps. set p)" for c and ps :: "string list"
    by (induction c ps rule: join_on.induct) auto
  then have "CHR '' '' \<notin> set (field_text is)"
    using item_text_no_blank by (fastforce simp: field_text_def)
  moreover have "join_on c (map item_text is) \<noteq> []" for c
    using ne item by (cases "is" rule: remdups_adj.cases) simp_all
  ultimately show ?thesis by (simp add: field_text_def)
qed

lemma parse_field_text:
  assumes "items_ok mn mx is" "mn \<in> {0, 1}" "mn \<le> mx" "mx \<le> 59"
  shows "parse_field (field_text is) mn mx = Inr (Some (items_values mn mx is))"
  using parse_field_items [OF assms(2-4)] assms(1)
  by (simp add: field_text_def items_ok_def items_values_def)

text \<open>
  C20: an expression written in the documented grammar parses, and each field is the sorted
  list, without duplicates, of the values its comma list denotes.
\<close>
theorem parse_documented_grammar:
  assumes "items_ok 0 59 mi" "items_ok 0 23 ho" "items_ok 1 31 da" "items_ok 1 12 mo"
    "items_ok 0 6 we"
  shows "parse (join_on CHR '' '' (map field_text [mi, ho, da, mo, we])) =
    Inr (Some \<lparr>m_minutes = items_values 0 59 mi, m_hours = items_values 0 23 ho,
               m_days = items_values 1 31 da, m_months = items_values 1 12 mo,
               m_weekdays = items_values 0 6 we\<rparr>)"
proof -
  have "split_fields (join_on CHR '' '' (map field_text [mi, ho, da, mo, we])) =
      map field_text [mi, ho, da, mo, we]"
    using assms by (intro split_fields_join) (auto dest: field_text_word)
  then show ?thesis
    using assms by (simp add: parse_def parse_field_text)
qed

lemma items_ok_Star: "mn \<le> mx \<Longrightarrow> items_ok mn mx [Star]"
  by (simp add: items_ok_def)

theorem parse_documented_grammar_witness:
  "parse (join_on CHR '' '' (map field_text [[Every 15], [Single 9, Range 17 18], [Star], [Star], [Range 1 5]])) =
    Inr (Some \<lparr>m_minutes = items_values 0 59 [Every 15],
               m_hours = items_values 0 23 [Single 9, Range 17 18],
               m_days = items_values 1 31 [Star], m_months = items_values 1 12 [Star],
               m_weekdays = items_values 0 6 [Range 1 5]\<rparr>)"
  by (rule parse_documented_grammar) (auto simp: items_ok_def INT_MAX_def intro: exI [of _ 15])

text \<open>
  C29: whatever the text, a parse that succeeds gives every field as a non-empty, strictly
  increasing list within the range of its position.
\<close>
theorem parse_well_formed:
  assumes "parse expr = Inr (Some e)"
  shows "cron_wf e"
  using assms by (rule parse_cron_wf)

lemma parse_daily:
  "parse ''0 9 * * 1-5'' =
     Inr (Some \<lparr>m_minutes = [0], m_hours = [9], m_days = [1..31], m_months = [1..12],
                m_weekdays = [1..5]\<rparr>)"
  by code_simp

theorem parse_well_formed_witness:
  "cron_wf \<lparr>m_minutes = [0], m_hours = [9], m_days = [1..31], m_months = [1..12],
             m_weekdays = [1..5]\<rparr>"
  by (rule parse_well_formed) (rule parse_daily)

text \<open>
  C26: the only inputs on which parsing has undefined behaviour are expressions with the step
  2147483647 in the day or the month field; no other text overflows.
\<close>
theorem parse_overflow_only_max_step:
  assumes "parse expr = Inl u"
  shows "\<exists>f s. (f = split_fields expr ! 2 \<or> f = split_fields expr ! 3) \<and>
    ''*/'' @ s \<in> set (split_on CHR '','' f) \<and> parse_int s = Some INT_MAX"
proof -
  obtain f0 f1 f2 f3 f4 where f: "split_fields expr = [f0, f1, f2, f3, f4]"
    and ov: "parse_field f0 0 59 = Inl u \<or> parse_field f1 0 23 = Inl u \<or>
      parse_field f2 1 31 = Inl u \<or> parse_field f3 1 12 = Inl u \<or> parse_field f4 0 6 = Inl u"
    using assms
    by (auto simp: parse_def bind_ub_def split: list.splits sum.splits option.splits)
  have "parse_field f2 1 31 = Inl u \<or> parse_field f3 1 12 = Inl u"
    using ov parse_field_overflow [of f0 0 59] parse_field_overflow [of f1 0 23]
      parse_field_overflow [of f4 0 6] by auto
  then show ?thesis
    using f parse_field_overflow [of f2 1 31] parse_field_overflow [of f3 1 12] by auto
qed

lemma parse_max_step: "parse ''* * */2147483647 * *'' = Inl Signed_overflow"
  by code_simp

theorem parse_overflow_only_max_step_witness:
  "\<exists>f s. (f = split_fields ''* * */2147483647 * *'' ! 2 \<or> f = split_fields ''* * */2147483647 * *'' ! 3) \<and>
    ''*/'' @ s \<in> set (split_on CHR '','' f) \<and> parse_int s = Some INT_MAX"
  by (rule parse_overflow_only_max_step) (rule parse_max_step)

section \<open>Properties of the search\<close>

lemma ns_minute_pos [simp]: "0 < ns_per_minute"
  by (simp add: ns_defs)

lemma after_iff_minute:
  "base div ns_per_minute + 1 \<le> u \<longleftrightarrow> base < u * ns_per_minute"
  unfolding ns_defs by (rule iffI; linarith)

text \<open>
  C23: \<open>next_after\<close> returns exactly the least whole minute strictly after the base, within
  the horizon, at which all five fields match.
\<close>
theorem next_after_least_match:
  "next_after e base = Some t \<longleftrightarrow>
     base < t \<and> t mod ns_per_minute = 0 \<and>
     t < (base div ns_per_minute + 1 + horizon) * ns_per_minute \<and> matches e t \<and>
     (\<forall>u. base < u \<and> u < t \<and> u mod ns_per_minute = 0 \<longrightarrow> \<not> matches e u)"
proof -
  let ?M = ns_per_minute
  have mult: "u mod ?M = 0 \<longleftrightarrow> (\<exists>c. u = c * ?M)" for u
    by (auto simp: mod_eq_0_iff_dvd dvd_def mult.commute)
  have lt: "c * ?M < d * ?M \<longleftrightarrow> c < d" for c d by simp
  have "next_after e base = Some t \<longleftrightarrow>
      (\<exists>c. t = c * ?M \<and> base div ?M + 1 \<le> c \<and> c < base div ?M + 1 + horizon \<and>
        matches e (c * ?M) \<and>
        (\<forall>u. base div ?M + 1 \<le> u \<and> u < c \<longrightarrow> \<not> matches e (u * ?M)))"
    by (auto simp: next_after_def Let_def next_search_Some_iff)
  also have "\<dots> \<longleftrightarrow> (\<exists>c. t = c * ?M \<and> base < c * ?M \<and>
      c * ?M < (base div ?M + 1 + horizon) * ?M \<and> matches e (c * ?M) \<and>
        (\<forall>u. base < u * ?M \<and> u * ?M < c * ?M \<longrightarrow> \<not> matches e (u * ?M)))"
    unfolding lt after_iff_minute ..
  also have "\<dots> \<longleftrightarrow> base < t \<and> t mod ?M = 0 \<and> t < (base div ?M + 1 + horizon) * ?M \<and>
      matches e t \<and> (\<forall>u. base < u \<and> u < t \<and> u mod ?M = 0 \<longrightarrow> \<not> matches e u)"
    unfolding mult by blast
  finally show ?thesis .
qed

definition quarterly :: CronExpression where
  "quarterly = \<lparr>m_minutes = [0, 15, 30, 45], m_hours = [0..23], m_days = [1..31],
                m_months = [1..12], m_weekdays = [0..6]\<rparr>"

lemma next_after_quarterly: "next_after quarterly 780000000000 = Some 900000000000"
proof -
  have m: "matches quarterly 900000000000" "\<not> matches quarterly 840000000000" by code_simp+
  then have "next_search quarterly 14 (14 + horizon) = Some 15"
    by (simp add: next_search.simps [of _ 14] next_search.simps [of _ 15] horizon_def ns_defs)
  then show ?thesis by (simp add: next_after_def ns_defs)
qed

theorem next_after_least_match_witness:
  "next_after quarterly 780000000000 = Some 900000000000 \<and> matches quarterly 900000000000 \<and>
   \<not> matches quarterly 840000000000"
  using next_after_least_match [of quarterly 780000000000 900000000000] next_after_quarterly
  by (simp add: ns_per_minute_def)

lemma matches_at:
  assumes "0 \<le> h" "h < 24" "0 \<le> mi" "mi < 60" "civil_from_days D = (y, m, d)"
  shows "matches e (D * ns_per_day + h * ns_per_hour + mi * ns_per_minute) \<longleftrightarrow>
    mi \<in> set (m_minutes e) \<and> h \<in> set (m_hours e) \<and> d \<in> set (m_days e) \<and>
    m \<in> set (m_months e) \<and> weekday_from_days D \<in> set (m_weekdays e)"
proof -
  have "(D * ns_per_day + h * ns_per_hour + mi * ns_per_minute) div ns_per_day = D"
    using assms by (simp add: ns_defs)
  moreover have "(h * ns_per_hour + mi * ns_per_minute) div ns_per_hour = h"
    "(h * ns_per_hour + mi * ns_per_minute) mod ns_per_hour = mi * ns_per_minute"
    using assms by (simp_all add: ns_defs)
  ultimately show ?thesis using assms(5) by (simp add: matches_def Let_def ns_defs)
qed

lemma next_after_before:
  assumes "matches e t" "t mod ns_per_minute = 0" "base < t"
    "t < (base div ns_per_minute + 1 + horizon) * ns_per_minute"
  shows "\<exists>t'. next_after e base = Some t' \<and> base < t' \<and> t' \<le> t"
proof -
  obtain c where c: "t = c * ns_per_minute" using assms(2) by (metis dvdE mod_eq_0_iff_dvd mult.commute)
  let ?b = "base div ns_per_minute + 1"
  have range: "?b \<le> c" "c < ?b + horizon"
    using assms(3,4) c after_iff_minute by simp_all
  have "next_search e ?b (?b + horizon) \<noteq> None"
    using assms(1) c range by (simp only: next_search_None_iff) blast
  then obtain d where d: "next_search e ?b (?b + horizon) = Some d" by blast
  have "?b \<le> d" "d \<le> c"
    using d range assms(1) c by (simp_all only: next_search_Some_iff) (meson not_le)+
  then show ?thesis using d c by (auto simp: next_after_def after_iff_minute)
qed

text \<open>
  C24: a schedule whose day and month fields are unrestricted always has a next run, at most
  eight days after the base, whatever its minute, hour and weekday fields.
\<close>
theorem next_after_weekly_live:
  assumes wf: "cron_wf e" and "set (m_days e) = {1..31}" and "set (m_months e) = {1..12}"
  shows "\<exists>t. next_after e base = Some t \<and> base < t \<and> t \<le> base + 8 * ns_per_day"
proof -
  obtain mi h w where mem: "mi \<in> set (m_minutes e)" "h \<in> set (m_hours e)" "w \<in> set (m_weekdays e)"
    and rng: "0 \<le> mi" "mi < 60" "0 \<le> h" "h < 24" "0 \<le> w" "w \<le> 6"
    using wf by (fastforce simp: cron_wf_def field_wf_def neq_Nil_conv)
  define B where "B = base div ns_per_day"
  define D where "D = B + 1 + (w - (B + 5)) mod 7"
  have D: "B + 1 \<le> D" "D \<le> B + 7" by (simp_all add: D_def)
  have "(D + 4) mod 7 = (B + 5 + (w - (B + 5)) mod 7) mod 7" by (simp add: D_def algebra_simps)
  also have "\<dots> = w" using rng by (simp only: mod_add_right_eq) simp
  finally have "weekday_from_days D = w" by (simp only: weekday_from_days_def)
  obtain y m d where civ: "civil_from_days D = (y, m, d)" by (rule prod_cases3)
  define t where "t = D * ns_per_day + h * ns_per_hour + mi * ns_per_minute"
  have "matches e t"
    unfolding t_def using matches_at [OF rng(3,4,1,2) civ] mem assms(2,3) civil_bounds [OF civ]
      \<open>weekday_from_days D = w\<close> by simp
  moreover have "t mod ns_per_minute = 0" by (simp add: t_def ns_defs mod_eq_0_iff_dvd)
  moreover have b: "B * ns_per_day \<le> base" "base < B * ns_per_day + ns_per_day"
    by (simp_all add: B_def ns_defs)
  then have t: "base < t" "t \<le> base + 8 * ns_per_day" using D rng by (simp_all add: t_def ns_defs)
  moreover have "base < (base div ns_per_minute + 1) * ns_per_minute"
    using after_iff_minute by blast
  then have "t < (base div ns_per_minute + 1 + horizon) * ns_per_minute"
    using t by (simp add: ns_defs horizon_def algebra_simps)
  ultimately show ?thesis using next_after_before by (meson order_trans)
qed

theorem next_after_weekly_live_witness:
  "\<exists>t. next_after quarterly 5 = Some t \<and> 5 < t \<and> t \<le> 5 + 8 * ns_per_day"
  by (rule next_after_weekly_live) (auto simp: quarterly_def cron_wf_def field_wf_def)

text \<open>
  A date that no month has (30 or 31 February) is never found: the search gives up at the
  horizon with no result instead of running on.
\<close>
lemma next_after_impossible_date:
  assumes "set (m_months e) \<subseteq> {2}" "set (m_days e) \<subseteq> {30, 31}"
  shows "next_after e base = None"
proof -
  have "\<not> matches e t" for t
  proof -
    obtain y m d where civ: "civil_from_days (t div ns_per_day) = (y, m, d)" by (rule prod_cases3)
    moreover have "m \<noteq> 2 \<or> d \<notin> {30, 31}" using civil_bounds(5) [OF civ] by auto
    ultimately show ?thesis using assms by (auto simp: matches_def Let_def)
  qed
  then show ?thesis by (simp add: next_after_def Let_def next_search_None_iff)
qed

lemma parse_feb30:
  "parse ''0 0 30 2 *'' = Inr (Some \<lparr>m_minutes = [0], m_hours = [0], m_days = [30], m_months = [2], m_weekdays = [0..6]\<rparr>)"
  by code_simp

lemma next_after_impossible_date_witness:
  "next_after \<lparr>m_minutes = [0], m_hours = [0], m_days = [30], m_months = [2], m_weekdays = [0..6]\<rparr> 0 = None"
  by (rule next_after_impossible_date) simp_all

text \<open>
  The four-year horizon does not cover every lone 29 February: from 1 March 2096 the next one
  is 29 February 2104, because 2100 is not a leap year.
\<close>

lemma horizon_misses_feb29_2104:
  "\<exists>e. parse ''0 0 29 2 *'' = Inr (Some e) \<and>
     next_after e (days_from_civil 2096 3 1 * ns_per_day) = None \<and>
     matches e (days_from_civil 2104 2 29 * ns_per_day)"
proof -
  let ?e = "\<lparr>m_minutes = [0], m_hours = [0], m_days = [29], m_months = [2], m_weekdays = [0..6]\<rparr>"
  have p: "parse ''0 0 29 2 *'' = Inr (Some ?e)" by code_simp
  have m: "matches ?e (days_from_civil 2104 2 29 * ns_per_day)" by code_simp
  have base: "days_from_civil 2096 3 1 = 46081" by code_simp
  have "\<not> matches ?e (u * ns_per_minute)"
    if u: "46081 * 1440 < u" "u < 46081 * 1440 + 1 + horizon" for u
  proof
    define D where "D = u * ns_per_minute div ns_per_day"
    obtain y m d where civ: "civil_from_days D = (y, m, d)" by (rule prod_cases3)
    assume "matches ?e (u * ns_per_minute)"
    then have "civil_from_days D = (y, 2, 29)" using civ by (simp add: matches_def D_def Let_def)
    then obtain era c q where f: "D + 719468 = era * 146097 + c * 36524 + q * 1461 + 1460"
      "0 \<le> c" "c \<le> 3" "0 \<le> q" "q \<le> 24" "q < 24 \<or> c = 3"
      by (rule feb29_day)
    have D: "46081 \<le> D" "D \<le> 46081 + 1464"
      using u by (simp_all add: D_def ns_defs horizon_def)
    have "era = 5" using f(1-5) D by linarith
    moreover from this have "c = 0" using f(1-5) D by linarith
    ultimately have "23 < q" using f(1-5) D by linarith
    with \<open>c = 0\<close> show False using f(6) by simp
  qed
  then have "next_after ?e (46081 * ns_per_day) = None"
    by (simp add: next_after_def Let_def next_search_None_iff ns_defs)
  with p m base show ?thesis by auto
qed

end
