(* ===== verification/Cron.thy ===== *)
theory Cron
  imports CronExpr
begin

text \<open>
  The local cron backend: \<open>LocalCron\<close>, \<open>CronTickHandler\<close> and \<open>CronLocalPlugin\<close> of
  plugins/cron/local/bin/local_cron.cc, the interface \<open>ICron\<close> of include/interfaces/cron.cppm
  as a locale, and its client \<open>ScheduleHandler::next_few_runs\<close> of
  plugins/manager/engine/src/handler/schedule.cppm. Every operation runs under the one mutex of
  the backend, so a run is a sequence of whole operations; the clock reading of an operation is
  an argument.
\<close>

section \<open>The job registry\<close>

record Job =
  expr :: CronExpression
  last_fired :: time

text \<open>
  \<open>m_jobs\<close> is an association list in the iteration order of the \<open>unordered_map\<close>;
  \<open>m_fire\<close> says whether a callback is installed. Firing is the list of names passed to it.
\<close>

record LocalCron =
  m_jobs :: "(string \<times> Job) list"
  m_fire :: bool

definition init_cron :: LocalCron where
  "init_cron = \<lparr>m_jobs = [], m_fire = False\<rparr>"

definition validate :: "string \<Rightarrow> bool may_ub" where
  "validate cron_expression = map_sum id (\<lambda>p. p \<noteq> None) (parse cron_expression)"

definition cron_next_after :: "string \<Rightarrow> time \<Rightarrow> time option may_ub" where
  "cron_next_after cron_expression base =
     map_sum id (\<lambda>p. case p of None \<Rightarrow> None | Some e \<Rightarrow> next_after e base) (parse cron_expression)"

definition set_fire_callback :: "bool \<Rightarrow> LocalCron \<Rightarrow> LocalCron" where
  "set_fire_callback callback c = c\<lparr>m_fire := callback\<rparr>"

definition upsert_job :: "time \<Rightarrow> string \<Rightarrow> string \<Rightarrow> LocalCron \<Rightarrow> (LocalCron \<times> effects) may_ub" where
  "upsert_job now name cron_expression c =
     bind_ub (parse cron_expression) (\<lambda>parsed.
       case parsed of
         None \<Rightarrow> Inr (c, [Log WARNING ''cron.local''])
       | Some e \<Rightarrow>
           (case map_of (m_jobs c) name of
              Some job \<Rightarrow> Inr (c\<lparr>m_jobs := AList.update name (job\<lparr>expr := e\<rparr>) (m_jobs c)\<rparr>, [])
            | None \<Rightarrow>
                Inr (c\<lparr>m_jobs := m_jobs c @ [(name, \<lparr>expr = e, last_fired = now - ns_per_minute\<rparr>)]\<rparr>,
                     [])))"

definition remove_job :: "string \<Rightarrow> LocalCron \<Rightarrow> LocalCron" where
  "remove_job name c = c\<lparr>m_jobs := AList.delete name (m_jobs c)\<rparr>"

definition due :: "time \<Rightarrow> Job \<Rightarrow> bool" where
  "due now job = (case next_after (expr job) (last_fired job) of None \<Rightarrow> False | Some t \<Rightarrow> t \<le> now)"

fun tick_jobs :: "time \<Rightarrow> (string \<times> Job) list \<Rightarrow> (string \<times> Job) list \<times> string list" where
  "tick_jobs now [] = ([], [])"
| "tick_jobs now ((name, job) # js) =
     (let (js', fired) = tick_jobs now js
      in if due now job then ((name, job\<lparr>last_fired := now\<rparr>) # js', name # fired)
         else ((name, job) # js', fired))"

definition tick :: "time \<Rightarrow> LocalCron \<Rightarrow> LocalCron \<times> string list" where
  "tick now c =
     (if \<not> m_fire c then (c, [])
      else let (js, fired) = tick_jobs now (m_jobs c) in (c\<lparr>m_jobs := js\<rparr>, fired))"

text \<open>
  The tick contract: one sweep, a sleep of one second, then the handler schedules itself again;
  the last component is the earliest time of the next sweep.
\<close>

definition on_execute :: "time \<Rightarrow> LocalCron \<Rightarrow> LocalCron \<times> string list \<times> time" where
  "on_execute now c = (let (c', fired) = tick now c in (c', fired, now + 1000000000))"

text \<open>
  \<open>CronLocalPlugin::on_load\<close>: the tick is registered only if the host hands over both the
  contract group and the contract registry; the first component says whether it was added.
\<close>

definition cron_on_load :: "bool \<Rightarrow> bool \<Rightarrow> bool \<times> effects" where
  "cron_on_load contract_group contract_registry =
     (if \<not> contract_group \<or> \<not> contract_registry then (False, [Log ERROR ''cron.local''])
      else (True, [Log IMPORTANT ''cron.local'']))"

section \<open>Runs of the backend\<close>

datatype cron_op =
    Set_fire bool
  | Upsert string string
  | Remove string
  | Tick

fun cron_step :: "time \<Rightarrow> cron_op \<Rightarrow> LocalCron \<Rightarrow> (LocalCron \<times> string list) may_ub" where
  "cron_step now (Set_fire b) c = Inr (set_fire_callback b c, [])"
| "cron_step now (Upsert name e) c = map_sum id (\<lambda>(c', _). (c', [])) (upsert_job now name e c)"
| "cron_step now (Remove name) c = Inr (remove_job name c, [])"
| "cron_step now Tick c = Inr (tick now c)"

text \<open>
  A run: timed operations from a state to a state, with the log of the fires. The clock of an
  operation is never before the one of the operation that precedes it.
\<close>

inductive cron_run ::
  "time \<Rightarrow> LocalCron \<Rightarrow> (time \<times> cron_op) list \<Rightarrow> (time \<times> string) list \<Rightarrow> LocalCron \<Rightarrow> bool" where
  run_Nil: "cron_run t0 c [] [] c"
| run_Cons: "t0 \<le> now \<Longrightarrow> cron_step now op c = Inr (c', fired) \<Longrightarrow> cron_run now c' ops fires c'' \<Longrightarrow>
     cron_run t0 c ((now, op) # ops) (map (Pair now) fired @ fires) c''"

inductive_simps cron_run_simps:
  "cron_run t0 c [] fires c'"
  "cron_run t0 c ((now, op) # ops) fires c'"

section \<open>One sweep\<close>

lemma tick_jobs_map_of:
  "map_of (fst (tick_jobs now js)) n =
     map_option (\<lambda>j. if due now j then j\<lparr>last_fired := now\<rparr> else j) (map_of js n)"
  by (induction now js rule: tick_jobs.induct) (auto simp: Let_def split: prod.splits)

lemma tick_jobs_keys: "map fst (fst (tick_jobs now js)) = map fst js"
  by (induction now js rule: tick_jobs.induct) (auto simp: Let_def split: prod.splits)

lemma tick_jobs_fired: "snd (tick_jobs now js) = map fst (filter (\<lambda>(_, j). due now j) js)"
  by (induction now js rule: tick_jobs.induct) (auto simp: Let_def split: prod.splits)

lemma tick_simps:
  "m_fire (fst (tick now c)) = m_fire c"
  "snd (tick now c) = (if m_fire c then map fst (filter (\<lambda>(_, j). due now j) (m_jobs c)) else [])"
  "map fst (m_jobs (fst (tick now c))) = map fst (m_jobs c)"
  "map_of (m_jobs (fst (tick now c))) n =
     (if m_fire c then map_option (\<lambda>j. if due now j then j\<lparr>last_fired := now\<rparr> else j) (map_of (m_jobs c) n)
      else map_of (m_jobs c) n)"
  using tick_jobs_keys [of now "m_jobs c"] tick_jobs_fired [of now "m_jobs c"]
    tick_jobs_map_of [of now "m_jobs c" n]
  by (auto simp: tick_def split: prod.splits)

lemma tick_fires_iff:
  assumes "distinct (map fst (m_jobs c))"
  shows "n \<in> set (snd (tick now c)) \<longleftrightarrow>
    m_fire c \<and> (\<exists>j. map_of (m_jobs c) n = Some j \<and> due now j)"
  using assms by (force simp: tick_simps(2))

lemma tick_fired_distinct:
  assumes "distinct (map fst (m_jobs c))"
  shows "distinct (snd (tick now c))"
proof -
  have "distinct (map fst (filter P js))" if "distinct (map fst js)" for P and js :: "(string \<times> Job) list"
    using that by (induction js) auto
  then show ?thesis using assms by (simp add: tick_simps(2))
qed

section \<open>The registry invariant\<close>

definition cron_inv :: "time \<Rightarrow> LocalCron \<Rightarrow> bool" where
  "cron_inv now c \<longleftrightarrow>
     distinct (map fst (m_jobs c)) \<and>
     (\<forall>n j. map_of (m_jobs c) n = Some j \<longrightarrow> cron_wf (expr j) \<and> last_fired j \<le> now)"

lemma cron_inv_mono: "cron_inv now c \<Longrightarrow> now \<le> now' \<Longrightarrow> cron_inv now' c"
  by (fastforce simp: cron_inv_def)

lemma upsert_job_cases:
  assumes "upsert_job now name e c = Inr (c', eff)"
  obtains (invalid) "parse e = Inr None" "c' = c" "eff = [Log WARNING ''cron.local'']"
  | (update) p j where "parse e = Inr (Some p)" "map_of (m_jobs c) name = Some j"
      "c' = c\<lparr>m_jobs := AList.update name (j\<lparr>expr := p\<rparr>) (m_jobs c)\<rparr>" "eff = []"
  | (insert) p where "parse e = Inr (Some p)" "map_of (m_jobs c) name = None"
      "c' = c\<lparr>m_jobs := m_jobs c @ [(name, \<lparr>expr = p, last_fired = now - ns_per_minute\<rparr>)]\<rparr>" "eff = []"
  using assms
  by (auto simp: upsert_job_def bind_ub_def split: sum.splits option.splits)

lemma upsert_job_map_of:
  assumes "upsert_job now name e c = Inr (c', eff)" "n \<noteq> name"
  shows "map_of (m_jobs c') n = map_of (m_jobs c) n"
  using assms(1) by (cases rule: upsert_job_cases) (use assms(2) in \<open>auto simp: update_conv' map_add_def split: option.splits\<close>)

lemma cron_inv_upsert:
  assumes inv: "cron_inv now c" and up: "upsert_job now name e c = Inr (c', eff)"
  shows "cron_inv now c'"
  using up
proof (cases rule: upsert_job_cases)
  case invalid
  then show ?thesis using inv by simp
next
  case (update p j)
  then show ?thesis
    using inv parse_cron_wf [OF update(1)]
    by (auto simp: cron_inv_def update_conv' distinct_update)
next
  case (insert p)
  then have "name \<notin> fst ` set (m_jobs c)" by (simp add: map_of_eq_None_iff)
  then show ?thesis
    using inv insert parse_cron_wf [OF insert(1)] ns_minute_pos
    by (auto simp: cron_inv_def map_add_def less_imp_le split: option.splits if_splits)
qed

lemma cron_inv_tick:
  assumes inv: "cron_inv now c"
  shows "cron_inv now (fst (tick now c))"
  using inv by (auto simp: cron_inv_def tick_simps)

lemma cron_inv_remove: "cron_inv now c \<Longrightarrow> cron_inv now (remove_job name c)"
  by (auto simp: cron_inv_def remove_job_def delete_conv' distinct_delete split: if_splits)

lemma cron_step_inv:
  assumes "cron_inv now c" "cron_step now op c = Inr (c', fired)"
  shows "cron_inv now c'"
proof (cases op)
  case (Set_fire b)
  then show ?thesis using assms by (auto simp: set_fire_callback_def cron_inv_def)
next
  case (Upsert name e)
  then show ?thesis using assms cron_inv_upsert by (auto simp: map_sum_eq_Inr)
next
  case (Remove name)
  then show ?thesis using assms cron_inv_remove by auto
next
  case Tick
  then show ?thesis using assms cron_inv_tick [of now c] by auto
qed

section \<open>Properties of the backend\<close>

text \<open>
  Every operation keeps the registry well-formed: one job per name, every stored expression
  within the ranges of its fields, and no fire time later than the clock.
\<close>
lemma cron_run_keeps_registry:
  assumes "cron_run t0 c ops fires c'" "cron_inv t0 c"
  shows "\<exists>t1. t0 \<le> t1 \<and> cron_inv t1 c'"
  using assms
proof (induction rule: cron_run.induct)
  case (run_Nil t0 c)
  then show ?case by auto
next
  case (run_Cons t0 now op c c1 fired ops fires c2)
  have "cron_inv now c1"
    using cron_step_inv [OF cron_inv_mono [OF run_Cons.prems run_Cons.hyps(1)] run_Cons.hyps(2)] .
  then show ?case using run_Cons.IH run_Cons.hyps(1) order_trans by blast
qed

definition minutely :: CronExpression where
  "minutely = \<lparr>m_minutes = [0..59], m_hours = [0..23], m_days = [1..31], m_months = [1..12],
               m_weekdays = [0..6]\<rparr>"

lemma parse_minutely: "parse ''* * * * *'' = Inr (Some minutely)"
  unfolding minutely_def by code_simp

lemma matches_minutely: "matches minutely t"
proof -
  obtain y m d where civ: "civil_from_days (t div ns_per_day) = (y, m, d)" by (rule prod_cases3)
  define s where "s = t - t div ns_per_day * ns_per_day"
  have "s = t mod ns_per_day" unfolding s_def by (rule minus_div_mult_eq_mod)
  then have s: "0 \<le> s" "s < ns_per_day" by (simp_all add: ns_defs)
  have "0 \<le> s div ns_per_hour" "s div ns_per_hour \<le> 23" using s by (simp_all add: ns_defs)
  moreover have "0 \<le> r div ns_per_minute" "r div ns_per_minute \<le> 59"
    if "0 \<le> r" "r < ns_per_hour" for r using that by (simp_all add: ns_defs)
  then have "0 \<le> s mod ns_per_hour div ns_per_minute" "s mod ns_per_hour div ns_per_minute \<le> 59"
    by (simp_all add: ns_per_hour_def)
  moreover have "weekday_from_days z \<in> {0..6}" for z by (simp add: weekday_from_days_def)
  ultimately show ?thesis
    using civ civil_bounds [OF civ] by (simp add: matches_def minutely_def s_def [symmetric] Let_def)
qed

lemma next_after_minutely: "next_after minutely b = Some ((b div ns_per_minute + 1) * ns_per_minute)"
  by (subst next_after_def, subst next_search.simps) (simp add: matches_minutely horizon_def)

lemma cron_run_keeps_registry_witness:
  "\<exists>t1. (0::int) \<le> t1 \<and> cron_inv t1 \<lparr>m_jobs = [(''a'', \<lparr>expr = minutely, last_fired = 5\<rparr>)], m_fire = True\<rparr>"
proof (rule cron_run_keeps_registry)
  show "cron_run 0 init_cron [(0, Set_fire True), (5, Upsert ''a'' ''* * * * *''), (5, Tick)] [(5, ''a'')]
      \<lparr>m_jobs = [(''a'', \<lparr>expr = minutely, last_fired = 5\<rparr>)], m_fire = True\<rparr>"
    by (simp add: cron_run_simps init_cron_def set_fire_callback_def upsert_job_def parse_minutely
        tick_def due_def next_after_minutely ns_defs)
  show "cron_inv 0 init_cron" by (simp add: cron_inv_def init_cron_def)
qed

text \<open>
  C12: a sweep implements the map-level specification whatever the iteration order of the hash
  map: it fires exactly the due jobs, each once, stamps them with the current time and leaves
  every other job as it is.
\<close>
theorem tick_refines_spec:
  assumes "distinct (map fst (m_jobs c))" "m_fire c"
  shows "map_of (m_jobs (fst (tick now c))) =
      (\<lambda>n. map_option (\<lambda>j. if due now j then j\<lparr>last_fired := now\<rparr> else j) (map_of (m_jobs c) n)) \<and>
    set (snd (tick now c)) = {n. \<exists>j. map_of (m_jobs c) n = Some j \<and> due now j} \<and>
    distinct (snd (tick now c))"
  using assms tick_fires_iff [OF assms(1)] tick_fired_distinct [OF assms(1)]
  by (auto simp: tick_simps(4))

theorem tick_refines_spec_witness:
  "set (snd (tick 0 \<lparr>m_jobs = [(''a'', \<lparr>expr = minutely, last_fired = 0\<rparr>),
       (''b'', \<lparr>expr = minutely, last_fired = - ns_per_minute\<rparr>)], m_fire = True\<rparr>)) = {''b''}"
  using tick_refines_spec [of "\<lparr>m_jobs = [(''a'', \<lparr>expr = minutely, last_fired = 0\<rparr>),
       (''b'', \<lparr>expr = minutely, last_fired = - ns_per_minute\<rparr>)], m_fire = True\<rparr>" 0]
  by (auto simp: due_def next_after_minutely ns_defs split: if_splits)

lemma next_after_later_minute:
  assumes "next_after e b = Some t" "t \<le> now"
  shows "b div ns_per_minute < now div ns_per_minute"
proof -
  obtain c where c: "t = c * ns_per_minute" "b div ns_per_minute + 1 \<le> c"
    using assms(1) by (auto simp: next_after_def Let_def next_search_Some_iff)
  have "c \<le> now div ns_per_minute"
    using zdiv_mono1 [OF assms(2) ns_minute_pos] c(1) by (simp add: ns_defs)
  with c(2) show ?thesis by linarith
qed

lemma due_later_minute: "due now j \<Longrightarrow> last_fired j div ns_per_minute < now div ns_per_minute"
  by (auto simp: due_def next_after_later_minute split: option.splits)

text \<open>The minutes in which a name fires, in the order of a log of fires.\<close>

definition fire_minutes :: "string \<Rightarrow> (time \<times> string) list \<Rightarrow> int list" where
  "fire_minutes n fires = map (\<lambda>(t, _). t div ns_per_minute) (filter (\<lambda>(_, m). m = n) fires)"

lemma fire_minutes_append:
  "fire_minutes n (xs @ ys) = fire_minutes n xs @ fire_minutes n ys"
  by (simp add: fire_minutes_def)

lemma fire_minutes_tick:
  assumes "distinct ns"
  shows "fire_minutes n (map (Pair now) ns) = (if n \<in> set ns then [now div ns_per_minute] else [])"
  using assms by (induction ns) (auto simp: fire_minutes_def)

lemma cron_step_fired:
  "cron_step now op c = Inr (c', fired) \<Longrightarrow> fired = (if op = Tick then snd (tick now c) else [])"
  by (cases op) (auto simp: map_sum_eq_Inr)

lemma cron_step_last_fired:
  assumes "cron_step now op c = Inr (c', fired)" "map_of (m_jobs c) n = Some j" "op \<noteq> Remove n"
    "distinct (map fst (m_jobs c))"
  shows "\<exists>j'. map_of (m_jobs c') n = Some j' \<and>
    last_fired j' = (if n \<in> set fired then now else last_fired j)"
proof (cases op)
  case (Upsert name e)
  with assms obtain eff where up: "upsert_job now name e c = Inr (c', eff)" and "fired = []"
    by (auto simp: map_sum_eq_Inr)
  from up show ?thesis
    by (cases rule: upsert_job_cases) (use assms(1-3) \<open>fired = []\<close> in \<open>auto simp: update_conv'\<close>)
next
  case Tick
  then have c': "c' = fst (tick now c)" and f: "fired = snd (tick now c)" using assms(1) by auto
  show ?thesis
    unfolding c' f tick_fires_iff [OF assms(4)] using assms(2) by (auto simp: tick_simps(4))
qed (use assms in \<open>auto simp: set_fire_callback_def remove_job_def delete_conv'\<close>)

text \<open>
  C1: however often the sweep runs, and whatever is registered or updated in between, a job that
  is not removed fires at most once in a minute, in strictly later minutes each time.
\<close>
theorem fires_at_most_once_per_minute:
  assumes "cron_run t0 c ops fires c'" "cron_inv t0 c" "\<forall>(t, op) \<in> set ops. op \<noteq> Remove n"
  shows "sorted_wrt (<) (fire_minutes n fires) \<and>
    (\<forall>j. map_of (m_jobs c) n = Some j \<longrightarrow>
       (\<forall>m \<in> set (fire_minutes n fires). last_fired j div ns_per_minute < m))"
  using assms
proof (induction rule: cron_run.induct)
  case (run_Nil t0 c)
  then show ?case by (simp add: fire_minutes_def)
next
  case (run_Cons t0 now op c c1 fired ops fires c2)
  note step = run_Cons.hyps(2)
  have inv: "cron_inv now c" using run_Cons.prems(1) run_Cons.hyps(1) by (rule cron_inv_mono)
  then have dist: "distinct (map fst (m_jobs c))" by (simp add: cron_inv_def)
  have IH: "sorted_wrt (<) (fire_minutes n fires)"
    "map_of (m_jobs c1) n = Some j \<Longrightarrow> m \<in> set (fire_minutes n fires) \<Longrightarrow> last_fired j div ns_per_minute < m" for j m
    using run_Cons.IH [OF cron_step_inv [OF inv step]] run_Cons.prems(2) by auto
  have fm: "fire_minutes n (map (Pair now) fired @ fires) =
      (if n \<in> set fired then [now div ns_per_minute] else []) @ fire_minutes n fires"
    using cron_step_fired [OF step] tick_fired_distinct [OF dist]
    by (simp add: fire_minutes_append fire_minutes_tick)
  have job: "\<exists>j. map_of (m_jobs c) n = Some j \<and> due now j" if "n \<in> set fired"
    using that cron_step_fired [OF step] tick_fires_iff [OF dist] by (auto split: if_splits)
  have later: "\<exists>j'. map_of (m_jobs c1) n = Some j' \<and> last_fired j' = (if n \<in> set fired then now else last_fired j)"
    if "map_of (m_jobs c) n = Some j" for j
    using cron_step_last_fired [OF step that _ dist] run_Cons.prems(2) by auto
  show ?case
  proof (cases "n \<in> set fired")
    case True
    then obtain j where j: "map_of (m_jobs c) n = Some j" "due now j" using job by blast
    then have lt: "\<forall>m \<in> set (fire_minutes n fires). now div ns_per_minute < m"
      using later [OF j(1)] True IH(2) by auto
    then show ?thesis
      using fm True IH(1) j due_later_minute [OF j(2)] by (fastforce intro: less_trans)
  next
    case False
    then show ?thesis using fm IH later by fastforce
  qed
qed

theorem fires_at_most_once_per_minute_witness:
  "sorted_wrt (<) (fire_minutes ''a'' [(5, ''a''), (ns_per_minute, ''a'')])"
proof -
  have run: "cron_run 0 init_cron
      [(0, Set_fire True), (5, Upsert ''a'' ''* * * * *''), (5, Tick), (7, Tick), (ns_per_minute, Tick)]
      [(5, ''a''), (ns_per_minute, ''a'')]
      \<lparr>m_jobs = [(''a'', \<lparr>expr = minutely, last_fired = ns_per_minute\<rparr>)], m_fire = True\<rparr>"
    by (simp add: cron_run_simps init_cron_def set_fire_callback_def upsert_job_def parse_minutely
        tick_def due_def next_after_minutely ns_defs)
  show ?thesis
    using fires_at_most_once_per_minute [OF run, of "''a''"]
    by (simp add: cron_inv_def init_cron_def)
qed



text \<open>
  A job registered during the very minute its schedule matches fires at the next sweep, even
  though that minute began before the registration.
\<close>
lemma upsert_fires_in_its_minute:
  assumes up: "upsert_job now n e c = Inr (c', eff)" and "parse e = Inr (Some p)"
    and fresh: "map_of (m_jobs c) n = None" and dist: "distinct (map fst (m_jobs c))"
    and "m_fire c" and m: "matches p (now div ns_per_minute * ns_per_minute)" and "now \<le> now'"
  shows "n \<in> set (snd (tick now' c'))"
proof -
  let ?j = "\<lparr>expr = p, last_fired = now - ns_per_minute\<rparr>"
  have c': "c' = c\<lparr>m_jobs := m_jobs c @ [(n, ?j)]\<rparr>"
    using up assms(2) fresh by (cases rule: upsert_job_cases) auto
  have base: "(now - ns_per_minute) div ns_per_minute + 1 = now div ns_per_minute"
    by (simp add: ns_defs)
  have "next_after p (now - ns_per_minute) = Some (now div ns_per_minute * ns_per_minute)"
    using m by (simp add: next_after_def base next_search.simps [of p "now div ns_per_minute"] horizon_def)
  moreover have "now div ns_per_minute * ns_per_minute \<le> now'"
    using \<open>now \<le> now'\<close> by (simp add: ns_defs)
  ultimately have "due now' ?j" by (simp add: due_def)
  then show ?thesis using c' \<open>m_fire c\<close> by (simp add: tick_simps(2))
qed

lemma upsert_fires_in_its_minute_witness:
  "''a'' \<in> set (snd (tick 7 \<lparr>m_jobs = [(''a'', \<lparr>expr = minutely, last_fired = 5 - ns_per_minute\<rparr>)], m_fire = True\<rparr>))"
  by (rule upsert_fires_in_its_minute [where now = 5 and n = "''a''" and e = "''* * * * *''"
        and c = "\<lparr>m_jobs = [], m_fire = True\<rparr>" and eff = "[]" and p = minutely])
     (simp_all add: upsert_job_def parse_minutely matches_minutely)

text \<open>
  C34: a removed job stays silent: from a state without the name, no run that does not register
  the name again ever fires it.
\<close>
theorem removed_job_never_fires:
  assumes "cron_run t0 (remove_job n c) ops fires c'" "cron_inv t0 c"
    "\<forall>(t, op) \<in> set ops. \<forall>e. op \<noteq> Upsert n e"
  shows "n \<notin> snd ` set fires"
proof -
  have "n \<notin> snd ` set fires"
    if "cron_run t0 c ops fires c'" "cron_inv t0 c" "map_of (m_jobs c) n = None"
      "\<forall>(t, op) \<in> set ops. \<forall>e. op \<noteq> Upsert n e" for c
    using that
  proof (induction rule: cron_run.induct)
    case (run_Nil t0 c)
    then show ?case by simp
  next
    case (run_Cons t0 now op c c1 fired ops fires c2)
    note step = run_Cons.hyps(2)
    have inv: "cron_inv now c" using run_Cons.prems(1) run_Cons.hyps(1) by (rule cron_inv_mono)
    have none: "map_of (m_jobs c1) n = None"
      using step run_Cons.prems(2,3)
      by (cases op) (auto simp: set_fire_callback_def remove_job_def delete_conv' tick_simps(4)
          map_sum_eq_Inr upsert_job_map_of prod_eq_iff)
    have "n \<notin> set fired"
      using cron_step_fired [OF step] tick_fires_iff [of c n now] inv run_Cons.prems(2)
      by (simp add: cron_inv_def)
    then show ?case
      using run_Cons.IH [OF cron_step_inv [OF inv step] none] run_Cons.prems(3) by auto
  qed
  then show ?thesis
    using assms cron_inv_remove [OF assms(2)] by (simp add: remove_job_def delete_conv')
qed

theorem removed_job_never_fires_witness:
  "''a'' \<notin> snd ` set ([] :: (time \<times> string) list)"
proof (rule removed_job_never_fires)
  show "cron_run 0 (remove_job ''a'' \<lparr>m_jobs = [(''a'', \<lparr>expr = minutely, last_fired = 0\<rparr>)], m_fire = True\<rparr>)
      [(ns_per_minute, Tick)] [] \<lparr>m_jobs = [], m_fire = True\<rparr>"
    by (simp add: cron_run_simps remove_job_def tick_def ns_defs)
  show "cron_inv 0 \<lparr>m_jobs = [(''a'', \<lparr>expr = minutely, last_fired = 0\<rparr>)], m_fire = True\<rparr>"
    by (auto simp: cron_inv_def intro: parse_cron_wf [OF parse_minutely])
qed simp

text \<open>
  Re-registering a name replaces its expression and keeps its firing history; text that does
  not parse changes nothing and logs a warning; other jobs are never touched.
\<close>
lemma upsert_keeps_history:
  assumes "upsert_job now n e c = Inr (c', eff)"
  shows "(parse e = Inr None \<longrightarrow> c' = c \<and> eff = [Log WARNING ''cron.local'']) \<and>
    (\<forall>p j. parse e = Inr (Some p) \<and> map_of (m_jobs c) n = Some j \<longrightarrow>
       map_of (m_jobs c') n = Some (j\<lparr>expr := p\<rparr>)) \<and>
    (\<forall>m. m \<noteq> n \<longrightarrow> map_of (m_jobs c') m = map_of (m_jobs c) m)"
  using assms
proof (cases rule: upsert_job_cases)
  case (update p j)
  then show ?thesis using upsert_job_map_of [OF assms] by (auto simp: update_conv')
next
  case (insert p)
  then show ?thesis using upsert_job_map_of [OF assms] by auto
qed auto

lemma upsert_keeps_history_witness:
  "map_of (m_jobs \<lparr>m_jobs = [(''a'', \<lparr>expr = minutely, last_fired = 42\<rparr>)], m_fire = True\<rparr>) ''a'' =
     Some (\<lparr>expr = quarterly, last_fired = 42\<rparr>\<lparr>expr := minutely\<rparr>)"
  using upsert_keeps_history [of 50 "''a''" "''* * * * *''"
      "\<lparr>m_jobs = [(''a'', \<lparr>expr = quarterly, last_fired = 42\<rparr>)], m_fire = True\<rparr>"
      "\<lparr>m_jobs = [(''a'', \<lparr>expr = minutely, last_fired = 42\<rparr>)], m_fire = True\<rparr>" "[]"]
  by (simp add: upsert_job_def parse_minutely)

section \<open>The \<open>ICron\<close> interface and its preview client\<close>

text \<open>
  The preview loop of \<open>next_few_runs\<close>: at most \<open>n\<close> calls of the backend's \<open>next_after\<close>,
  each from the time the last one found.
\<close>

fun preview_runs :: "(time \<Rightarrow> time option may_ub) \<Rightarrow> nat \<Rightarrow> time \<Rightarrow> time list may_ub" where
  "preview_runs next 0 cursor = Inr []"
| "preview_runs next (Suc n) cursor =
     bind_ub (next cursor) (\<lambda>r.
       case r of
         None \<Rightarrow> Inr []
       | Some t \<Rightarrow> map_sum id (\<lambda>ts. t # ts) (preview_runs next n t))"

datatype runs_reply =
    Service_unavailable
  | Not_found
  | Unprocessable
  | Ok_runs "time list"

text \<open>
  \<open>next_few_runs\<close> after the name is taken from the path: the backend may be absent, the stored
  schedule may be missing, its expression may not validate.
\<close>

definition next_few_runs ::
  "bool \<Rightarrow> (string \<Rightarrow> bool may_ub) \<Rightarrow> (string \<Rightarrow> time \<Rightarrow> time option may_ub) \<Rightarrow>
   string option \<Rightarrow> time \<Rightarrow> runs_reply may_ub" where
  "next_few_runs has_cron cron_validate cron_next schedule now =
     (if \<not> has_cron then Inr Service_unavailable
      else case schedule of
        None \<Rightarrow> Inr Not_found
      | Some cron_expression \<Rightarrow>
          bind_ub (cron_validate cron_expression) (\<lambda>v.
            if \<not> v then Inr Unprocessable
            else map_sum id Ok_runs (preview_runs (cron_next cron_expression) 5 now)))"

text \<open>
  What \<open>ICron\<close> promises its clients: the next fire is strictly after the base, it does not
  depend on where in the gap the base lies, and an invalid expression has none.
\<close>

locale icron =
  fixes cvalidate :: "string \<Rightarrow> bool may_ub"
    and cnext :: "string \<Rightarrow> time \<Rightarrow> time option may_ub"
  assumes after: "cnext e b = Inr (Some t) \<Longrightarrow> b < t"
    and gap: "cnext e b = Inr (Some t) \<Longrightarrow> b \<le> b' \<Longrightarrow> b' < t \<Longrightarrow> cnext e b' = Inr (Some t)"
    and invalid: "cvalidate e = Inr False \<Longrightarrow> cnext e b = Inr None"
    and defined: "cvalidate e = Inr v \<Longrightarrow> \<exists>r. cnext e b = Inr r"
begin

lemma preview_sorted:
  "preview_runs (cnext e) n b = Inr ts \<Longrightarrow>
     sorted_wrt (<) ts \<and> (\<forall>t \<in> set ts. b < t) \<and> length ts \<le> n"
proof (induction n arbitrary: b ts)
  case 0
  then show ?case by simp
next
  case (Suc n)
  show ?case
  proof (cases ts)
    case (Cons t us)
    with Suc.prems have t: "cnext e b = Inr (Some t)" and us: "preview_runs (cnext e) n t = Inr us"
      by (auto simp: bind_ub_def map_sum_eq_Inr split: sum.splits option.splits)
    then show ?thesis using Cons Suc.IH [OF us] after [OF t] by (auto intro: less_trans)
  qed simp
qed

lemma preview_complete:
  "preview_runs (cnext e) n b = Inr ts \<Longrightarrow> b \<le> b' \<Longrightarrow> cnext e b' = Inr (Some t) \<Longrightarrow>
     ts \<noteq> [] \<Longrightarrow> t \<le> last ts \<Longrightarrow> t \<in> set ts"
proof (induction n arbitrary: b ts)
  case 0
  then show ?case by simp
next
  case (Suc n)
  then obtain s us where ts: "ts = s # us" and s: "cnext e b = Inr (Some s)"
    and us: "preview_runs (cnext e) n s = Inr us"
    by (cases ts) (auto simp: bind_ub_def map_sum_eq_Inr split: sum.splits option.splits)
  show ?case
  proof (cases "b' < s")
    case True
    then show ?thesis using gap [OF s Suc.prems(2)] Suc.prems(3) ts by simp
  next
    case False
    then have "us \<noteq> []" using Suc.prems(3,5) after [OF Suc.prems(3)] ts by auto
    then show ?thesis using Suc.IH [OF us _ Suc.prems(3)] False Suc.prems(5) ts by simp
  qed
qed

lemma preview_defined:
  "cvalidate e = Inr v \<Longrightarrow> \<exists>ts. preview_runs (cnext e) n b = Inr ts"
proof (induction n arbitrary: b)
  case (Suc n)
  then obtain r where "cnext e b = Inr r" using defined by blast
  with Suc show ?case by (cases r) (auto simp: map_sum_eq_Inr)
qed simp

end

lemma next_after_gap:
  assumes "next_after e b = Some t" "b \<le> b'" "b' < t"
  shows "next_after e b' = Some t"
proof -
  let ?M = ns_per_minute
  obtain c where c: "t = c * ?M" "b div ?M + 1 \<le> c" "c < b div ?M + 1 + horizon" "matches e (c * ?M)"
    "\<forall>u. b div ?M + 1 \<le> u \<and> u < c \<longrightarrow> \<not> matches e (u * ?M)"
    using assms(1) by (auto simp: next_after_def Let_def next_search_Some_iff)
  have "b div ?M \<le> b' div ?M" using assms(2) by (rule zdiv_mono1) simp
  moreover have "b' div ?M + 1 \<le> c" using assms(3) c(1) after_iff_minute by simp
  ultimately have "next_search e (b' div ?M + 1) (b' div ?M + 1 + horizon) = Some c"
    unfolding next_search_Some_iff using c(3-5) by force
  then show ?thesis using c(1) by (simp add: next_after_def)
qed

lemma cron_next_after_Some:
  "cron_next_after e b = Inr (Some t) \<longleftrightarrow>
     (\<exists>p. parse e = Inr (Some p) \<and> next_after p b = Some t)"
  by (auto simp: cron_next_after_def map_sum_eq_Inr split: option.splits)

lemma next_after_after: "next_after e b = Some t \<Longrightarrow> b < t"
  by (auto simp: next_after_def Let_def next_search_Some_iff after_iff_minute)

interpretation local: icron validate cron_next_after
proof unfold_locales
  fix e b t b' v
  show "cron_next_after e b = Inr (Some t) \<Longrightarrow> b < t"
    by (auto simp: cron_next_after_Some dest: next_after_after)
  show "cron_next_after e b = Inr (Some t) \<Longrightarrow> b \<le> b' \<Longrightarrow> b' < t \<Longrightarrow> cron_next_after e b' = Inr (Some t)"
    unfolding cron_next_after_Some by (blast intro: next_after_gap)
  show "validate e = Inr False \<Longrightarrow> cron_next_after e b = Inr None"
    by (auto simp: validate_def cron_next_after_def map_sum_eq_Inr)
  show "validate e = Inr v \<Longrightarrow> \<exists>r. cron_next_after e b = Inr r"
    by (auto simp: validate_def cron_next_after_def map_sum_eq_Inr)
qed

text \<open>
  The schedule preview lists at most five times, strictly increasing and all in the future,
  and leaves out no fire time of the backend up to the last one it lists.
\<close>
lemma next_few_runs_preview:
  assumes "next_few_runs True validate cron_next_after (Some e) now = Inr (Ok_runs ts)"
  shows "sorted_wrt (<) ts \<and> (\<forall>t \<in> set ts. now < t) \<and> length ts \<le> 5 \<and>
    (\<forall>b t. now \<le> b \<and> cron_next_after e b = Inr (Some t) \<and> ts \<noteq> [] \<and> t \<le> last ts \<longrightarrow> t \<in> set ts)"
proof -
  have p: "preview_runs (cron_next_after e) 5 now = Inr ts"
    using assms by (auto simp: next_few_runs_def bind_ub_def map_sum_eq_Inr split: sum.splits if_splits)
  show ?thesis using local.preview_sorted [OF p] local.preview_complete [OF p] by blast
qed

lemma next_few_runs_preview_witness:
  "next_few_runs True validate cron_next_after (Some ''* * * * *'') 0 =
     Inr (Ok_runs (map (\<lambda>i. i * ns_per_minute) [1, 2, 3, 4, 5])) \<and>
   sorted_wrt (<) (map (\<lambda>i. i * ns_per_minute) [1, 2, 3, 4, 5])"
proof -
  have nx: "cron_next_after ''* * * * *'' b = Inr (Some ((b div ns_per_minute + 1) * ns_per_minute))" for b
    by (simp add: cron_next_after_def parse_minutely next_after_minutely)
  have "preview_runs (cron_next_after ''* * * * *'') (Suc (Suc (Suc (Suc (Suc 0))))) 0 =
      Inr (map (\<lambda>i. i * ns_per_minute) [1, 2, 3, 4, 5])"
    using ns_minute_pos by (simp add: nx less_imp_neq [symmetric])
  then have r: "next_few_runs True validate cron_next_after (Some ''* * * * *'') 0 =
      Inr (Ok_runs (map (\<lambda>i. i * ns_per_minute) [1, 2, 3, 4, 5]))"
    by (simp add: next_few_runs_def validate_def parse_minutely numeral_eq_Suc)
  then show ?thesis using next_few_runs_preview [OF r] by blast
qed

end
