(* ===== verification/Abi.thy ===== *)
theory Abi
  imports Prelude
begin

text \<open>
  The plugin boundary: the C ABI of include/core/manager/abi.h, the symbols that the macro
  \<open>CONGELADO_PLUGIN(T)\<close> of sdk/plugin/include/congelado/plugin.h generates around one lazily
  constructed instance, the dispatcher \<open>_cap_dispatch::call\<close> and the defaults of \<open>Plugin\<close> of
  sdk/plugin/congelado_plugin.cppm, and the host side of it, \<open>resolve_call_fn\<close>,
  \<open>resolve_*\<close> and \<open>LoggerAdapter\<close> of sdk/heart/adapters.cppm.
\<close>

unbundle bit_operations_syntax

section \<open>Values that cross the boundary\<close>

type_synonym ptr = nat

text \<open>The union of \<open>CongeladoAny\<close>: the member last written; a null pointer is 0.\<close>

datatype any_union =
    v_int64 "64 word"
  | v_float64 "64 word"
  | v_ptr ptr
  | v_cstr string

record CongeladoAny =
  type_index :: "32 word"
  zero_padding :: "32 word"
  any_value :: any_union

definition CG_NONE :: "32 word" where "CG_NONE = 0"
definition CG_INT :: "32 word" where "CG_INT = 1"
definition CG_PTR :: "32 word" where "CG_PTR = 4"
definition CG_STR :: "32 word" where "CG_STR = 5"

definition any_none :: CongeladoAny where
  "any_none = \<lparr>type_index = 0, zero_padding = 0, any_value = v_int64 0\<rparr>"

definition any_ptr :: "ptr \<Rightarrow> CongeladoAny" where
  "any_ptr p = \<lparr>type_index = CG_PTR, zero_padding = 0, any_value = v_ptr p\<rparr>"

text \<open>Reading a union member that is not the active one is undefined.\<close>

definition read_int64 :: "CongeladoAny \<Rightarrow> 64 word may_ub" where
  "read_int64 a = (case any_value a of v_int64 i \<Rightarrow> Inr i | _ \<Rightarrow> Inl Inactive_union_member)"

definition read_cstr :: "CongeladoAny \<Rightarrow> string may_ub" where
  "read_cstr a = (case any_value a of v_cstr s \<Rightarrow> Inr s | _ \<Rightarrow> Inl Inactive_union_member)"

datatype CongeladoRunType =
    RUN_LOGGER | RUN_SERDE | RUN_STORAGE | RUN_PROTOCOL | RUN_BRIDGE | RUN_OTEL | RUN_OPENAPI
  | RUN_SEARCH | RUN_EVENTS | RUN_CACHE | RUN_CRON | RUN_WORKER_MANAGER | RUN_WORKER
  | RUN_APP_DEFS | RUN_WORKER_ORCHESTRATOR | RUN_WORKFLOW_ORCHESTRATOR | RUN_PAYLOAD_STORAGE

datatype CongeladoRunAction =
    ACTION_WRITE | ACTION_ERROR | ACTION_GET | ACTION_GET_NATIVE_HANDLE

text \<open>The numeric values of the run types, which is what crosses the C boundary.\<close>

definition run_types :: "CongeladoRunType list" where
  "run_types = [RUN_LOGGER, RUN_SERDE, RUN_STORAGE, RUN_PROTOCOL, RUN_BRIDGE, RUN_OTEL,
     RUN_OPENAPI, RUN_SEARCH, RUN_EVENTS, RUN_CACHE, RUN_CRON, RUN_WORKER_MANAGER, RUN_WORKER,
     RUN_APP_DEFS, RUN_WORKER_ORCHESTRATOR, RUN_WORKFLOW_ORCHESTRATOR, RUN_PAYLOAD_STORAGE]"

definition run_type_of :: "nat \<Rightarrow> CongeladoRunType option" where
  "run_type_of i = (if i < length run_types then Some (run_types ! i) else None)"

fun run_type_code :: "CongeladoRunType \<Rightarrow> nat" where
  "run_type_code RUN_LOGGER = 0" | "run_type_code RUN_SERDE = 1"
| "run_type_code RUN_STORAGE = 2" | "run_type_code RUN_PROTOCOL = 3"
| "run_type_code RUN_BRIDGE = 4" | "run_type_code RUN_OTEL = 5"
| "run_type_code RUN_OPENAPI = 6" | "run_type_code RUN_SEARCH = 7"
| "run_type_code RUN_EVENTS = 8" | "run_type_code RUN_CACHE = 9"
| "run_type_code RUN_CRON = 10" | "run_type_code RUN_WORKER_MANAGER = 11"
| "run_type_code RUN_WORKER = 12" | "run_type_code RUN_APP_DEFS = 13"
| "run_type_code RUN_WORKER_ORCHESTRATOR = 14" | "run_type_code RUN_WORKFLOW_ORCHESTRATOR = 15"
| "run_type_code RUN_PAYLOAD_STORAGE = 16"

text \<open>The capability mask of plugin.h; \<open>CONGELADO_CAP_CUSTOM\<close> has no run type.\<close>

definition CAP_CUSTOM :: "32 word" where "CAP_CUSTOM = 8"

fun cap_bit :: "CongeladoRunType \<Rightarrow> 32 word" where
  "cap_bit RUN_LOGGER = 1" | "cap_bit RUN_PROTOCOL = 2" | "cap_bit RUN_STORAGE = 4"
| "cap_bit RUN_SERDE = 16" | "cap_bit RUN_BRIDGE = 32" | "cap_bit RUN_OTEL = 64"
| "cap_bit RUN_OPENAPI = 128" | "cap_bit RUN_SEARCH = 256" | "cap_bit RUN_EVENTS = 512"
| "cap_bit RUN_CACHE = 1024" | "cap_bit RUN_CRON = 2048" | "cap_bit RUN_WORKER_MANAGER = 4096"
| "cap_bit RUN_WORKER = 8192" | "cap_bit RUN_APP_DEFS = 16384"
| "cap_bit RUN_WORKER_ORCHESTRATOR = 32768" | "cap_bit RUN_WORKFLOW_ORCHESTRATOR = 65536"
| "cap_bit RUN_PAYLOAD_STORAGE = 131072"

section \<open>Configuration views\<close>

text \<open>The parallel arrays \<open>keys\<close>, \<open>values\<close> of length \<open>count\<close>, in order.\<close>

type_synonym config = "(string \<times> string) list"

fun config_get :: "config \<Rightarrow> string \<Rightarrow> string option" where
  "config_get [] key = None"
| "config_get ((k, v) # cfg) key = (if k = key then Some v else config_get cfg key)"

text \<open>The contexts that the host hands over with its callbacks; 0 is the null pointer.\<close>

record host_callbacks =
  router_ctx :: ptr
  controller_ctx :: ptr
  registry_ctx :: ptr
  leverager_ctx :: ptr
  database_ctx :: ptr
  lua_bridge_ctx :: ptr
  search_ctx :: ptr
  cache_ctx :: ptr
  connector_ctx :: ptr
  cron_ctx :: ptr
  worker_manager_ctx :: ptr
  worker_orchestrator_ctx :: ptr
  workflow_orchestrator_ctx :: ptr
  payload_storage_ctx :: ptr
  curl_multi_ctx :: ptr
  client_protocol_ctx :: ptr

definition no_host :: host_callbacks where
  "no_host = \<lparr>router_ctx = 0, controller_ctx = 0, registry_ctx = 0, leverager_ctx = 0, database_ctx = 0, lua_bridge_ctx = 0,
     search_ctx = 0, cache_ctx = 0, connector_ctx = 0, cron_ctx = 0, worker_manager_ctx = 0, worker_orchestrator_ctx = 0,
     workflow_orchestrator_ctx = 0, payload_storage_ctx = 0, curl_multi_ctx = 0, client_protocol_ctx = 0\<rparr>"

lemma config_get_map_of: "config_get cfg key = map_of cfg key"
  by (induction cfg key rule: config_get.induct) auto

section \<open>Plugin classes\<close>

text \<open>
  A \<open>congelado::Plugin\<close> subclass: what its virtual functions do to the instance. A hook that
  throws leaves the instance as it was at the throw and returns True in the second component.
  \<open>c_get\<close> is the pointer that the getter of a run type returns, 0 where the class has none;
  \<open>c_native_handle\<close> is \<open>bridge_native_handle\<close>.
\<close>

record 'p plugin_class =
  c_name :: "'p \<Rightarrow> string"
  c_version :: "'p \<Rightarrow> string"
  c_capabilities :: "'p \<Rightarrow> 32 word"
  c_type :: "'p \<Rightarrow> string"
  c_worker_type :: "'p \<Rightarrow> string"
  c_unique_type :: "'p \<Rightarrow> string"
  c_requires :: "'p \<Rightarrow> string list"
  c_load_before :: "'p \<Rightarrow> string list"
  c_on_load :: "config \<Rightarrow> 'p \<Rightarrow> 'p \<times> bool"
  c_execute_worker :: "config \<Rightarrow> 'p \<Rightarrow> 'p \<times> config option"
  c_on_ready :: "'p \<Rightarrow> 'p \<times> bool"
  c_on_shutdown :: "'p \<Rightarrow> 'p \<times> bool"
  c_on_reload :: "'p \<Rightarrow> 'p \<times> bool option"
  c_logger_write :: "32 word \<Rightarrow> string \<Rightarrow> 'p \<Rightarrow> 'p"
  c_get :: "CongeladoRunType \<Rightarrow> 'p \<Rightarrow> ptr"
  c_native_handle :: "'p \<Rightarrow> ptr"

text \<open>The defaults of \<open>congelado::Plugin\<close>, which a subclass overrides.\<close>

definition default_plugin :: "'p plugin_class" where
  "default_plugin =
     \<lparr>c_name = (\<lambda>_. ''''), c_version = (\<lambda>_. ''''), c_capabilities = (\<lambda>_. 0),
      c_type = (\<lambda>_. ''plugin''), c_worker_type = (\<lambda>_. ''''), c_unique_type = (\<lambda>_. ''''),
      c_requires = (\<lambda>_. []), c_load_before = (\<lambda>_. []), c_on_load = (\<lambda>_ p. (p, False)),
      c_execute_worker = (\<lambda>_ p. (p, Some [])), c_on_ready = (\<lambda>p. (p, False)),
      c_on_shutdown = (\<lambda>p. (p, False)), c_on_reload = (\<lambda>p. (p, Some True)),
      c_logger_write = (\<lambda>_ _ p. p), c_get = (\<lambda>_ _. 0), c_native_handle = (\<lambda>_. 0)\<rparr>"

section \<open>The capability dispatcher\<close>

text \<open>
  \<open>_cap_dispatch::call\<close>. The array \<open>args\<close> has \<open>args_count\<close> elements; an unknown run type
  falls out of the switch.
\<close>

definition cap_call ::
  "'p plugin_class \<Rightarrow> 'p \<Rightarrow> nat \<Rightarrow> CongeladoRunAction \<Rightarrow> CongeladoAny list \<Rightarrow> ('p \<times> CongeladoAny) may_ub" where
  "cap_call T p type action args =
     (case run_type_of type of
        None \<Rightarrow> Inr (p, any_none)
      | Some RUN_LOGGER \<Rightarrow>
          (if action = ACTION_WRITE \<and> length args \<ge> 2 then
             bind_ub (read_int64 (args ! 0)) (\<lambda>level.
             bind_ub (read_cstr (args ! 1)) (\<lambda>msg.
               Inr (c_logger_write T (ucast level) msg p, any_none)))
           else if action = ACTION_ERROR \<and> length args \<ge> 1 then
             bind_ub (read_cstr (args ! 0)) (\<lambda>msg. Inr (c_logger_write T 4 msg p, any_none))
           else Inr (p, any_none))
      | Some RUN_BRIDGE \<Rightarrow>
          Inr (p, any_ptr (if action = ACTION_GET_NATIVE_HANDLE then c_native_handle T p
                           else c_get T RUN_BRIDGE p))
      | Some t \<Rightarrow> Inr (p, any_ptr (c_get T t p)))"

section \<open>The module of a plugin\<close>

text \<open>
  The static state behind the generated symbols: the instance, the two pointer caches with
  their flags, and how many instances were constructed and deleted so far.
\<close>

record 'p module_state =
  s_plugin :: "'p option"
  s_req_ptrs :: "string list"
  s_req_built :: bool
  s_before_ptrs :: "string list"
  s_before_built :: bool
  n_constructed :: nat
  n_deleted :: nat

definition init_module :: "'p module_state" where
  "init_module = \<lparr>s_plugin = None, s_req_ptrs = [], s_req_built = False, s_before_ptrs = [],
     s_before_built = False, n_constructed = 0, n_deleted = 0\<rparr>"

text \<open>\<open>plugin_instance\<close>; \<open>ctor\<close> is what \<open>new T{}\<close> gives if it is tried, None if it throws.\<close>

definition plugin_instance :: "'p option \<Rightarrow> 'p module_state \<Rightarrow> 'p module_state" where
  "plugin_instance ctor s =
     (case s_plugin s of
        Some _ \<Rightarrow> s
      | None \<Rightarrow>
          (case ctor of
             None \<Rightarrow> s
           | Some p \<Rightarrow> s\<lparr>s_plugin := Some p, n_constructed := Suc (n_constructed s)\<rparr>))"

text \<open>The getters: \<open>p ? p->get().data() : ""\<close>, with 0 for the capabilities and the counts.\<close>

definition getter :: "'r \<Rightarrow> ('p \<Rightarrow> 'r) \<Rightarrow> 'p option \<Rightarrow> 'p module_state \<Rightarrow> 'p module_state \<times> 'r" where
  "getter dflt get ctor s =
     (let s = plugin_instance ctor s
      in (s, case s_plugin s of None \<Rightarrow> dflt | Some p \<Rightarrow> get p))"

definition congelado_plugin_name :: "'p plugin_class \<Rightarrow> 'p option \<Rightarrow> 'p module_state \<Rightarrow> 'p module_state \<times> string" where
  "congelado_plugin_name T = getter '''' (c_name T)"
definition congelado_plugin_version :: "'p plugin_class \<Rightarrow> 'p option \<Rightarrow> 'p module_state \<Rightarrow> 'p module_state \<times> string" where
  "congelado_plugin_version T = getter '''' (c_version T)"
definition congelado_capabilities :: "'p plugin_class \<Rightarrow> 'p option \<Rightarrow> 'p module_state \<Rightarrow> 'p module_state \<times> 32 word" where
  "congelado_capabilities T = getter 0 (c_capabilities T)"
definition congelado_type :: "'p plugin_class \<Rightarrow> 'p option \<Rightarrow> 'p module_state \<Rightarrow> 'p module_state \<times> string" where
  "congelado_type T = getter '''' (c_type T)"
definition congelado_worker_type :: "'p plugin_class \<Rightarrow> 'p option \<Rightarrow> 'p module_state \<Rightarrow> 'p module_state \<times> string" where
  "congelado_worker_type T = getter '''' (c_worker_type T)"
definition congelado_unique_type :: "'p plugin_class \<Rightarrow> 'p option \<Rightarrow> 'p module_state \<Rightarrow> 'p module_state \<times> string" where
  "congelado_unique_type T = getter '''' (c_unique_type T)"
definition congelado_requires_count :: "'p plugin_class \<Rightarrow> 'p option \<Rightarrow> 'p module_state \<Rightarrow> 'p module_state \<times> nat" where
  "congelado_requires_count T = getter 0 (\<lambda>p. length (c_requires T p))"
definition congelado_load_before_types_count :: "'p plugin_class \<Rightarrow> 'p option \<Rightarrow> 'p module_state \<Rightarrow> 'p module_state \<times> nat" where
  "congelado_load_before_types_count T = getter 0 (\<lambda>p. length (c_load_before T p))"

definition congelado_init ::
  "'p plugin_class \<Rightarrow> 'p option \<Rightarrow> config option \<Rightarrow> 'p module_state \<Rightarrow> 'p module_state \<times> int" where
  "congelado_init T ctor cfg s =
     (let s = plugin_instance ctor s
      in case s_plugin s of
           None \<Rightarrow> (s, -1)
         | Some p \<Rightarrow>
             (let (p', threw) = c_on_load T (case cfg of None \<Rightarrow> [] | Some c \<Rightarrow> c) p
              in (s\<lparr>s_plugin := Some p'\<rparr>, if threw then -1 else 0)))"

definition congelado_worker_execute ::
  "'p plugin_class \<Rightarrow> 'p option \<Rightarrow> config \<Rightarrow> 'p module_state \<Rightarrow> 'p module_state \<times> config" where
  "congelado_worker_execute T ctor input s =
     (let s = plugin_instance ctor s
      in case s_plugin s of
           None \<Rightarrow> (s, [])
         | Some p \<Rightarrow>
             (let (p', r) = c_execute_worker T input p
              in (s\<lparr>s_plugin := Some p'\<rparr>, case r of None \<Rightarrow> [] | Some out \<Rightarrow> out)))"

text \<open>The instance is deleted whether or not \<open>on_unload\<close> throws.\<close>

definition congelado_on_unload :: "'p module_state \<Rightarrow> 'p module_state" where
  "congelado_on_unload s =
     (case s_plugin s of
        None \<Rightarrow> s
      | Some _ \<Rightarrow> s\<lparr>s_plugin := None, n_deleted := Suc (n_deleted s)\<rparr>)"

definition run_hook :: "('p \<Rightarrow> 'p \<times> bool) \<Rightarrow> 'p option \<Rightarrow> 'p module_state \<Rightarrow> 'p module_state" where
  "run_hook hook ctor s =
     (let s = plugin_instance ctor s
      in case s_plugin s of
           None \<Rightarrow> s
         | Some p \<Rightarrow> s\<lparr>s_plugin := Some (fst (hook p))\<rparr>)"

definition congelado_on_ready :: "'p plugin_class \<Rightarrow> 'p option \<Rightarrow> 'p module_state \<Rightarrow> 'p module_state" where
  "congelado_on_ready T = run_hook (c_on_ready T)"
definition congelado_on_shutdown :: "'p plugin_class \<Rightarrow> 'p option \<Rightarrow> 'p module_state \<Rightarrow> 'p module_state" where
  "congelado_on_shutdown T = run_hook (c_on_shutdown T)"

definition congelado_on_reload_requested ::
  "'p plugin_class \<Rightarrow> 'p option \<Rightarrow> 'p module_state \<Rightarrow> 'p module_state \<times> int" where
  "congelado_on_reload_requested T ctor s =
     (let s = plugin_instance ctor s
      in case s_plugin s of
           None \<Rightarrow> (s, 0)
         | Some p \<Rightarrow>
             (let (p', r) = c_on_reload T p
              in (s\<lparr>s_plugin := Some p'\<rparr>, if r = Some True then 1 else 0)))"

definition congelado_call ::
  "'p plugin_class \<Rightarrow> 'p option \<Rightarrow> nat \<Rightarrow> CongeladoRunAction \<Rightarrow> CongeladoAny list \<Rightarrow> 'p module_state \<Rightarrow>
   ('p module_state \<times> CongeladoAny) may_ub" where
  "congelado_call T ctor type action args s =
     (let s = plugin_instance ctor s
      in case s_plugin s of
           None \<Rightarrow> Inr (s, any_none)
         | Some p \<Rightarrow>
             map_sum id (\<lambda>(p', r). (s\<lparr>s_plugin := Some p'\<rparr>, r)) (cap_call T p type action args))"

text \<open>
  The pointer caches. \<open>fail\<close> is the number of entries pushed before an allocation throws, None
  if none does. The result is the array that the caller then reads up to the count, None for a
  null pointer.
\<close>

definition build_cache :: "nat option \<Rightarrow> string list \<Rightarrow> string list \<Rightarrow> bool \<Rightarrow> (string list \<times> bool) \<times> string list option" where
  "build_cache fail names ptrs built =
     (if built then ((ptrs, True), Some ptrs)
      else case fail of
        None \<Rightarrow> ((ptrs @ names, True), Some (ptrs @ names))
      | Some k \<Rightarrow> if k < length names then ((ptrs @ take k names, False), None)
                  else ((ptrs @ names, True), Some (ptrs @ names)))"

definition congelado_requires ::
  "'p plugin_class \<Rightarrow> 'p option \<Rightarrow> nat option \<Rightarrow> 'p module_state \<Rightarrow> 'p module_state \<times> string list option" where
  "congelado_requires T ctor fail s =
     (let s = plugin_instance ctor s
      in case s_plugin s of
           None \<Rightarrow> (s, None)
         | Some p \<Rightarrow>
             (let ((ptrs, built), r) = build_cache fail (c_requires T p) (s_req_ptrs s) (s_req_built s)
              in (s\<lparr>s_req_ptrs := ptrs, s_req_built := built\<rparr>, r)))"

definition congelado_load_before_types ::
  "'p plugin_class \<Rightarrow> 'p option \<Rightarrow> nat option \<Rightarrow> 'p module_state \<Rightarrow> 'p module_state \<times> string list option" where
  "congelado_load_before_types T ctor fail s =
     (let s = plugin_instance ctor s
      in case s_plugin s of
           None \<Rightarrow> (s, None)
         | Some p \<Rightarrow>
             (let ((ptrs, built), r) = build_cache fail (c_load_before T p) (s_before_ptrs s) (s_before_built s)
              in (s\<lparr>s_before_ptrs := ptrs, s_before_built := built\<rparr>, r)))"

section \<open>The host side\<close>

text \<open>
  \<open>PluginRef::m_data\<close> as far as the resolvers read it: the capabilities recorded when the
  plugin was opened and whether the symbol \<open>congelado_call\<close> resolved.
\<close>

record plugin_ref =
  r_capabilities :: "32 word option"
  r_has_call :: bool

definition resolve_call_fn :: "plugin_ref \<Rightarrow> 32 word \<Rightarrow> bool" where
  "resolve_call_fn ref cap =
     (case r_capabilities ref of
        None \<Rightarrow> False
      | Some caps \<Rightarrow> if caps AND cap = 0 then False else r_has_call ref)"

text \<open>
  \<open>resolve_storage\<close>, \<open>resolve_cache\<close>, \<open>resolve_cron_provider\<close> and the other resolvers, which
  differ in the bit and the run type only.
\<close>

definition resolve ::
  "'p plugin_class \<Rightarrow> 'p option \<Rightarrow> plugin_ref \<Rightarrow> CongeladoRunType \<Rightarrow> 'p module_state \<Rightarrow>
   ('p module_state \<times> ptr option) may_ub" where
  "resolve T ctor ref t s =
     (if \<not> resolve_call_fn ref (cap_bit t) then Inr (s, None)
      else map_sum id (\<lambda>(s', r).
             (s', case any_value r of
                    v_ptr q \<Rightarrow> if type_index r \<noteq> CG_PTR \<or> q = 0 then None else Some q
                  | _ \<Rightarrow> None))
           (congelado_call T ctor (run_type_code t) ACTION_GET [] s))"

text \<open>\<open>LoggerAdapter::write\<close> and \<open>LoggerAdapter::error\<close>.\<close>

definition adapter_write ::
  "'p plugin_class \<Rightarrow> 'p option \<Rightarrow> log_level \<Rightarrow> string \<Rightarrow> 'p module_state \<Rightarrow> ('p module_state \<times> CongeladoAny) may_ub" where
  "adapter_write T ctor level msg =
     congelado_call T ctor (run_type_code RUN_LOGGER) ACTION_WRITE
       [\<lparr>type_index = CG_INT, zero_padding = 0, any_value = v_int64 (word_of_int (level_code level))\<rparr>,
        \<lparr>type_index = CG_STR, zero_padding = 0, any_value = v_cstr msg\<rparr>]"

definition adapter_error ::
  "'p plugin_class \<Rightarrow> 'p option \<Rightarrow> string \<Rightarrow> 'p module_state \<Rightarrow> ('p module_state \<times> CongeladoAny) may_ub" where
  "adapter_error T ctor msg =
     congelado_call T ctor (run_type_code RUN_LOGGER) ACTION_ERROR
       [\<lparr>type_index = CG_STR, zero_padding = 0, any_value = v_cstr msg\<rparr>]"

lemma cap_call_get:
  assumes "t \<noteq> RUN_LOGGER"
  shows "cap_call T p (run_type_code t) ACTION_GET args = Inr (p, any_ptr (c_get T t p))"
  using assms by (cases t) (simp_all add: cap_call_def run_type_of_def run_types_def)

lemma resolve_instance:
  assumes "t \<noteq> RUN_LOGGER" "s_plugin s = Some p" "r_capabilities ref = Some (c_capabilities T p)"
  shows "resolve T ctor ref t s =
    Inr (s, if c_capabilities T p AND cap_bit t \<noteq> 0 \<and> r_has_call ref \<and> c_get T t p \<noteq> 0
            then Some (c_get T t p) else None)"
  using assms
  by (cases s) (auto simp: resolve_def resolve_call_fn_def congelado_call_def plugin_instance_def
      cap_call_get any_ptr_def CG_PTR_def)

text \<open>
  A plugin class keeps its word if it implements the interface of every bit it advertises and
  of no other. For such a class the host gets an interface exactly for the advertised bits.
\<close>

locale advertised =
  fixes T :: "'p plugin_class"
  assumes keeps: "t \<noteq> RUN_LOGGER \<Longrightarrow> c_capabilities T p AND cap_bit t \<noteq> 0 \<longleftrightarrow> c_get T t p \<noteq> 0"
begin

lemma resolve_advertised:
  assumes "t \<noteq> RUN_LOGGER" "s_plugin s = Some p"
  shows "resolve T ctor \<lparr>r_capabilities = Some (c_capabilities T p), r_has_call = True\<rparr> t s =
    Inr (s, if c_capabilities T p AND cap_bit t \<noteq> 0 then Some (c_get T t p) else None)"
  using resolve_instance [OF assms, of "\<lparr>r_capabilities = Some (c_capabilities T p), r_has_call = True\<rparr>" T ctor]
    keeps [OF assms(1), of p] by auto

end

section \<open>Sequences of calls\<close>

text \<open>
  Every symbol as an operation, with the outcomes of the code it cannot control: what the
  constructor gives if it is tried and where an allocation of the caches fails.
\<close>

datatype abi_op =
    Query
  | Init "config option"
  | Worker_execute config
  | On_unload
  | On_ready
  | On_shutdown
  | On_reload_requested
  | Call nat CongeladoRunAction "CongeladoAny list"
  | Requires "nat option"
  | Load_before_types "nat option"

fun abi_step :: "'p plugin_class \<Rightarrow> 'p option \<Rightarrow> abi_op \<Rightarrow> 'p module_state \<Rightarrow> 'p module_state may_ub" where
  "abi_step T ctor Query s = Inr (fst (congelado_capabilities T ctor s))"
| "abi_step T ctor (Init cfg) s = Inr (fst (congelado_init T ctor cfg s))"
| "abi_step T ctor (Worker_execute input) s = Inr (fst (congelado_worker_execute T ctor input s))"
| "abi_step T ctor On_unload s = Inr (congelado_on_unload s)"
| "abi_step T ctor On_ready s = Inr (congelado_on_ready T ctor s)"
| "abi_step T ctor On_shutdown s = Inr (congelado_on_shutdown T ctor s)"
| "abi_step T ctor On_reload_requested s = Inr (fst (congelado_on_reload_requested T ctor s))"
| "abi_step T ctor (Call type action args) s = map_sum id fst (congelado_call T ctor type action args s)"
| "abi_step T ctor (Requires fail) s = Inr (fst (congelado_requires T ctor fail s))"
| "abi_step T ctor (Load_before_types fail) s = Inr (fst (congelado_load_before_types T ctor fail s))"

inductive abi_run :: "'p plugin_class \<Rightarrow> 'p module_state \<Rightarrow> abi_op list \<Rightarrow> 'p module_state \<Rightarrow> bool"
  for T :: "'p plugin_class" where
  abi_Nil: "abi_run T s [] s"
| abi_Cons: "abi_step T ctor op s = Inr s1 \<Longrightarrow> abi_run T s1 ops s' \<Longrightarrow> abi_run T s (op # ops) s'"

definition live_inv :: "'p module_state \<Rightarrow> bool" where
  "live_inv s \<longleftrightarrow> n_constructed s = n_deleted s + (if s_plugin s = None then 0 else 1)"

named_theorems abi_defs \<open>the generated symbols\<close>

declare congelado_capabilities_def [abi_defs] congelado_init_def [abi_defs]
  congelado_worker_execute_def [abi_defs] congelado_on_unload_def [abi_defs]
  congelado_on_ready_def [abi_defs] congelado_on_shutdown_def [abi_defs]
  congelado_on_reload_requested_def [abi_defs] congelado_call_def [abi_defs]
  congelado_requires_def [abi_defs] congelado_load_before_types_def [abi_defs]
  getter_def [abi_defs] run_hook_def [abi_defs]

lemma live_inv_instance: "live_inv s \<Longrightarrow> live_inv (plugin_instance ctor s)"
  by (auto simp: live_inv_def plugin_instance_def split: option.splits)

lemma live_inv_update:
  "live_inv s \<Longrightarrow> s_plugin s = Some p \<Longrightarrow> live_inv (s\<lparr>s_plugin := Some p'\<rparr>)"
  by (simp add: live_inv_def)

lemma abi_step_live:
  assumes "live_inv s" "abi_step T ctor op s = Inr s'"
  shows "live_inv s'"
proof -
  define s1 where "s1 = plugin_instance ctor s"
  have s1: "live_inv s1" using assms(1) by (simp add: s1_def live_inv_instance)
  have caches: "live_inv (s\<lparr>s_req_ptrs := a, s_req_built := b\<rparr>) = live_inv s"
    "live_inv (s\<lparr>s_before_ptrs := a, s_before_built := b\<rparr>) = live_inv s" for s :: "'a module_state" and a b
    by (simp_all add: live_inv_def)
  show ?thesis
  proof (cases op)
    case On_unload
    then show ?thesis
      using assms by (auto simp: abi_defs live_inv_def split: option.splits)
  qed (use assms s1 in \<open>auto simp: abi_defs Let_def s1_def [symmetric] live_inv_update caches
      map_sum_eq_Inr split: option.splits prod.splits\<close>)
qed

lemma abi_run_invariant:
  assumes "abi_run T s ops s'" "I s"
    "\<And>ctor op s s'. op \<in> set ops \<Longrightarrow> I s \<Longrightarrow> abi_step T ctor op s = Inr s' \<Longrightarrow> I s'"
  shows "I s'"
  using assms
proof (induction rule: abi_run.induct)
  case (abi_Cons ctor op s s1 ops s')
  have "I s1" using abi_Cons.prems(2) [OF _ abi_Cons.prems(1) abi_Cons.hyps(1)] by simp
  then show ?case using abi_Cons.IH abi_Cons.prems(2) by (meson list.set_intros(2))
qed

section \<open>Properties of the boundary\<close>

text \<open>
  C3: through any sequence of calls, with any constructor failures, throwing hooks and unloads,
  a module has at most one live instance, every deleted instance was constructed, and none is
  deleted twice or lost.
\<close>
theorem one_live_instance:
  assumes "abi_run T init_module ops s"
  shows "n_constructed s = n_deleted s + (if s_plugin s = None then 0 else 1)"
proof -
  have "live_inv s"
    using assms by (rule abi_run_invariant) (simp add: live_inv_def init_module_def, rule abi_step_live)
  then show ?thesis by (simp add: live_inv_def)
qed

definition unloaded_module :: "nat module_state" where
  "unloaded_module = \<lparr>s_plugin = None, s_req_ptrs = [], s_req_built = False, s_before_ptrs = [],
     s_before_built = False, n_constructed = 1, n_deleted = 1\<rparr>"

lemma run_unloaded: "abi_run default_plugin init_module [On_ready, On_unload] unloaded_module"
proof (rule abi_Cons [OF _ abi_Cons [OF _ abi_Nil]])
  show "abi_step default_plugin (Some 7) On_ready init_module =
      Inr (init_module\<lparr>s_plugin := Some 7, n_constructed := 1\<rparr>)"
    by (simp add: abi_defs plugin_instance_def init_module_def default_plugin_def)
  show "abi_step default_plugin None On_unload (init_module\<lparr>s_plugin := Some 7, n_constructed := 1\<rparr>) =
      Inr unloaded_module"
    by (simp add: abi_defs init_module_def unloaded_module_def)
qed

theorem one_live_instance_witness:
  "n_constructed unloaded_module = n_deleted unloaded_module + (if s_plugin unloaded_module = None then 0 else 1)"
  by (rule one_live_instance) (rule run_unloaded)

text \<open>
  The function \<open>congelado_init\<close> returns 0 exactly when an instance exists or can be constructed and its
  \<open>on_load\<close> does not throw; otherwise it returns -1, and no exception leaves it.
\<close>
lemma init_result:
  "snd (congelado_init T ctor cfg s) =
     (if (\<exists>p. s_plugin (plugin_instance ctor s) = Some p \<and>
             \<not> snd (c_on_load T (case cfg of None \<Rightarrow> [] | Some c \<Rightarrow> c) p))
      then 0 else -1)"
  by (auto simp: congelado_init_def Let_def split: option.splits prod.splits)

lemma run_type_roundtrip: "run_type_of (run_type_code t) = Some t"
  by (cases t) (simp_all add: run_type_of_def run_types_def)

text \<open>
  The capability bits are pairwise disjoint, none is zero and none is the custom bit, and
  every run type survives the passage through its number.
\<close>
lemma capability_bits_disjoint:
  "(t \<noteq> u \<longrightarrow> cap_bit t AND cap_bit u = 0) \<and> cap_bit t \<noteq> 0 \<and> cap_bit t AND CAP_CUSTOM = 0 \<and>
   run_type_of (run_type_code t) = Some t"
  by (cases t; cases u; simp add: CAP_CUSTOM_def run_type_of_def run_types_def)

lemma capability_bits_disjoint_witness: "cap_bit RUN_CRON AND cap_bit RUN_CACHE = 0"
  using capability_bits_disjoint [of RUN_CRON RUN_CACHE] by simp

text \<open>
  C15: the host gets an interface from a plugin exactly when the plugin advertised the bit, its
  call symbol resolved and its getter returns a non-null pointer, and what it gets is that
  pointer; the plugin instance is not changed by the query.
\<close>
theorem resolve_exact:
  assumes "t \<noteq> RUN_LOGGER" "s_plugin s = Some p" "r_capabilities ref = Some (c_capabilities T p)"
  shows "resolve T ctor ref t s =
    Inr (s, if c_capabilities T p AND cap_bit t \<noteq> 0 \<and> r_has_call ref \<and> c_get T t p \<noteq> 0
            then Some (c_get T t p) else None)"
  using assms by (rule resolve_instance)

text \<open>
  The host's logger adapter delivers a line unchanged: the plugin's \<open>logger_write\<close> is called
  once with the numeric level and the text, and no inactive union member is read.
\<close>
lemma adapter_write_delivers:
  assumes "s_plugin s = Some p"
  shows "adapter_write T ctor level msg s =
      Inr (s\<lparr>s_plugin := Some (c_logger_write T (word_of_int (level_code level)) msg p)\<rparr>, any_none) \<and>
    adapter_error T ctor msg s =
      Inr (s\<lparr>s_plugin := Some (c_logger_write T (word_of_int (level_code ERROR)) msg p)\<rparr>, any_none)"
  using assms
  by (cases level) (simp_all add: adapter_write_def adapter_error_def congelado_call_def
      plugin_instance_def cap_call_def run_type_of_def run_types_def read_int64_def read_cstr_def)

definition sample_class :: "(32 word \<times> string) list plugin_class" where
  "sample_class = default_plugin\<lparr>c_capabilities := (\<lambda>_. cap_bit RUN_CRON), c_get := (\<lambda>t _. if t = RUN_CRON then 64 else 0),
     c_logger_write := (\<lambda>l m p. p @ [(l, m)]), c_requires := (\<lambda>_. [''a'', ''b''])\<rparr>"

definition sample_module :: "(32 word \<times> string) list module_state" where
  "sample_module = init_module\<lparr>s_plugin := Some [], n_constructed := 1\<rparr>"

theorem resolve_exact_witness:
  "resolve sample_class None \<lparr>r_capabilities = Some (cap_bit RUN_CRON), r_has_call = True\<rparr> RUN_CRON sample_module =
    Inr (sample_module, Some 64)"
  using resolve_exact [of RUN_CRON sample_module "[]" "\<lparr>r_capabilities = Some (cap_bit RUN_CRON), r_has_call = True\<rparr>" sample_class None]
  by (simp add: sample_class_def sample_module_def)

definition alloc_ok :: "abi_op \<Rightarrow> bool" where
  "alloc_ok op \<longleftrightarrow> (\<forall>k. op \<noteq> Requires (Some k)) \<and> (\<forall>k. op \<noteq> Load_before_types (Some k))"

definition cache_ok :: "string list \<Rightarrow> string list \<Rightarrow> 'p module_state \<Rightarrow> bool" where
  "cache_ok reqs befores s \<longleftrightarrow>
     s_req_ptrs s = (if s_req_built s then reqs else []) \<and>
     s_before_ptrs s = (if s_before_built s then befores else [])"

lemma cache_ok_instance [simp]: "cache_ok r b (plugin_instance ctor s) = cache_ok r b s"
  by (auto simp: cache_ok_def plugin_instance_def split: option.splits)

lemma cache_ok_plugin [simp]:
  "cache_ok r b (s\<lparr>s_plugin := x\<rparr>) = cache_ok r b s"
  "cache_ok r b (s\<lparr>s_plugin := x, n_deleted := k\<rparr>) = cache_ok r b s"
  by (simp_all add: cache_ok_def)

lemma abi_step_cache:
  assumes "cache_ok reqs befores s" "abi_step T ctor op s = Inr s'" "alloc_ok op"
    "\<And>q. c_requires T q = reqs" "\<And>q. c_load_before T q = befores"
  shows "cache_ok reqs befores s'"
proof -
  define s1 where "s1 = plugin_instance ctor s"
  have s1: "cache_ok reqs befores s1" using assms(1) by (simp add: s1_def)
  show ?thesis
  proof (cases op)
    case (Requires fail)
    then have "fail = None" using assms(3) by (cases fail) (auto simp: alloc_ok_def)
    then show ?thesis
      using Requires assms(2,4) s1
      by (auto simp: abi_defs Let_def s1_def [symmetric] build_cache_def cache_ok_def
          split: option.splits if_splits)
  next
    case (Load_before_types fail)
    then have "fail = None" using assms(3) by (cases fail) (auto simp: alloc_ok_def)
    then show ?thesis
      using Load_before_types assms(2,5) s1
      by (auto simp: abi_defs Let_def s1_def [symmetric] build_cache_def cache_ok_def
          split: option.splits if_splits)
  qed (use assms(1,2) s1 in \<open>auto simp: abi_defs Let_def s1_def [symmetric] map_sum_eq_Inr
      split: option.splits prod.splits\<close>)
qed

text \<open>
  As long as no allocation fails, the array that \<open>congelado_requires\<close> returns is the list of
  the plugin's requirements and the count is its length, after any earlier calls, unloading and
  reconstructing included.
\<close>
lemma requires_cache_correct:
  assumes run: "abi_run T init_module ops s" and ok: "\<forall>op \<in> set ops. alloc_ok op"
    and const: "\<And>q. c_requires T q = reqs" "\<And>q. c_load_before T q = befores"
    and inst: "s_plugin (plugin_instance ctor s) \<noteq> None"
  shows "snd (congelado_requires T ctor None s) = Some reqs \<and>
    snd (congelado_requires_count T ctor s) = length reqs"
proof -
  have "cache_ok reqs befores s"
    using run
  proof (rule abi_run_invariant)
    show "cache_ok reqs befores init_module" by (simp add: cache_ok_def init_module_def)
  qed (use ok const in \<open>blast intro: abi_step_cache\<close>)
  then have "cache_ok reqs befores (plugin_instance ctor s)" by simp
  then show ?thesis
    using inst const
    by (auto simp: congelado_requires_def congelado_requires_count_def getter_def build_cache_def
        cache_ok_def Let_def split: option.splits)
qed

lemma requires_cache_correct_witness:
  "snd (congelado_requires sample_class (Some []) None sample_module) = Some [''a'', ''b''] \<and>
   snd (congelado_requires_count sample_class (Some []) sample_module) = length [''a'', ''b'']"
proof (rule requires_cache_correct)
  show "abi_run sample_class init_module [On_ready] sample_module"
    by (rule abi_Cons [OF _ abi_Nil, of _ "Some []"])
       (simp add: abi_defs plugin_instance_def init_module_def sample_module_def sample_class_def default_plugin_def)
qed (simp_all add: alloc_ok_def sample_class_def default_plugin_def plugin_instance_def sample_module_def)

text \<open>
  A failed first attempt is not undone: the entries it pushed stay in front, so the next call
  returns an array whose first \<open>count\<close> entries are not the requirements.
\<close>

lemma requires_cache_after_failure:
  "let s = fst (congelado_requires sample_class None (Some 1) sample_module)
   in snd (congelado_requires sample_class None None s) = Some [''a'', ''a'', ''b''] \<and>
      snd (congelado_requires_count sample_class None s) = 2"
  by (simp add: congelado_requires_def congelado_requires_count_def getter_def build_cache_def
      sample_class_def default_plugin_def plugin_instance_def sample_module_def init_module_def)

text \<open>
  A symbol called after the unload constructs a new instance instead of doing nothing.
\<close>

lemma shutdown_after_unload_constructs:
  "s_plugin (congelado_on_shutdown default_plugin (Some 9) unloaded_module) = Some 9"
  by (simp add: abi_defs plugin_instance_def unloaded_module_def default_plugin_def)

end
