(* ===== verification/Cache.thy ===== *)
theory Cache
  imports Abi
begin

text \<open>
  The cache backends: \<open>LocalCachePlugin\<close> of plugins/cache/local/bin/local_cache.cc and the
  cache half of \<open>RedisEventsPlugin\<close> of plugins/cache/redis/bin/redis.cc, and the contract
  \<open>ICache\<close> of include/interfaces/cache.cppm that both implement, as a locale. An operation
  returns the state and the text its result callback gets; the callback runs before the
  operation returns.
\<close>

section \<open>The contract\<close>

record 'c cache_ops =
  get_fn :: "string \<Rightarrow> 'c \<Rightarrow> 'c \<times> string"
  set_fn :: "string \<Rightarrow> string \<Rightarrow> 'c \<Rightarrow> 'c \<times> string"
  remove_fn :: "string \<Rightarrow> 'c \<Rightarrow> 'c \<times> string"

text \<open>
  A backend that is up holds a partial map; a lookup gives the stored text, the empty text for
  an absent key, and a write or a removal changes that key only.
\<close>

locale icache =
  fixes ops :: "'c cache_ops" and up :: "'c \<Rightarrow> bool" and contents :: "'c \<Rightarrow> string \<Rightarrow> string option"
  assumes get_law: "up c \<Longrightarrow> get_fn ops k c = (c, case contents c k of None \<Rightarrow> '''' | Some v \<Rightarrow> v)"
    and set_law: "up c \<Longrightarrow> up (fst (set_fn ops k v c)) \<and>
      contents (fst (set_fn ops k v c)) = (contents c)(k \<mapsto> v)"
    and remove_law: "up c \<Longrightarrow> up (fst (remove_fn ops k c)) \<and>
      contents (fst (remove_fn ops k c)) = (contents c)(k := None)"
begin

lemma get_after_set:
  "up c \<Longrightarrow> snd (get_fn ops k' (fst (set_fn ops k v c))) =
     (if k' = k then v else snd (get_fn ops k' c))"
  using set_law [of c k v] by (simp add: get_law)

lemma get_after_remove:
  "up c \<Longrightarrow> snd (get_fn ops k' (fst (remove_fn ops k c))) =
     (if k' = k then '''' else snd (get_fn ops k' c))"
  using remove_law [of c k] by (simp add: get_law)

end

section \<open>The in-process backend\<close>

record local_cache =
  m_store :: "(string \<times> string) list"

definition local_get :: "string \<Rightarrow> local_cache \<Rightarrow> local_cache \<times> string" where
  "local_get key s = (s, case map_of (m_store s) key of None \<Rightarrow> '''' | Some v \<Rightarrow> v)"

definition local_set :: "string \<Rightarrow> string \<Rightarrow> local_cache \<Rightarrow> local_cache \<times> string" where
  "local_set key val s = (s\<lparr>m_store := AList.update key val (m_store s)\<rparr>, '''')"

definition local_remove :: "string \<Rightarrow> local_cache \<Rightarrow> local_cache \<times> string" where
  "local_remove key s = (s\<lparr>m_store := AList.delete key (m_store s)\<rparr>, '''')"

definition local_ops :: "local_cache cache_ops" where
  "local_ops = \<lparr>get_fn = local_get, set_fn = local_set, remove_fn = local_remove\<rparr>"

text \<open>The plugin class; the pointer of its \<open>ICache\<close> surface is the address 1 of the model.\<close>

definition local_cache_class :: "local_cache plugin_class" where
  "local_cache_class = default_plugin
     \<lparr>c_name := (\<lambda>_. ''local''), c_version := (\<lambda>_. ''0.1.0''),
      c_capabilities := (\<lambda>_. cap_bit RUN_CACHE),
      c_get := (\<lambda>t _. if t = RUN_CACHE then 1 else 0)\<rparr>"

interpretation local_cache_caps: advertised local_cache_class
  by unfold_locales (rename_tac t p, case_tac t; simp add: local_cache_class_def)

interpretation local_cache: icache local_ops "\<lambda>_. True" "\<lambda>c. map_of (m_store c)"
  by unfold_locales (auto simp: local_ops_def local_get_def local_set_def local_remove_def
      update_conv' delete_conv' fun_eq_iff)

section \<open>Redis\<close>

text \<open>
  hiredis is not part of the sources: \<open>exec\<close> stands for \<open>redisCommand\<close> on a connection, given
  the argument vector of the command; it returns the connection and the reply, None for a null
  reply. \<open>connect\<close> stands for \<open>redisConnect\<close>: a null context, a context with an error text,
  or a connection. \<open>errstr\<close> reads the error text of a connection.
\<close>

datatype redis_reply =
    Reply_string string
  | Reply_status string
  | Reply_integer int
  | Reply_nil
  | Reply_array
  | Reply_error "string option"

type_synonym 'r redis_exec = "'r \<Rightarrow> string list \<Rightarrow> 'r \<times> redis_reply option"

record 'r redis =
  m_ctx :: "'r option"
  m_channel_prefix :: string
  m_key_prefix :: string

definition init_redis :: "'r redis" where
  "init_redis = \<lparr>m_ctx = None, m_channel_prefix = '''', m_key_prefix = ''''\<rparr>"

text \<open>
  \<open>run_command\<close> passes its text as the format of \<open>redisCommand\<close>: blanks separate the
  arguments, and a per cent sign asks for a variadic argument that was never passed.
\<close>

definition run_command :: "'r redis_exec \<Rightarrow> string \<Rightarrow> 'r \<Rightarrow> 'r may_ub" where
  "run_command exec command ctx =
     (if CHR ''%'' \<in> set command then Inl Bad_format
      else Inr (fst (exec ctx (filter (\<lambda>a. a \<noteq> '''') (split_on CHR '' '' command)))))"

definition value_or :: "string option \<Rightarrow> string \<Rightarrow> string" where
  "value_or x d = (case x of None \<Rightarrow> d | Some v \<Rightarrow> v)"

definition redis_on_load ::
  "'r redis_exec \<Rightarrow> (string \<Rightarrow> int \<Rightarrow> (string + 'r) option) \<Rightarrow> config \<Rightarrow> 'r redis \<Rightarrow>
   ('r redis \<times> effects) may_ub" where
  "redis_on_load exec connect cfg s =
     (let host_str = value_or (config_get cfg ''host'') ''localhost'';
          port_str = value_or (config_get cfg ''port'') ''6379'';
          password = value_or (config_get cfg ''password'') '''';
          db = value_or (config_get cfg ''db'') '''';
          s = s\<lparr>m_channel_prefix := value_or (config_get cfg ''channel_prefix'') '''',
                m_key_prefix := value_or (config_get cfg ''key_prefix'') ''''\<rparr>;
          port = (case stoi port_str of Inl _ \<Rightarrow> 6379 | Inr p \<Rightarrow> p);
          failed = (\<lambda>err. Inr (s\<lparr>m_ctx := None\<rparr>,
            [Log WARNING ''redis'',
             Publish ''redis.connect_failed''
               [(''host'', host_str), (''port'', show_int port), (''error'', err)]]))
      in case connect host_str port of
           None \<Rightarrow> failed ''null context''
         | Some (Inl err) \<Rightarrow> failed err
         | Some (Inr ctx) \<Rightarrow>
             bind_ub (if password \<noteq> '''' then run_command exec (''AUTH '' @ password) ctx else Inr ctx) (\<lambda>ctx.
             bind_ub (if db \<noteq> '''' then run_command exec (''SELECT '' @ db) ctx else Inr ctx) (\<lambda>ctx.
               Inr (s\<lparr>m_ctx := Some ctx\<rparr>, [Log DEBUG ''redis'']))))"

definition redis_on_unload :: "'r redis \<Rightarrow> 'r redis" where
  "redis_on_unload s = s\<lparr>m_ctx := None\<rparr>"

text \<open>
  The three cache operations. \<open>throws\<close> says that building the key runs out of memory, the only
  exception their try blocks meet; \<open>or_unknown\<close> is \<open>reply->str != nullptr ? ... : "unknown"\<close>.
\<close>

definition or_unknown :: "string option \<Rightarrow> string" where
  "or_unknown str = value_or str ''unknown''"

definition redis_get ::
  "'r redis_exec \<Rightarrow> ('r \<Rightarrow> string) \<Rightarrow> bool \<Rightarrow> string \<Rightarrow> 'r redis \<Rightarrow> 'r redis \<times> string \<times> effects" where
  "redis_get exec errstr throws key s =
     (case m_ctx s of
        None \<Rightarrow>
          (s, '''', [Log WARNING ''redis'', Publish ''redis.cache.get_skipped'' [(''key'', key)]])
      | Some ctx \<Rightarrow>
          if throws then
            (s, '''', [Log WARNING ''redis'', Publish ''redis.cache.get_exception'' [(''key'', key)]])
          else
            (let (ctx', reply) = exec ctx [''GET'', m_key_prefix s @ key];
                 s' = s\<lparr>m_ctx := Some ctx'\<rparr>
             in case reply of
                  None \<Rightarrow>
                    (s', '''', [Log WARNING ''redis'',
                      Publish ''redis.cache.get_failed'' [(''key'', key), (''error'', errstr ctx')]])
                | Some (Reply_string v) \<Rightarrow> (s', v, [])
                | Some (Reply_error e) \<Rightarrow>
                    (s', '''', [Log WARNING ''redis'',
                      Publish ''redis.cache.get_error'' [(''key'', key), (''error'', or_unknown e)]])
                | Some _ \<Rightarrow> (s', '''', [])))"

definition redis_set ::
  "'r redis_exec \<Rightarrow> ('r \<Rightarrow> string) \<Rightarrow> bool \<Rightarrow> string \<Rightarrow> string \<Rightarrow> 'r redis \<Rightarrow> 'r redis \<times> string \<times> effects" where
  "redis_set exec errstr throws key val s =
     (case m_ctx s of
        None \<Rightarrow>
          (s, '''', [Log WARNING ''redis'', Publish ''redis.cache.set_skipped'' [(''key'', key)]])
      | Some ctx \<Rightarrow>
          if throws then
            (s, '''', [Log WARNING ''redis'', Publish ''redis.cache.set_exception'' [(''key'', key)]])
          else
            (let (ctx', reply) = exec ctx [''SET'', m_key_prefix s @ key, val];
                 s' = s\<lparr>m_ctx := Some ctx'\<rparr>
             in case reply of
                  None \<Rightarrow>
                    (s', '''', [Log WARNING ''redis'',
                      Publish ''redis.cache.set_failed'' [(''key'', key), (''error'', errstr ctx')]])
                | Some (Reply_status _) \<Rightarrow> (s', ''ok'', [])
                | Some (Reply_error e) \<Rightarrow>
                    (s', '''', [Log WARNING ''redis'',
                      Publish ''redis.cache.set_error'' [(''key'', key), (''error'', or_unknown e)]])
                | Some _ \<Rightarrow> (s', '''', [])))"

definition redis_remove ::
  "'r redis_exec \<Rightarrow> ('r \<Rightarrow> string) \<Rightarrow> bool \<Rightarrow> string \<Rightarrow> 'r redis \<Rightarrow> 'r redis \<times> string \<times> effects" where
  "redis_remove exec errstr throws key s =
     (case m_ctx s of
        None \<Rightarrow>
          (s, '''', [Log WARNING ''redis'', Publish ''redis.cache.remove_skipped'' [(''key'', key)]])
      | Some ctx \<Rightarrow>
          if throws then
            (s, '''', [Log WARNING ''redis'', Publish ''redis.cache.remove_exception'' [(''key'', key)]])
          else
            (let (ctx', reply) = exec ctx [''DEL'', m_key_prefix s @ key];
                 s' = s\<lparr>m_ctx := Some ctx'\<rparr>
             in case reply of
                  None \<Rightarrow>
                    (s', '''', [Log WARNING ''redis'',
                      Publish ''redis.cache.remove_failed'' [(''key'', key), (''error'', errstr ctx')]])
                | Some (Reply_integer _) \<Rightarrow> (s', ''ok'', [])
                | Some (Reply_status _) \<Rightarrow> (s', ''ok'', [])
                | Some (Reply_error e) \<Rightarrow>
                    (s', '''', [Log WARNING ''redis'',
                      Publish ''redis.cache.remove_error'' [(''key'', key), (''error'', or_unknown e)]])
                | Some _ \<Rightarrow> (s', '''', [])))"

text \<open>\<open>publish\<close>: the three texts pass through \<open>%s\<close>, that is through \<open>c_str()\<close>.\<close>

definition redis_publish ::
  "'r redis_exec \<Rightarrow> bool \<Rightarrow> string \<Rightarrow> string \<Rightarrow> 'r redis \<Rightarrow> 'r redis \<times> effects" where
  "redis_publish exec throws event_name payload_json s =
     (case m_ctx s of
        None \<Rightarrow> (s, [Log WARNING ''redis''])
      | Some ctx \<Rightarrow>
          if throws then (s, [Log WARNING ''redis''])
          else
            (let (ctx', reply) = exec ctx
                   [''PUBLISH'', c_str (m_channel_prefix s) @ c_str event_name, c_str payload_json];
                 s' = s\<lparr>m_ctx := Some ctx'\<rparr>
             in case reply of
                  None \<Rightarrow> (s', [Log WARNING ''redis''])
                | Some (Reply_error _) \<Rightarrow> (s', [Log WARNING ''redis''])
                | Some _ \<Rightarrow> (s', [])))"

definition redis_class :: "'r redis plugin_class" where
  "redis_class = default_plugin
     \<lparr>c_name := (\<lambda>_. ''redis''), c_version := (\<lambda>_. ''0.1.0''),
      c_capabilities := (\<lambda>_. cap_bit RUN_EVENTS OR cap_bit RUN_CACHE),
      c_get := (\<lambda>t _. if t = RUN_EVENTS then 1 else if t = RUN_CACHE then 2 else 0)\<rparr>"

interpretation redis_caps: advertised redis_class
  by unfold_locales (rename_tac t p, case_tac t; simp add: redis_class_def bit.conj_disj_distrib2)

definition redis_ops :: "'r redis_exec \<Rightarrow> ('r \<Rightarrow> string) \<Rightarrow> 'r redis cache_ops" where
  "redis_ops exec errstr =
     \<lparr>get_fn = (\<lambda>k s. case redis_get exec errstr False k s of (s', r, _) \<Rightarrow> (s', r)),
      set_fn = (\<lambda>k v s. case redis_set exec errstr False k v s of (s', r, _) \<Rightarrow> (s', r)),
      remove_fn = (\<lambda>k s. case redis_remove exec errstr False k s of (s', r, _) \<Rightarrow> (s', r))\<rparr>"

text \<open>
  What the Redis documentation says of the three commands on a reachable server: \<open>data\<close> is the
  key space. \<open>GET\<close> answers a bulk string or nil, \<open>SET\<close> a status, \<open>DEL\<close> an integer.
\<close>

definition redis_laws :: "'r redis_exec \<Rightarrow> ('r \<Rightarrow> string \<Rightarrow> string option) \<Rightarrow> bool" where
  "redis_laws exec data \<longleftrightarrow>
     (\<forall>r k. exec r [''GET'', k] =
        (r, Some (case data r k of None \<Rightarrow> Reply_nil | Some v \<Rightarrow> Reply_string v))) \<and>
     (\<forall>r k v. data (fst (exec r [''SET'', k, v])) = (data r)(k \<mapsto> v) \<and>
        (\<exists>m. snd (exec r [''SET'', k, v]) = Some (Reply_status m))) \<and>
     (\<forall>r k. data (fst (exec r [''DEL'', k])) = (data r)(k := None) \<and>
        (\<exists>n. snd (exec r [''DEL'', k]) = Some (Reply_integer n)))"

definition redis_contents :: "('r \<Rightarrow> string \<Rightarrow> string option) \<Rightarrow> 'r redis \<Rightarrow> string \<Rightarrow> string option" where
  "redis_contents data s k =
     (case m_ctx s of None \<Rightarrow> None | Some r \<Rightarrow> data r (m_key_prefix s @ k))"

lemma redis_icache:
  assumes laws: "redis_laws exec data"
  shows "icache (redis_ops exec errstr) (\<lambda>s. m_ctx s \<noteq> None) (redis_contents data)"
proof
  fix s :: "'a redis" and k v
  assume "m_ctx s \<noteq> None"
  then obtain r where r: "m_ctx s = Some r" by blast
  let ?k = "m_key_prefix s @ k"
  have get: "exec r [''GET'', ?k] = (r, Some (case data r ?k of None \<Rightarrow> Reply_nil | Some v \<Rightarrow> Reply_string v))"
    using laws by (simp add: redis_laws_def)
  show "get_fn (redis_ops exec errstr) k s =
      (s, case redis_contents data s k of None \<Rightarrow> '''' | Some v \<Rightarrow> v)"
    using r get by (cases s) (simp add: redis_ops_def redis_get_def redis_contents_def split: option.splits)
  obtain r1 m where set: "exec r [''SET'', ?k, v] = (r1, Some (Reply_status m))"
      and d1: "data r1 = (data r)(?k \<mapsto> v)"
    using laws by (metis redis_laws_def prod.collapse)
  show "m_ctx (fst (set_fn (redis_ops exec errstr) k v s)) \<noteq> None \<and>
      redis_contents data (fst (set_fn (redis_ops exec errstr) k v s)) = (redis_contents data s)(k \<mapsto> v)"
    using r set d1 by (auto simp: redis_ops_def redis_set_def redis_contents_def fun_eq_iff)
  obtain r2 n where del: "exec r [''DEL'', ?k] = (r2, Some (Reply_integer n))"
      and d2: "data r2 = (data r)(?k := None)"
    using laws by (metis redis_laws_def prod.collapse)
  show "m_ctx (fst (remove_fn (redis_ops exec errstr) k s)) \<noteq> None \<and>
      redis_contents data (fst (remove_fn (redis_ops exec errstr) k s)) = (redis_contents data s)(k := None)"
    using r del d2 by (auto simp: redis_ops_def redis_remove_def redis_contents_def fun_eq_iff)
qed

section \<open>Properties of the cache backends\<close>

text \<open>
  C37: against a server that behaves as documented, the Redis backend is a map: a lookup after a
  write gives the written text, after a removal the empty text, and other keys are not
  disturbed, whatever the key prefix.
\<close>
theorem redis_cache_roundtrip:
  assumes "redis_laws exec data" "m_ctx s \<noteq> None"
  shows "snd (get_fn (redis_ops exec errstr) k' (fst (set_fn (redis_ops exec errstr) k v s))) =
      (if k' = k then v else snd (get_fn (redis_ops exec errstr) k' s)) \<and>
    snd (get_fn (redis_ops exec errstr) k' (fst (remove_fn (redis_ops exec errstr) k s))) =
      (if k' = k then '''' else snd (get_fn (redis_ops exec errstr) k' s))"
  using icache.get_after_set [OF redis_icache [OF assms(1)] assms(2)]
    icache.get_after_remove [OF redis_icache [OF assms(1)] assms(2)] by blast

text \<open>A server that keeps its data in an association list.\<close>

fun map_server :: "(string \<times> string) list redis_exec" where
  "map_server m [c, k] =
     (if c = ''GET'' then (m, Some (case map_of m k of None \<Rightarrow> Reply_nil | Some v \<Rightarrow> Reply_string v))
      else if c = ''DEL'' then (AList.delete k m, Some (Reply_integer (if map_of m k = None then 0 else 1)))
      else (m, Some (Reply_error None)))"
| "map_server m [c, k, v] =
     (if c = ''SET'' then (AList.update k v m, Some (Reply_status ''OK''))
      else (m, Some (Reply_error (Some ''unknown command''))))"
| "map_server m _ = (m, Some (Reply_error None))"

lemma map_server_laws: "redis_laws map_server map_of"
  by (auto simp: redis_laws_def update_conv' delete_conv' fun_eq_iff)

theorem redis_cache_roundtrip_witness:
  "snd (get_fn (redis_ops map_server (\<lambda>_. '''')) ''k'' (fst (set_fn (redis_ops map_server (\<lambda>_. '''')) ''k'' ''v''
     \<lparr>m_ctx = Some [], m_channel_prefix = '''', m_key_prefix = ''p:''\<rparr>))) = ''v''"
  using redis_cache_roundtrip [OF map_server_laws, of "\<lparr>m_ctx = Some [], m_channel_prefix = '''', m_key_prefix = ''p:''\<rparr>"
      "\<lambda>_. ''''" "''k''" "''k''" "''v''"] by simp

text \<open>
  With no live connection every Redis operation leaves the state alone, hands its callback
  the empty text and warns; the three cache operations also publish one event with the key.
\<close>
lemma redis_degrades:
  assumes "m_ctx s = None"
  shows "redis_get exec errstr throws k s =
      (s, '''', [Log WARNING ''redis'', Publish ''redis.cache.get_skipped'' [(''key'', k)]]) \<and>
    redis_set exec errstr throws k v s =
      (s, '''', [Log WARNING ''redis'', Publish ''redis.cache.set_skipped'' [(''key'', k)]]) \<and>
    redis_remove exec errstr throws k s =
      (s, '''', [Log WARNING ''redis'', Publish ''redis.cache.remove_skipped'' [(''key'', k)]]) \<and>
    redis_publish exec throws e j s = (s, [Log WARNING ''redis''])"
  using assms by (simp add: redis_get_def redis_set_def redis_remove_def redis_publish_def)

lemma redis_degrades_witness:
  "redis_publish map_server False ''e'' ''{}'' init_redis = (init_redis, [Log WARNING ''redis''])"
  using redis_degrades [of init_redis map_server "\<lambda>_. ''''" False "''k''" "''v''" "''e''" "''{}''"]
  by (simp add: init_redis_def)

text \<open>
  A configured password goes into the format text of the command: a per cent sign in it is
  undefined behaviour, and a blank in it splits the argument.
\<close>

lemma redis_password_percent:
  "redis_on_load map_server (\<lambda>_ _. Some (Inr [])) [(''password'', ''50%off'')] init_redis = Inl Bad_format"
  by (simp add: redis_on_load_def Let_def value_or_def run_command_def stoi_def strto_int_def
      is_space_def is_dec_def read_dec_def dec_val_def INT_MIN_def INT_MAX_def)

end
