(* ===== verification/Connector.thy ===== *)
theory Connector
  imports Cache
begin

text \<open>
  \<open>connector::Connector\<close> of include/connector/connector.cppm over one connectable type: the
  cache-aside lookup, the write-through of \<open>insert\<close>, \<open>update\<close> and \<open>upsert\<close>, the batch
  operations, and the pending queue with its wake protocol. The cache is any backend that keeps
  the \<open>ICache\<close> contract; the keys are those of \<open>serde::Cache\<close> of include/serde/cache.cppm.
\<close>

section \<open>Rows and codecs\<close>

text \<open>
  The reflected type: its table name, its primary key as a string, its JSON text (\<open>rfl::json\<close>,
  a third-party library) and the decoder of \<open>serde::Ser::deserialize\<close>, which is None where the
  text does not decode.
\<close>

record 'v codec =
  table_name :: string
  pk_string :: "'v \<Rightarrow> string"
  json_write :: "'v \<Rightarrow> string"
  json_read :: "string \<Rightarrow> 'v option"

definition cache_key :: "'v codec \<Rightarrow> string \<Rightarrow> string" where
  "cache_key T pk = table_name T @ CHR '':'' # pk"

definition cache_value :: "'v codec \<Rightarrow> 'v \<Rightarrow> string" where
  "cache_value T val = json_write T val"

lemma cache_key_inject: "cache_key T k = cache_key T k' \<longleftrightarrow> k = k'"
  by (simp add: cache_key_def)

text \<open>
  The database as the connector uses it: the statements it builds are named by what they ask
  for; a query answers with a text, empty for a failure or no row.
\<close>

record ('d, 'v) database =
  db_select :: "string \<Rightarrow> 'd \<Rightarrow> 'd \<times> string"
  db_write :: "'v \<Rightarrow> 'd \<Rightarrow> 'd \<times> string"
  db_write_many :: "'v list \<Rightarrow> 'd \<Rightarrow> 'd \<times> string"
  db_delete :: "string \<Rightarrow> 'd \<Rightarrow> 'd \<times> string"
  db_delete_many :: "string list \<Rightarrow> 'd \<Rightarrow> 'd \<times> string"

section \<open>The connector\<close>

text \<open>
  \<open>cn_db\<close> is the state of the configured database, None for a connector without one, whose
  rows live in \<open>cn_local\<close>, the local store of the type.
\<close>

record ('c, 'd, 'v) connector =
  cn_cache :: 'c
  cn_db :: "'d option"
  cn_local :: "(string \<times> 'v) list"

definition find ::
  "'c cache_ops \<Rightarrow> ('d, 'v) database \<Rightarrow> 'v codec \<Rightarrow> string \<Rightarrow> ('c, 'd, 'v) connector \<Rightarrow>
   ('c, 'd, 'v) connector \<times> 'v option" where
  "find ops D T key s =
     (let (c, cached_value) = get_fn ops (cache_key T key) (cn_cache s);
          s = s\<lparr>cn_cache := c\<rparr>;
          hit = (if cached_value \<noteq> '''' then json_read T cached_value else None)
      in case hit of
           Some v \<Rightarrow> (s, Some v)
         | None \<Rightarrow>
             (case cn_db s of
                None \<Rightarrow> (s, map_of (cn_local s) key)
              | Some d \<Rightarrow>
                  (let (d', db_result) = db_select D key d;
                       s = s\<lparr>cn_db := Some d'\<rparr>
                   in if db_result = '''' then (s, None)
                      else case json_read T db_result of
                        None \<Rightarrow> (s, None)
                      | Some decoded \<Rightarrow>
                          (s\<lparr>cn_cache := fst (set_fn ops (cache_key T key) (cache_value T decoded) (cn_cache s))\<rparr>,
                           Some decoded))))"

definition write_through ::
  "string \<Rightarrow> 'c cache_ops \<Rightarrow> ('d, 'v) database \<Rightarrow> 'v codec \<Rightarrow> 'v \<Rightarrow> ('c, 'd, 'v) connector \<Rightarrow>
   ('c, 'd, 'v) connector \<times> bool \<times> effects" where
  "write_through operation_name ops D T val s =
     (let s = s\<lparr>cn_cache := fst (set_fn ops (cache_key T (pk_string T val)) (cache_value T val) (cn_cache s))\<rparr>
      in case cn_db s of
           None \<Rightarrow>
             (s\<lparr>cn_local := AList.update (pk_string T val) val (cn_local s)\<rparr>, True,
              [Publish ''connector.write.completed'' [(''operation'', operation_name), (''backend'', ''local'')]])
         | Some d \<Rightarrow>
             (let (d', result) = db_write D val d;
                  ok = (result \<noteq> '''')
              in (s\<lparr>cn_db := Some d'\<rparr>, ok,
                  [Publish (if ok then ''connector.write.completed'' else ''connector.write.failed'')
                     [(''operation'', operation_name), (''backend'', ''database'')]])))"

definition insert_many ::
  "('d, 'v) database \<Rightarrow> 'v codec \<Rightarrow> 'v list \<Rightarrow> ('c, 'd, 'v) connector \<Rightarrow> ('c, 'd, 'v) connector \<times> bool" where
  "insert_many D T vals s =
     (case cn_db s of
        None \<Rightarrow> (s\<lparr>cn_local := fold (\<lambda>v. AList.update (pk_string T v) v) vals (cn_local s)\<rparr>, True)
      | Some d \<Rightarrow> (let (d', result) = db_write_many D vals d in (s\<lparr>cn_db := Some d'\<rparr>, result \<noteq> '''')))"

definition remove ::
  "'c cache_ops \<Rightarrow> ('d, 'v) database \<Rightarrow> 'v codec \<Rightarrow> string \<Rightarrow> ('c, 'd, 'v) connector \<Rightarrow>
   ('c, 'd, 'v) connector \<times> bool" where
  "remove ops D T key s =
     (let s = s\<lparr>cn_cache := fst (remove_fn ops (cache_key T key) (cn_cache s))\<rparr>
      in case cn_db s of
           None \<Rightarrow> (s\<lparr>cn_local := AList.delete key (cn_local s)\<rparr>, True)
         | Some d \<Rightarrow> (let (d', result) = db_delete D key d in (s\<lparr>cn_db := Some d'\<rparr>, result \<noteq> '''')))"

definition remove_many ::
  "'c cache_ops \<Rightarrow> ('d, 'v) database \<Rightarrow> 'v codec \<Rightarrow> string list \<Rightarrow> ('c, 'd, 'v) connector \<Rightarrow>
   ('c, 'd, 'v) connector \<times> bool" where
  "remove_many ops D T keys s =
     (let s = s\<lparr>cn_cache := fold (\<lambda>k c. fst (remove_fn ops (cache_key T k) c)) keys (cn_cache s)\<rparr>
      in case cn_db s of
           None \<Rightarrow> (s\<lparr>cn_local := fold AList.delete keys (cn_local s)\<rparr>, True)
         | Some d \<Rightarrow> (let (d', result) = db_delete_many D keys d in (s\<lparr>cn_db := Some d'\<rparr>, result \<noteq> '''')))"

definition find_many_local :: "string list \<Rightarrow> ('c, 'd, 'v) connector \<Rightarrow> 'v list" where
  "find_many_local keys s = List.map_filter (map_of (cn_local s)) keys"

definition find_all_local :: "('c, 'd, 'v) connector \<Rightarrow> 'v list" where
  "find_all_local s = map snd (cn_local s)"

section \<open>Coherence\<close>

text \<open>
  What the codec must give: a value decodes from its own text, and that text is not empty (it is
  a JSON object).
\<close>

definition codec_ok :: "'v codec \<Rightarrow> bool" where
  "codec_ok T \<longleftrightarrow> (\<forall>v. json_read T (json_write T v) = Some v \<and> json_write T v \<noteq> '''')"

text \<open>
  For writes it is enough that a value's text decodes to no other value; without a registered
  JSON format it does not decode at all.
\<close>

definition codec_sound :: "'v codec \<Rightarrow> bool" where
  "codec_sound T \<longleftrightarrow> (\<forall>v w. json_read T (json_write T v) = Some w \<longrightarrow> v = w)"

lemma codec_ok_sound: "codec_ok T \<Longrightarrow> codec_sound T"
  by (simp add: codec_ok_def codec_sound_def)

text \<open>
  What the database must give, with \<open>data\<close> its rows: a select answers the row's JSON text or
  the empty text, a write or a delete that answers a non-empty text took effect, and one that
  answers the empty text changed nothing.
\<close>

definition db_laws :: "'v codec \<Rightarrow> ('d, 'v) database \<Rightarrow> ('d \<Rightarrow> string \<Rightarrow> 'v option) \<Rightarrow> bool" where
  "db_laws T D data \<longleftrightarrow>
     (\<forall>k d. db_select D k d = (d, case data d k of None \<Rightarrow> '''' | Some v \<Rightarrow> json_write T v)) \<and>
     (\<forall>v d. data (fst (db_write D v d)) =
        (if snd (db_write D v d) = '''' then data d else (data d)(pk_string T v \<mapsto> v))) \<and>
     (\<forall>k d. data (fst (db_delete D k d)) =
        (if snd (db_delete D k d) = '''' then data d else (data d)(k := None)))"

lemma db_lawsD:
  assumes "db_laws T D data"
  shows "db_select D k d = (d, case data d k of None \<Rightarrow> '''' | Some v \<Rightarrow> json_write T v)"
    and "db_write D v d = (d', r) \<Longrightarrow> data d' = (if r = '''' then data d else (data d)(pk_string T v \<mapsto> v))"
    and "db_delete D k d = (d', r) \<Longrightarrow> data d' = (if r = '''' then data d else (data d)(k := None))"
  using assms unfolding db_laws_def by (blast, (metis fst_conv snd_conv)+)

text \<open>
  The rows of a connector: the database's where there is one, else the local store's. A
  connector is coherent if every decodable cached text is the row of its key.
\<close>

definition rows :: "('d \<Rightarrow> string \<Rightarrow> 'v option) \<Rightarrow> ('c, 'd, 'v) connector \<Rightarrow> string \<Rightarrow> 'v option" where
  "rows data s = (case cn_db s of None \<Rightarrow> map_of (cn_local s) | Some d \<Rightarrow> data d)"

definition coherent ::
  "('c \<Rightarrow> bool) \<Rightarrow> ('c \<Rightarrow> string \<Rightarrow> string option) \<Rightarrow> 'v codec \<Rightarrow> ('d \<Rightarrow> string \<Rightarrow> 'v option) \<Rightarrow>
   ('c, 'd, 'v) connector \<Rightarrow> bool" where
  "coherent up contents T data s \<longleftrightarrow> up (cn_cache s) \<and>
     (\<forall>key text v. contents (cn_cache s) (cache_key T key) = Some text \<and> text \<noteq> '''' \<and>
        json_read T text = Some v \<longrightarrow> rows data s key = Some v)"

text \<open>The client operations, and what they do to the rows.\<close>

datatype 'v conn_op = Find string | Write string 'v | Erase string

fun conn_step ::
  "'c cache_ops \<Rightarrow> ('d, 'v) database \<Rightarrow> 'v codec \<Rightarrow> 'v conn_op \<Rightarrow> ('c, 'd, 'v) connector \<Rightarrow>
   ('c, 'd, 'v) connector \<times> bool \<times> 'v option" where
  "conn_step ops D T (Find key) s = (let (s', r) = find ops D T key s in (s', True, r))"
| "conn_step ops D T (Write n v) s = (let (s', ok, _) = write_through n ops D T v s in (s', ok, None))"
| "conn_step ops D T (Erase key) s = (let (s', ok) = remove ops D T key s in (s', ok, None))"

fun spec_step :: "'v codec \<Rightarrow> 'v conn_op \<Rightarrow> (string \<Rightarrow> 'v option) \<Rightarrow> (string \<Rightarrow> 'v option) \<times> 'v option" where
  "spec_step T (Find key) m = (m, m key)"
| "spec_step T (Write n v) m = (m(pk_string T v \<mapsto> v), None)"
| "spec_step T (Erase key) m = (m(key := None), None)"

context icache
begin

lemma find_coherent:
  assumes "coherent up contents T data s" "codec_ok T" "db_laws T D data"
  shows "coherent up contents T data (fst (find ops D T key s)) \<and>
    rows data (fst (find ops D T key s)) = rows data s \<and>
    snd (find ops D T key s) = rows data s key"
proof -
  have g: "get_fn ops (cache_key T key) (cn_cache s) =
      (cn_cache s, case contents (cn_cache s) (cache_key T key) of None \<Rightarrow> '''' | Some v \<Rightarrow> v)"
    using assms(1) get_law by (simp add: coherent_def)
  have warm: "up (fst (set_fn ops (cache_key T key) t (cn_cache s)))"
    "contents (fst (set_fn ops (cache_key T key) t (cn_cache s))) = (contents (cn_cache s))(cache_key T key \<mapsto> t)" for t
    using assms(1) set_law by (simp_all add: coherent_def)
  show ?thesis
  proof (cases "\<exists>t v. contents (cn_cache s) (cache_key T key) = Some t \<and> t \<noteq> '''' \<and> json_read T t = Some v")
    case True
    then obtain t v where t: "contents (cn_cache s) (cache_key T key) = Some t" "t \<noteq> ''''" "json_read T t = Some v"
      by blast
    then have "rows data s key = Some v" using assms(1) unfolding coherent_def by blast
    moreover have "find ops D T key s = (s, Some v)" using g t by (cases s) (simp add: find_def)
    ultimately show ?thesis using assms(1) by simp
  next
    case False
    then have "(if snd (get_fn ops (cache_key T key) (cn_cache s)) \<noteq> ''''
        then json_read T (snd (get_fn ops (cache_key T key) (cn_cache s))) else None) = None"
      using g by (cases "contents (cn_cache s) (cache_key T key)") auto
    then show ?thesis
      using assms(1,2) g db_lawsD(1) [OF assms(3)] warm
      by (cases s) (auto simp: find_def coherent_def rows_def codec_ok_def cache_value_def Let_def
          cache_key_inject split: option.splits if_splits)
  qed
qed

lemma write_through_coherent:
  assumes "coherent up contents T data s" "codec_sound T" "db_laws T D data"
    "fst (snd (write_through n ops D T v s))"
  shows "coherent up contents T data (fst (write_through n ops D T v s)) \<and>
    rows data (fst (write_through n ops D T v s)) = (rows data s)(pk_string T v \<mapsto> v)"
  using assms(1,2,4) set_law [of "cn_cache s" "cache_key T (pk_string T v)" "cache_value T v"]
  by (auto simp: write_through_def coherent_def rows_def codec_sound_def cache_value_def cache_key_inject
      update_conv' Let_def split: if_splits option.splits prod.splits
      dest!: db_lawsD(2) [OF assms(3)])

lemma remove_coherent:
  assumes "coherent up contents T data s" "db_laws T D data"
  shows "coherent up contents T data (fst (remove ops D T key s)) \<and>
    (snd (remove ops D T key s) \<longrightarrow>
       rows data (fst (remove ops D T key s)) = (rows data s)(key := None))"
  using assms(1) remove_law [of "cn_cache s" "cache_key T key"]
  by (auto simp: remove_def coherent_def rows_def cache_key_inject delete_conv' Let_def
      split: if_splits option.splits prod.splits dest!: db_lawsD(3) [OF assms(2)])

lemma conn_step_refines:
  assumes "coherent up contents T data s" "codec_ok T" "db_laws T D data"
    "conn_step ops D T op s = (s', True, r)"
  shows "coherent up contents T data s' \<and> spec_step T op (rows data s) = (rows data s', r)"
proof (cases op)
  case (Find key)
  then show ?thesis
    using find_coherent [OF assms(1-3), of key] assms(4) by (simp split: prod.splits)
next
  case (Write n v)
  then show ?thesis
    using write_through_coherent [OF assms(1) codec_ok_sound [OF assms(2)] assms(3), of n v] assms(4) by (simp split: prod.splits)
next
  case (Erase key)
  then show ?thesis
    using remove_coherent [OF assms(1,3), of key] assms(4) by (simp split: prod.splits)
qed

end

section \<open>Runs of a connector\<close>

text \<open>
  A run of operations that report success, with what the lookups return; the specification runs
  the same operations on a map.
\<close>

inductive conn_run ::
  "'c cache_ops \<Rightarrow> ('d, 'v) database \<Rightarrow> 'v codec \<Rightarrow> ('c, 'd, 'v) connector \<Rightarrow> 'v conn_op list \<Rightarrow>
   'v option list \<Rightarrow> ('c, 'd, 'v) connector \<Rightarrow> bool" for ops D T where
  conn_Nil: "conn_run ops D T s [] [] s"
| conn_Cons: "conn_step ops D T op s = (s1, True, r) \<Longrightarrow> conn_run ops D T s1 os rs s' \<Longrightarrow>
     conn_run ops D T s (op # os) (r # rs) s'"

inductive_simps conn_run_simps:
  "conn_run ops D T s [] rs s'"
  "conn_run ops D T s (op # os) rs s'"

fun spec_run :: "'v codec \<Rightarrow> 'v conn_op list \<Rightarrow> (string \<Rightarrow> 'v option) \<Rightarrow> (string \<Rightarrow> 'v option) \<times> 'v option list" where
  "spec_run T [] m = (m, [])"
| "spec_run T (op # os) m =
     (let (m1, r) = spec_step T op m; (m2, rs) = spec_run T os m1 in (m2, r # rs))"

lemma conn_run_refines:
  assumes "icache ops up contents" "codec_ok T" "db_laws T D data"
  shows "conn_run ops D T s os rs s' \<Longrightarrow> coherent up contents T data s \<Longrightarrow>
    coherent up contents T data s' \<and> spec_run T os (rows data s) = (rows data s', rs)"
proof (induction rule: conn_run.induct)
  case (conn_Cons op s s1 r os rs s')
  have "coherent up contents T data s1 \<and> spec_step T op (rows data s) = (rows data s1, r)"
    using icache.conn_step_refines [OF assms(1) conn_Cons.prems assms(2,3) conn_Cons.hyps(1)] .
  then show ?case using conn_Cons.IH by simp
qed simp

section \<open>Properties of the connector\<close>


text \<open>
  The same over Redis, against a server that behaves as documented and a live connection.
\<close>
lemma connector_refines_map_redis:
  assumes "redis_laws exec rdata" "codec_ok T" "db_laws T D data"
    and "conn_run (redis_ops exec errstr) D T s os rs s'"
    and "coherent (\<lambda>c. m_ctx c \<noteq> None) (redis_contents rdata) T data s"
  shows "spec_run T os (rows data s) = (rows data s', rs)"
  using conn_run_refines [OF redis_icache [OF assms(1)] assms(2,3) assms(4,5)] by blast

text \<open>
  Rows that are numbers, keyed by their last digit, and a database of such rows that refuses 99.
\<close>

definition num_codec :: "nat codec" where
  "num_codec = \<lparr>table_name = ''t'', pk_string = (\<lambda>n. show_nat (n mod 10)), json_write = show_nat,
     json_read = (\<lambda>s. Some (nat (read_dec s)))\<rparr>"

definition num_db :: "((string \<times> nat) list, nat) database" where
  "num_db = \<lparr>db_select = (\<lambda>k d. (d, case map_of d k of None \<Rightarrow> '''' | Some v \<Rightarrow> show_nat v)),
     db_write = (\<lambda>v d. if v = 99 then (d, '''') else (AList.update (show_nat (v mod 10)) v d, ''ok'')),
     db_write_many = (\<lambda>vs d. (fold (\<lambda>v. AList.update (show_nat (v mod 10)) v) vs d, ''ok'')),
     db_delete = (\<lambda>k d. (AList.delete k d, ''ok'')),
     db_delete_many = (\<lambda>ks d. (fold AList.delete ks d, ''ok''))\<rparr>"

lemma num_codec_ok: "codec_ok num_codec"
  by (simp add: codec_ok_def num_codec_def read_dec_show_nat)

lemma num_db_laws: "db_laws num_codec num_db map_of"
  by (auto simp: db_laws_def num_db_def num_codec_def update_conv' delete_conv' split: option.splits)

definition empty_conn :: "'c \<Rightarrow> ('c, (string \<times> nat) list, nat) connector" where
  "empty_conn c = \<lparr>cn_cache = c, cn_db = Some [], cn_local = []\<rparr>"

lemma digit_simps:
  "show_nat 3 = ''3''" "show_nat 13 = ''13''" "show_nat 23 = ''23''" "show_nat 9 = ''9''" "show_nat 99 = ''99''"
  "read_dec ''13'' = 13" "read_dec ''23'' = 23" "read_dec ''99'' = 99"
  by (simp_all add: show_nat.simps dec_char_def char_of_def read_dec_def dec_val_def)

lemmas conn_defs = write_through_def find_def remove_def cache_key_def cache_value_def num_db_def
  num_codec_def empty_conn_def local_ops_def local_get_def local_set_def local_remove_def digit_simps


definition fresh_redis :: "(string \<times> string) list redis" where
  "fresh_redis = \<lparr>m_ctx = Some [], m_channel_prefix = '''', m_key_prefix = ''p''\<rparr>"

lemma connector_refines_map_redis_witness:
  "spec_run num_codec [Write ''insert'' 13, Find ''3'', Erase ''3'', Find ''3''] (rows map_of (empty_conn fresh_redis)) =
     (rows map_of (empty_conn fresh_redis), [None, Some 13, None, None])"
proof (rule connector_refines_map_redis [OF map_server_laws num_codec_ok num_db_laws])
  show "conn_run (redis_ops map_server (\<lambda>_. '''')) num_db num_codec (empty_conn fresh_redis)
      [Write ''insert'' 13, Find ''3'', Erase ''3'', Find ''3''] [None, Some 13, None, None] (empty_conn fresh_redis)"
    by (simp add: conn_run_simps conn_defs redis_ops_def redis_get_def redis_set_def redis_remove_def fresh_redis_def)
  show "coherent (\<lambda>c. m_ctx c \<noteq> None) (redis_contents map_of) num_codec map_of (empty_conn fresh_redis)"
    by (simp add: coherent_def empty_conn_def fresh_redis_def redis_contents_def)
qed

text \<open>
  Two ways out of coherence. A batch insert over a row that is cached leaves the old row in the
  cache, and a write that the database refuses stays in the cache, so that the next lookup
  returns a row that was never stored.
\<close>

lemma insert_many_leaves_stale_row:
  "let s = fst (write_through ''insert'' local_ops num_db num_codec 13 (empty_conn \<lparr>m_store = []\<rparr>));
       s' = fst (insert_many num_db num_codec [23] s)
   in snd (find local_ops num_db num_codec ''3'' s') = Some 13 \<and> rows map_of s' ''3'' = Some 23"
  by (simp add: conn_defs insert_many_def rows_def)

lemma refused_write_is_found:
  "let (s', ok, _) = write_through ''insert'' local_ops num_db num_codec 99 (empty_conn \<lparr>m_store = []\<rparr>)
   in \<not> ok \<and> rows map_of s' ''9'' = None \<and> snd (find local_ops num_db num_codec ''9'' s') = Some 99"
  by (simp add: conn_defs rows_def)

section \<open>The pending queue\<close>

text \<open>
  With a database, operations are queued and drained one at a time by the connector's contract.
  Any thread may enqueue between any two locked sections of \<open>on_execute\<close>; the contract itself
  runs on one thread at a time. \<open>q_pc\<close> is where that thread is: claimed but not yet in its
  first locked section, running the popped operation, or past its second locked section with
  what it read there. \<open>q_sched\<close> is the scheduled flag of the contract and \<open>q_fatal\<close> whether
  the contract was ever scheduled twice.
\<close>

datatype exec_pc = At_rest | Claimed | Running | Finishing bool

record queue =
  q_pending :: nat
  q_executing :: bool
  q_sched :: bool
  q_fatal :: bool
  q_pc :: exec_pc

definition init_queue :: queue where
  "init_queue = \<lparr>q_pending = 0, q_executing = False, q_sched = False, q_fatal = False, q_pc = At_rest\<rparr>"

definition q_schedule :: "queue \<Rightarrow> queue" where
  "q_schedule q = (if q_sched q then q\<lparr>q_fatal := True\<rparr> else q\<lparr>q_sched := True\<rparr>)"

definition enqueue :: "queue \<Rightarrow> queue" where
  "enqueue q =
     (let was_idle = (q_pending q = 0);
          q' = q\<lparr>q_pending := Suc (q_pending q)\<rparr>
      in if was_idle \<and> \<not> q_executing q then q_schedule q' else q')"

definition exec_pop :: "queue \<Rightarrow> queue" where
  "exec_pop q =
     (if q_pending q = 0 then q\<lparr>q_pc := At_rest\<rparr>
      else q\<lparr>q_pending := q_pending q - 1, q_executing := True, q_pc := Running\<rparr>)"

definition exec_done :: "queue \<Rightarrow> queue" where
  "exec_done q = q\<lparr>q_executing := False, q_pc := Finishing (q_pending q > 0)\<rparr>"

definition exec_finish :: "bool \<Rightarrow> queue \<Rightarrow> queue" where
  "exec_finish has_more q = (if has_more then q_schedule q else q)\<lparr>q_pc := At_rest\<rparr>"

inductive q_step :: "queue \<Rightarrow> queue \<Rightarrow> bool" where
  q_enqueue: "q_step q (enqueue q)"
| q_claim: "q_pc q = At_rest \<Longrightarrow> q_sched q \<Longrightarrow> q_step q (q\<lparr>q_sched := False, q_pc := Claimed\<rparr>)"
| q_pop: "q_pc q = Claimed \<Longrightarrow> q_step q (exec_pop q)"
| q_done: "q_pc q = Running \<Longrightarrow> q_step q (exec_done q)"
| q_finish: "q_pc q = Finishing h \<Longrightarrow> q_step q (exec_finish h q)"

definition queue_inv :: "queue \<Rightarrow> bool" where
  "queue_inv q \<longleftrightarrow> \<not> q_fatal q \<and> (q_executing q \<longleftrightarrow> q_pc q = Running) \<and>
     (q_sched q \<longrightarrow> q_pending q > 0 \<and> q_pc q \<in> {At_rest, Finishing False}) \<and>
     (q_pc q \<in> {Claimed, Finishing True} \<longrightarrow> q_pending q > 0) \<and>
     (q_pending q > 0 \<and> q_pc q \<in> {At_rest, Finishing False} \<longrightarrow> q_sched q)"

lemma queue_step_inv: "q_step q q' \<Longrightarrow> queue_inv q \<Longrightarrow> queue_inv q'"
proof (induction rule: q_step.induct)
  case (q_enqueue q)
  then show ?case
    by (cases "q_pc q"; cases "q_pending q = 0"; simp add: queue_inv_def enqueue_def q_schedule_def)
next
  case (q_claim q)
  then show ?case by (simp add: queue_inv_def)
next
  case (q_pop q)
  then show ?case by (simp add: queue_inv_def exec_pop_def)
next
  case (q_done q)
  then show ?case by (cases "q_pending q") (simp_all add: queue_inv_def exec_done_def)
next
  case (q_finish q h)
  then show ?case by (cases h) (simp_all add: queue_inv_def exec_finish_def q_schedule_def)
qed

text \<open>
  C19: whatever the interleaving of enqueues with the draining thread, the connector's contract is
  never scheduled while it is already scheduled, and no wake-up is lost: queued work is always
  scheduled or in the hands of the draining thread.
\<close>
theorem queue_never_sleeps_on_work:
  assumes "q_step\<^sup>*\<^sup>* init_queue q"
  shows "\<not> q_fatal q \<and> (q_pending q > 0 \<longrightarrow> q_sched q \<or> q_pc q \<in> {Claimed, Running, Finishing True})"
proof -
  have "queue_inv q"
    using assms
  proof (induction rule: rtranclp_induct)
    case base
    then show ?case by (simp add: queue_inv_def init_queue_def)
  next
    case (step q q')
    then show ?case by (blast intro: queue_step_inv)
  qed
  then show ?thesis
  proof (cases "q_pc q")
    case (Finishing h)
    with \<open>queue_inv q\<close> show ?thesis by (cases h) (simp_all add: queue_inv_def)
  qed (simp_all add: queue_inv_def)
qed

theorem queue_never_sleeps_on_work_witness:
  "\<not> q_fatal (enqueue (enqueue init_queue)) \<and> q_sched (enqueue (enqueue init_queue))"
proof -
  have "q_step\<^sup>*\<^sup>* init_queue (enqueue (enqueue init_queue))"
    by (intro rtranclp.rtrancl_into_rtrancl [OF rtranclp.rtrancl_into_rtrancl [OF rtranclp.rtrancl_refl]])
       (rule q_enqueue)+
  from queue_never_sleeps_on_work [OF this] show ?thesis
    by (simp add: enqueue_def init_queue_def q_schedule_def)
qed

end
