(* ===== verification/SignalTree.thy ===== *)
theory SignalTree
  imports Prelude
begin

text \<open>
  The ready set of the scheduler: \<open>Node<true>\<close> (a router of eight branches), \<open>Node<false>\<close> (a
  leaf of 64 bits) and \<open>SignalTree\<close> of include/core/contracts/signal_tree.cppm. A CAS loop is
  one atomic update; \<open>next\<close> is modelled on a tree that does not change while it scans.
\<close>

unbundle bit_operations_syntax

section \<open>Packed counters\<close>

text \<open>The 8-bit counter of branch \<open>i\<close> in a router's value, and its replacement.\<close>

definition byte_at :: "64 word \<Rightarrow> nat \<Rightarrow> 64 word" where
  "byte_at v i = drop_bit (i * 8) v AND mask 8"

definition set_byte :: "64 word \<Rightarrow> nat \<Rightarrow> 64 word \<Rightarrow> 64 word" where
  "set_byte v i c = (v AND NOT (push_bit (i * 8) (mask 8))) OR push_bit (i * 8) c"

lemma bit_byte_at: "bit (byte_at v i) n \<longleftrightarrow> n < 8 \<and> bit v (i * 8 + n)"
  by (auto simp: byte_at_def bit_simps)

lemma bit_64: "bit (v :: 64 word) n \<Longrightarrow> n < 64"
  using bit_imp_le_length [of v n] by simp

lemma bit_set_byte:
  assumes "i < 8" "\<And>n. bit c n \<Longrightarrow> n < 8"
  shows "bit (set_byte v i c) n \<longleftrightarrow>
    n < 64 \<and> (if i * 8 \<le> n \<and> n < i * 8 + 8 then bit c (n - i * 8) else bit v n)"
proof -
  have "bit c (n - i * 8) \<Longrightarrow> n < i * 8 + 8" using assms(2) [of "n - i * 8"] by linarith
  then show ?thesis
    using assms(1) bit_64 [of v n] by (auto simp: set_byte_def bit_simps)
qed

lemma take_byte: "take_bit 8 (c :: 64 word) = c \<longleftrightarrow> c < 256"
proof -
  have "take_bit 8 c = c \<longleftrightarrow> take_bit 8 (unat c) = unat c"
    by (metis unsigned_take_bit_eq word_unat_eq_iff)
  also have "\<dots> \<longleftrightarrow> c < 256" by (simp add: take_bit_nat_eq_self_iff word_less_nat_alt)
  finally show ?thesis .
qed

lemma byte_bits:
  assumes "c < 256" "bit (c :: 64 word) n"
  shows "n < 8"
proof -
  have "take_bit 8 c = c" using assms(1) by (simp add: take_byte)
  then show ?thesis using assms(2) by (metis bit_take_bit_iff)
qed

lemma byte_at_set_byte:
  assumes "i < 8" "j < 8" "c < 256"
  shows "byte_at (set_byte v i c) j = (if j = i then c else byte_at v j)"
proof (rule bit_eqI)
  fix n
  have c: "bit c m \<Longrightarrow> m < 8" for m using assms(3) by (rule byte_bits)
  have off: "n < 8 \<Longrightarrow> j \<noteq> i \<Longrightarrow> \<not> (i * 8 \<le> j * 8 + n \<and> j * 8 + n < i * 8 + 8)" by linarith
  show "bit (byte_at (set_byte v i c) j) n \<longleftrightarrow> bit (if j = i then c else byte_at v j) n"
    using assms(1,2) c [of n] off by (auto simp: bit_byte_at bit_set_byte [OF assms(1) c] dest: bit_64)
qed

lemma bytes_zero:
  assumes "\<forall>i < 8. byte_at v i = 0"
  shows "v = 0"
proof (rule bit_eqI)
  fix n
  have "\<not> bit v n"
  proof
    assume b: "bit v n"
    then have "n div 8 < 8" using bit_64 by fastforce
    moreover have "bit (byte_at v (n div 8)) (n mod 8)" using b by (simp add: bit_byte_at)
    ultimately show False using assms by simp
  qed
  then show "bit v n \<longleftrightarrow> bit 0 n" by simp
qed

lemma byte_at_0 [simp]: "byte_at 0 i = 0"
  by (simp add: byte_at_def)

lemma byte_at_less: "byte_at v i < 256"
proof -
  have "take_bit 8 (byte_at v i) = byte_at v i"
    by (rule bit_eqI) (auto simp: bit_take_bit_iff bit_byte_at)
  then show ?thesis by (simp add: take_byte)
qed

section \<open>Leaves and routers\<close>

type_synonym leaf = "64 word"

record router =
  r_value :: "64 word"
  r_children :: "leaf list"

definition init_router :: router where
  "init_router = \<lparr>r_value = 0, r_children = replicate 8 0\<rparr>"

definition leaf_schedule :: "nat \<Rightarrow> leaf \<Rightarrow> leaf" where
  "leaf_schedule local_id v = v OR push_bit (local_id mod 64) 1"

definition leaf_deschedule :: "nat \<Rightarrow> leaf \<Rightarrow> leaf" where
  "leaf_deschedule local_id v = v AND NOT (push_bit (local_id mod 64) 1)"

definition router_schedule :: "nat \<Rightarrow> router \<Rightarrow> router" where
  "router_schedule local_id r =
     (let b = local_id div 64 mod 8;
          count = byte_at (r_value r) b;
          v = (if count \<ge> 64 then r_value r else set_byte (r_value r) b (count + 1))
      in \<lparr>r_value = v, r_children = (r_children r)[b := leaf_schedule (local_id mod 64) (r_children r ! b)]\<rparr>)"

definition router_deschedule :: "nat \<Rightarrow> router \<Rightarrow> router" where
  "router_deschedule local_id r =
     (let b = local_id div 64 mod 8;
          count = byte_at (r_value r) b;
          v = (if count = 0 then r_value r else set_byte (r_value r) b (count - 1))
      in \<lparr>r_value = v, r_children = (r_children r)[b := leaf_deschedule (local_id mod 64) (r_children r ! b)]\<rparr>)"

text \<open>
  \<open>std::countr_zero\<close> of a non-zero value: the position of its lowest set bit.
\<close>

definition countr_zero :: "64 word \<Rightarrow> nat" where
  "countr_zero v = length (takeWhile (\<lambda>i. \<not> bit v i) [0..<64])"

text \<open>The leaf case of \<open>select_child_index\<close>; None stands for \<open>std::nullopt\<close>.\<close>

definition leaf_select :: "leaf \<Rightarrow> 64 word \<Rightarrow> nat \<Rightarrow> nat option \<times> 64 word" where
  "leaf_select v bias accumulator =
     (if v = 0 then (None, bias)
      else let start = unat (bias AND mask 6);
               rotated = word_rotr start v;
               bit_idx = (start + countr_zero rotated) mod 64
           in (Some (accumulator * 64 + bit_idx),
               (bias AND NOT (mask 6)) OR word_of_nat ((bit_idx + 1) mod 64)))"

text \<open>\<open>calculate_bias\<close>: the chosen index, the new bias and the shifted bias bit.\<close>

function calculate_bias ::
  "64 word \<Rightarrow> 64 word \<Rightarrow> 64 word \<Rightarrow> nat \<Rightarrow> nat \<Rightarrow> nat \<times> 64 word \<times> 64 word" where
  "calculate_bias val bias bias_bit blocks base_shift =
     (let prefer_right = (bias AND bias_bit \<noteq> 0);
          mask_lower = push_bit (base_shift * 8) (push_bit (blocks * 8) 1 - 1);
          right_half = val AND mask_lower;
          left_half = drop_bit (blocks * 8) (val AND NOT mask_lower);
          choose_right = ((prefer_right \<and> right_half \<noteq> 0) \<or> left_half = 0)
      in if choose_right then
           (let bias = bias AND NOT bias_bit; bias_bit = drop_bit 1 bias_bit
            in if blocks > 1 then calculate_bias right_half bias bias_bit (blocks div 2) base_shift
               else (0, bias, bias_bit))
         else
           (let bias = bias OR bias_bit; bias_bit = drop_bit 1 bias_bit
            in if blocks > 1 then
                 (let (idx, bias, bias_bit) =
                    calculate_bias left_half bias bias_bit (blocks div 2) (base_shift + blocks)
                  in (idx + blocks, bias, bias_bit))
               else (1, bias, bias_bit)))"
  by pat_completeness auto
termination
  by (relation "measure (\<lambda>(val, bias, bias_bit, blocks, base_shift). blocks)") auto

declare calculate_bias.simps [simp del]

text \<open>
  The router case: the preferred branch first, then every other branch whose counter is not
  zero.
\<close>

fun scan_branches :: "64 word \<Rightarrow> leaf list \<Rightarrow> nat \<Rightarrow> nat list \<Rightarrow> 64 word \<Rightarrow> nat \<Rightarrow> nat option \<times> 64 word" where
  "scan_branches val children idx [] bias acc = (None, bias)"
| "scan_branches val children idx (i # is) bias acc =
     (if i = idx \<or> byte_at val i = 0 then scan_branches val children idx is bias acc
      else case leaf_select (children ! i) bias (acc * 8 + i) of
             (Some r, bias') \<Rightarrow> (Some r, bias')
           | (None, bias') \<Rightarrow> scan_branches val children idx is bias' acc)"

definition router_select :: "router \<Rightarrow> 64 word \<Rightarrow> nat \<Rightarrow> 64 word \<Rightarrow> nat option \<times> 64 word" where
  "router_select r bias acc bias_bit =
     (if r_value r = 0 then (None, bias)
      else let (idx, bias, bias_bit) = calculate_bias (r_value r) bias bias_bit 4 0
           in case leaf_select (r_children r ! idx) bias (acc * 8 + idx) of
                (Some res, bias') \<Rightarrow> (Some res, bias')
              | (None, bias') \<Rightarrow> scan_branches (r_value r) (r_children r) idx [0..<8] bias' acc)"

section \<open>The tree\<close>

definition BIAS_FLAG :: "64 word" where "BIAS_FLAG = push_bit 63 1"

datatype tree_error = Out_of_range | Capacity_reached

record signal_tree =
  m_routers :: "router list"
  m_next_id :: nat

definition max_capacity :: "signal_tree \<Rightarrow> nat" where
  "max_capacity t = length (m_routers t) * 512"

definition init_tree :: "nat \<Rightarrow> signal_tree" where
  "init_tree num_routers = \<lparr>m_routers = replicate num_routers init_router, m_next_id = 0\<rparr>"

definition tree_schedule :: "nat \<Rightarrow> signal_tree \<Rightarrow> tree_error + signal_tree" where
  "tree_schedule contract_id t =
     (if contract_id \<ge> max_capacity t then Inl Out_of_range
      else let i = contract_id div 512
           in Inr (t\<lparr>m_routers := (m_routers t)[i := router_schedule (contract_id mod 512) (m_routers t ! i)]\<rparr>))"

definition tree_deschedule :: "nat \<Rightarrow> signal_tree \<Rightarrow> tree_error + signal_tree" where
  "tree_deschedule contract_id t =
     (if contract_id \<ge> max_capacity t then Inl Out_of_range
      else let i = contract_id div 512
           in Inr (t\<lparr>m_routers := (m_routers t)[i := router_deschedule (contract_id mod 512) (m_routers t ! i)]\<rparr>))"

definition free_contract_id :: "signal_tree \<Rightarrow> tree_error + (signal_tree \<times> nat)" where
  "free_contract_id t =
     (if m_next_id t \<ge> max_capacity t then Inl Capacity_reached
      else Inr (t\<lparr>m_next_id := Suc (m_next_id t)\<rparr>, m_next_id t))"

fun next_routers :: "router list \<Rightarrow> nat list \<Rightarrow> 64 word \<Rightarrow> nat option \<times> 64 word" where
  "next_routers rs [] bias = (None, bias)"
| "next_routers rs (i # is) bias =
     (case router_select (rs ! i) bias i (drop_bit 1 BIAS_FLAG) of
        (Some r, bias') \<Rightarrow> (Some r, bias' XOR BIAS_FLAG)
      | (None, bias') \<Rightarrow> next_routers rs is bias')"

definition tree_next :: "signal_tree \<Rightarrow> 64 word \<Rightarrow> nat option \<times> 64 word" where
  "tree_next t bias =
     (let order = [0..<length (m_routers t)]
      in next_routers (m_routers t) (if bias AND BIAS_FLAG \<noteq> 0 then rev order else order) bias)"

section \<open>Selecting in a leaf\<close>

lemma nonzero_bit:
  assumes "v \<noteq> (0 :: 64 word)"
  obtains n where "bit v n" "n < 64"
  using assms bit_64 by (metis bit_0_eq bot_apply bit_eqI bot_bool_def)

lemma countr_zero_props:
  assumes "v \<noteq> 0"
  shows "countr_zero v < 64" "bit v (countr_zero v)" "i < countr_zero v \<Longrightarrow> \<not> bit v i"
proof -
  let ?P = "\<lambda>i. \<not> bit v i"
  obtain n where n: "bit v n" "n < 64" using nonzero_bit [OF assms] .
  then have "takeWhile ?P [0..<64] \<noteq> [0..<64]" by (auto simp: takeWhile_eq_all_conv)
  then show len: "countr_zero v < 64"
    unfolding countr_zero_def
    by (metis diff_zero le_neq_implies_less length_takeWhile_le length_upt takeWhile_eq_take take_all order_refl)
  show "bit v (countr_zero v)"
    using nth_length_takeWhile [of ?P "[0..<64]"] len by (simp add: countr_zero_def)
  show "i < countr_zero v \<Longrightarrow> \<not> bit v i"
    using nth_mem [of i "takeWhile ?P [0..<64]"] len
    by (auto simp: countr_zero_def takeWhile_nth dest: set_takeWhileD)
qed

lemma leaf_select_None: "fst (leaf_select v bias acc) = None \<longleftrightarrow> v = 0"
  by (simp add: leaf_select_def Let_def)

text \<open>
  The bit a leaf selects: the first one set at or after the cursor, cyclically; the cursor moves
  just past it.
\<close>

lemma unat_mask6: "unat (bias AND mask 6 :: 64 word) = unat bias mod 64"
proof -
  have "unat (take_bit 6 bias) = take_bit 6 (unat bias)" by (rule unsigned_take_bit_eq)
  also have "\<dots> = unat bias mod 64" by (simp add: take_bit_eq_mod)
  finally show ?thesis by (simp only: take_bit_eq_mask)
qed

lemma leaf_select_first:
  assumes "v \<noteq> 0"
  obtains d where "d < 64" "bit v ((unat bias mod 64 + d) mod 64)"
    "\<And>e. e < d \<Longrightarrow> \<not> bit v ((unat bias mod 64 + e) mod 64)"
    "fst (leaf_select v bias acc) = Some (acc * 64 + (unat bias mod 64 + d) mod 64)"
    "unat (snd (leaf_select v bias acc)) mod 64 = (unat bias mod 64 + d + 1) mod 64"
proof -
  define start where "start = unat bias mod 64"
  define w where "w = word_rotr start v"
  have len64: "LENGTH(64) = 64" by simp
  have bw: "bit w n \<longleftrightarrow> n < 64 \<and> bit v ((start + n) mod 64)" for n
    using bit_word_rotr_iff [of start v n] unfolding w_def len64 by (simp only: add.commute)
  obtain n where n: "bit v n" "n < 64" using nonzero_bit [OF assms] .
  have "start < 64" by (simp add: start_def)
  then have "(start + (n + 64 - start) mod 64) mod 64 = n" using n(2) by (simp add: mod_simps)
  then have "bit w ((n + 64 - start) mod 64)" using n(1) by (simp only: bw) simp
  then have "w \<noteq> 0" by auto
  note d = countr_zero_props [OF this]
  define d where "d = countr_zero w"
  have low: "unat ((bias AND NOT (mask 6)) OR word_of_nat k :: 64 word) mod 64 = k" if "k < 64" for k
  proof -
    have "take_bit 6 ((bias AND NOT (mask 6)) OR word_of_nat k :: 64 word) = word_of_nat k"
    proof (rule bit_eqI)
      fix n
      have "take_bit 6 k = k" using that by (simp add: take_bit_nat_eq_self)
      then have "bit k n \<Longrightarrow> n < 6" by (metis bit_take_bit_iff)
      then have "bit (word_of_nat k :: 64 word) n \<Longrightarrow> n < 6" by (simp add: bit_simps)
      then show "bit (take_bit 6 ((bias AND NOT (mask 6)) OR word_of_nat k)) n \<longleftrightarrow> bit (word_of_nat k :: 64 word) n"
        by (auto simp: bit_simps)
    qed
    then have "take_bit 6 (unat ((bias AND NOT (mask 6)) OR word_of_nat k :: 64 word)) = unat (word_of_nat k :: 64 word)"
      by (metis unsigned_take_bit_eq)
    then show ?thesis using that by (simp add: take_bit_eq_mod unat_of_nat)
  qed
  show ?thesis
  proof (rule that [of d])
    show "d < 64" "bit v ((unat bias mod 64 + d) mod 64)"
      using d bw by (auto simp: d_def start_def)
    show "\<not> bit v ((unat bias mod 64 + e) mod 64)" if "e < d" for e
      using d(3) [of e] bw [of e] that d(1) by (auto simp: d_def start_def)
    have sel: "leaf_select v bias acc = (Some (acc * 64 + (start + d) mod 64),
        (bias AND NOT (mask 6)) OR word_of_nat (((start + d) mod 64 + 1) mod 64))"
      using assms by (simp add: leaf_select_def Let_def unat_mask6 start_def w_def d_def)
    then show "fst (leaf_select v bias acc) = Some (acc * 64 + (unat bias mod 64 + d) mod 64)"
      by (simp add: start_def)
    have "unat (snd (leaf_select v bias acc)) mod 64 = ((start + d) mod 64 + 1) mod 64"
      unfolding sel snd_conv by (rule low) simp
    then show "unat (snd (leaf_select v bias acc)) mod 64 = (unat bias mod 64 + d + 1) mod 64"
      by (simp only: mod_add_left_eq start_def [symmetric])
  qed
qed

section \<open>Selecting in a router\<close>

lemma calculate_bias_bound:
  "0 < blocks \<Longrightarrow> fst (calculate_bias val bias bias_bit blocks base_shift) < 2 * blocks"
proof (induction val bias bias_bit blocks base_shift rule: calculate_bias.induct)
  case (1 val bias bias_bit blocks base_shift)
  show ?case
  proof (cases "blocks > 1")
    case True
    then have "0 < blocks div 2" "2 * (blocks div 2) \<le> blocks" by simp_all
    then show ?thesis
      using 1 True
      by (subst calculate_bias.simps) (fastforce simp: Let_def split: prod.splits)
  next
    case False
    then show ?thesis using 1 by (subst calculate_bias.simps) (simp add: Let_def)
  qed
qed

lemma leaf_select_sound:
  assumes "fst (leaf_select v bias acc) = Some x"
  shows "\<exists>b < 64. x = acc * 64 + b \<and> bit v b"
proof -
  have "v \<noteq> 0" using assms leaf_select_None [of v bias acc] by auto
  then show ?thesis
    by (rule leaf_select_first [of v bias acc]) (use assms in auto)
qed

lemma scan_branches_sound:
  "fst (scan_branches val ls idx is bias acc) = Some x \<Longrightarrow>
     \<exists>i \<in> set is. \<exists>b < 64. x = (acc * 8 + i) * 64 + b \<and> bit (ls ! i) b"
proof (induction "is" arbitrary: bias)
  case (Cons i "is")
  show ?case
  proof (cases "i = idx \<or> byte_at val i = 0 \<or> ls ! i = 0")
    case True
    then obtain bias' where "fst (scan_branches val ls idx is bias' acc) = Some x"
      using Cons.prems by (auto simp: leaf_select_def split: if_splits)
    then show ?thesis using Cons.IH by fastforce
  next
    case False
    then have "fst (leaf_select (ls ! i) bias (acc * 8 + i)) = Some x"
      using Cons.prems leaf_select_None [of "ls ! i" bias "acc * 8 + i"] by (auto split: prod.splits option.splits)
    from leaf_select_sound [OF this] show ?thesis by auto
  qed
qed simp

lemma scan_branches_complete:
  "i \<in> set is \<Longrightarrow> i \<noteq> idx \<Longrightarrow> byte_at val i \<noteq> 0 \<Longrightarrow> ls ! i \<noteq> 0 \<Longrightarrow>
     fst (scan_branches val ls idx is bias acc) \<noteq> None"
proof (induction "is" arbitrary: bias)
  case (Cons j "is")
  show ?case
  proof (cases "j = idx \<or> byte_at val j = 0 \<or> ls ! j = 0")
    case True
    then have "i \<in> set is" using Cons.prems by auto
    then show ?thesis using Cons True by (auto simp: leaf_select_def)
  next
    case False
    then show ?thesis
      using leaf_select_None [of "ls ! j" bias "acc * 8 + j"] by (auto split: prod.splits option.splits)
  qed
qed simp

text \<open>
  What a router promises: eight leaves, each counter the number of bits set in its leaf.
\<close>

definition popcount :: "64 word \<Rightarrow> nat" where
  "popcount v = card {n. bit v n}"

definition router_inv :: "router \<Rightarrow> bool" where
  "router_inv r \<longleftrightarrow> length (r_children r) = 8 \<and>
     (\<forall>i < 8. unat (byte_at (r_value r) i) = popcount (r_children r ! i))"

lemma finite_bits [simp]: "finite {n. bit (v :: 64 word) n}"
  by (rule finite_subset [of _ "{..<64}"]) (auto dest: bit_64)

lemma popcount_0_iff: "popcount v = 0 \<longleftrightarrow> v = 0"
  using nonzero_bit [of v] by (auto simp: popcount_def)

lemma router_select_spec:
  assumes inv: "router_inv r"
  shows "case fst (router_select r bias acc bias_bit) of
      None \<Rightarrow> \<forall>i < 8. r_children r ! i = 0
    | Some x \<Rightarrow> \<exists>i < 8. \<exists>b < 64. x = (acc * 8 + i) * 64 + b \<and> bit (r_children r ! i) b"
proof -
  have nz: "byte_at (r_value r) i \<noteq> 0" if "i < 8" "r_children r ! i \<noteq> 0" for i
    using inv that popcount_0_iff [of "r_children r ! i"] by (auto simp: router_inv_def)
  obtain idx bias1 bb where cb: "calculate_bias (r_value r) bias bias_bit 4 0 = (idx, bias1, bb)"
    by (rule prod_cases3)
  have idx: "idx < 8" using calculate_bias_bound [of 4 "r_value r" bias bias_bit 0] cb by simp
  show ?thesis
  proof (cases "r_value r = 0")
    case True
    then show ?thesis using nz by (auto simp: router_select_def)
  next
    case False
    note sel = leaf_select_None [of "r_children r ! idx" bias1 "acc * 8 + idx"]
    show ?thesis
    proof (cases "fst (leaf_select (r_children r ! idx) bias1 (acc * 8 + idx))")
      case (Some x)
      then have "fst (router_select r bias acc bias_bit) = Some x"
        using False cb by (auto simp: router_select_def split: prod.splits option.splits)
      then show ?thesis using leaf_select_sound [OF Some] idx by auto
    next
      case None
      then have z: "r_children r ! idx = 0" using sel by simp
      have rs: "router_select r bias acc bias_bit =
          scan_branches (r_value r) (r_children r) idx [0..<8] bias1 acc"
        using False cb z by (simp add: router_select_def leaf_select_def)
      show ?thesis
      proof (cases "fst (router_select r bias acc bias_bit)")
        case (Some x)
        then show ?thesis using scan_branches_sound rs by fastforce
      next
        case none: None
        have "r_children r ! i = 0" if "i < 8" for i
          using scan_branches_complete [of i "[0..<8]" idx "r_value r" "r_children r" bias1 acc]
            none rs z nz that by fastforce
        then show ?thesis using none by simp
      qed
    qed
  qed
qed

section \<open>Scheduling and descheduling\<close>

lemma bit_leaf_schedule: "bit (leaf_schedule k v) n \<longleftrightarrow> bit v n \<or> n = k mod 64"
  using bit_64 [of v n] by (auto simp: leaf_schedule_def bit_simps)

lemma bit_leaf_deschedule: "bit (leaf_deschedule k v) n \<longleftrightarrow> bit v n \<and> n \<noteq> k mod 64"
  using bit_64 [of v n] by (auto simp: leaf_deschedule_def bit_simps)

lemma popcount_schedule:
  assumes "\<not> bit v (k mod 64)"
  shows "popcount (leaf_schedule k v) = Suc (popcount v)" "popcount v < 64"
proof -
  have "{n. bit (leaf_schedule k v) n} = insert (k mod 64) {n. bit v n}"
    by (auto simp: bit_leaf_schedule)
  then show "popcount (leaf_schedule k v) = Suc (popcount v)" using assms by (simp add: popcount_def)
  have "{n. bit v n} \<subseteq> {..<64} - {k mod 64}" using assms by (auto dest: bit_64)
  then have "popcount v \<le> card ({..<64} - {k mod 64})" unfolding popcount_def by (rule card_mono [rotated]) simp
  then show "popcount v < 64" by simp
qed

lemma popcount_deschedule:
  assumes "bit v (k mod 64)"
  shows "popcount (leaf_deschedule k v) = popcount v - 1"
proof -
  have "{n. bit (leaf_deschedule k v) n} = {n. bit v n} - {k mod 64}"
    by (auto simp: bit_leaf_deschedule)
  then show ?thesis using assms by (simp add: popcount_def)
qed

lemma unat_succ_byte: "unat (c :: 64 word) < 64 \<Longrightarrow> unat (c + 1) = Suc (unat c)"
  by (simp add: unat_word_ariths)

lemma unat_pred_byte: "(c :: 64 word) \<noteq> 0 \<Longrightarrow> unat (c - 1) = unat c - 1"
  by (simp add: unat_minus_one)

definition router_bit :: "router \<Rightarrow> nat \<Rightarrow> bool" where
  "router_bit r k \<longleftrightarrow> bit (r_children r ! (k div 64)) (k mod 64)"

lemma same_id: "(j::nat) div m = k div m \<Longrightarrow> j mod m = k mod m \<Longrightarrow> j = k"
  by (metis div_mult_mod_eq)

lemma router_schedule_inv:
  assumes inv: "router_inv r" and k: "k < 512" and free: "\<not> router_bit r k"
  shows "router_inv (router_schedule k r)"
    and "j < 512 \<Longrightarrow> router_bit (router_schedule k r) j \<longleftrightarrow> router_bit r j \<or> j = k"
proof -
  define b where "b = k div 64"
  define count where "count = byte_at (r_value r) b"
  have b: "b < 8" "k div 64 mod 8 = b" using k by (simp_all add: b_def)
  have pc: "popcount (leaf_schedule (k mod 64) (r_children r ! b)) = Suc (popcount (r_children r ! b))"
    "popcount (r_children r ! b) < 64"
    using popcount_schedule [of "r_children r ! b" "k mod 64"] free by (simp_all add: router_bit_def b_def)
  then have c: "unat count < 64" using inv b by (simp add: router_inv_def count_def)
  then have "\<not> count \<ge> 64" "count + 1 < 256"
    using unat_succ_byte [OF c] by (simp_all add: word_le_nat_alt word_less_nat_alt)
  then have rs: "router_schedule k r = \<lparr>r_value = set_byte (r_value r) b (count + 1),
      r_children = (r_children r)[b := leaf_schedule (k mod 64) (r_children r ! b)]\<rparr>"
    and c': "count + 1 < 256"
    by (simp_all add: router_schedule_def b count_def Let_def)
  have len: "length (r_children r) = 8" using inv by (simp add: router_inv_def)
  have uc: "unat count = popcount (r_children r ! b)" using inv b by (simp add: router_inv_def count_def)
  show "router_inv (router_schedule k r)"
    using inv b(1) pc(1) unat_succ_byte [OF c] uc
    by (auto simp: router_inv_def rs byte_at_set_byte [OF b(1) _ c'] nth_list_update)
  show "router_bit (router_schedule k r) j \<longleftrightarrow> router_bit r j \<or> j = k" if "j < 512"
    using that len k same_id [of j 64 k]
    by (auto simp: router_bit_def rs nth_list_update bit_leaf_schedule b_def)
qed

lemma router_deschedule_inv:
  assumes inv: "router_inv r" and k: "k < 512" and used: "router_bit r k"
  shows "router_inv (router_deschedule k r)"
    and "j < 512 \<Longrightarrow> router_bit (router_deschedule k r) j \<longleftrightarrow> router_bit r j \<and> j \<noteq> k"
proof -
  define b where "b = k div 64"
  define count where "count = byte_at (r_value r) b"
  have b: "b < 8" "k div 64 mod 8 = b" using k by (simp_all add: b_def)
  have set: "bit (r_children r ! b) (k mod 64)" using used by (simp add: router_bit_def b_def)
  then have pc: "popcount (leaf_deschedule (k mod 64) (r_children r ! b)) = popcount (r_children r ! b) - 1"
    using popcount_deschedule [of "r_children r ! b" "k mod 64"] by simp
  have "r_children r ! b \<noteq> 0" using set by auto
  then have nz: "count \<noteq> 0"
    using inv b popcount_0_iff [of "r_children r ! b"] by (auto simp: router_inv_def count_def)
  have "unat (count - 1) < 256"
    using unat_pred_byte [OF nz] byte_at_less [of "r_value r" b] by (simp add: count_def word_less_nat_alt)
  then have c': "count - 1 < 256" by (simp add: word_less_nat_alt)
  have rs: "router_deschedule k r = \<lparr>r_value = set_byte (r_value r) b (count - 1),
      r_children = (r_children r)[b := leaf_deschedule (k mod 64) (r_children r ! b)]\<rparr>"
    using nz by (simp add: router_deschedule_def b count_def Let_def)
  have len: "length (r_children r) = 8" using inv by (simp add: router_inv_def)
  have uc: "unat count = popcount (r_children r ! b)" using inv b by (simp add: router_inv_def count_def)
  show "router_inv (router_deschedule k r)"
    using inv b(1) pc unat_pred_byte [OF nz] uc
    by (auto simp: router_inv_def rs byte_at_set_byte [OF b(1) _ c'] nth_list_update)
  show "router_bit (router_deschedule k r) j \<longleftrightarrow> router_bit r j \<and> j \<noteq> k" if "j < 512"
    using that len k same_id [of j 64 k]
    by (auto simp: router_bit_def rs nth_list_update bit_leaf_deschedule b_def)
qed

section \<open>The tree as a set of ids\<close>

definition ready :: "signal_tree \<Rightarrow> nat set" where
  "ready t = {k. k < max_capacity t \<and> router_bit (m_routers t ! (k div 512)) (k mod 512)}"

definition tree_inv :: "signal_tree \<Rightarrow> bool" where
  "tree_inv t \<longleftrightarrow> (\<forall>r \<in> set (m_routers t). router_inv r)"

lemma init_tree_inv: "tree_inv (init_tree n)" "ready (init_tree n) = {}"
proof -
  show "tree_inv (init_tree n)"
    by (auto simp: tree_inv_def init_tree_def init_router_def router_inv_def popcount_def)
  have "k div 512 < n" if "k < n * 512" for k using that by (simp add: div_less_iff_less_mult)
  then show "ready (init_tree n) = {}"
    by (auto simp: ready_def init_tree_def init_router_def router_bit_def max_capacity_def)
qed

lemma tree_update:
  assumes "tree_inv t" "k < max_capacity t" "router_inv r'"
    and upd: "\<And>j. j < 512 \<Longrightarrow> router_bit r' j \<longleftrightarrow> P j"
    and P: "\<And>j. j < max_capacity t \<Longrightarrow> j div 512 = k div 512 \<Longrightarrow> P (j mod 512) \<longleftrightarrow> Q j"
    and rest: "\<And>j. j div 512 \<noteq> k div 512 \<Longrightarrow> Q j \<longleftrightarrow> j \<in> ready t"
  shows "tree_inv (t\<lparr>m_routers := (m_routers t)[k div 512 := r']\<rparr>)"
    and "ready (t\<lparr>m_routers := (m_routers t)[k div 512 := r']\<rparr>) = {j. j < max_capacity t \<and> Q j}"
proof -
  have i: "j div 512 < length (m_routers t)" if "j < max_capacity t" for j
    using that by (simp add: max_capacity_def div_less_iff_less_mult)
  show "tree_inv (t\<lparr>m_routers := (m_routers t)[k div 512 := r']\<rparr>)"
    using assms(1,3) set_update_subset_insert [of "m_routers t" "k div 512" r'] by (auto simp: tree_inv_def)
  have "j < max_capacity t \<Longrightarrow>
      router_bit ((m_routers t)[k div 512 := r'] ! (j div 512)) (j mod 512) \<longleftrightarrow> Q j" for j
    using i [of j] i [OF assms(2)] upd P rest [of j]
    by (cases "j div 512 = k div 512") (simp_all add: ready_def)
  then show "ready (t\<lparr>m_routers := (m_routers t)[k div 512 := r']\<rparr>) = {j. j < max_capacity t \<and> Q j}"
    by (auto simp: ready_def max_capacity_def)
qed

lemma tree_schedule_ready:
  assumes "tree_inv t" "k < max_capacity t" "k \<notin> ready t"
  shows "\<exists>t'. tree_schedule k t = Inr t' \<and> tree_inv t' \<and> ready t' = insert k (ready t) \<and>
    max_capacity t' = max_capacity t \<and> m_next_id t' = m_next_id t"
proof -
  let ?r = "m_routers t ! (k div 512)"
  have "k div 512 < length (m_routers t)" using assms(2) by (simp add: max_capacity_def div_less_iff_less_mult)
  then have r: "router_inv ?r" "\<not> router_bit ?r (k mod 512)"
    using assms by (auto simp: tree_inv_def ready_def)
  have k512: "k mod 512 < 512" by simp
  note u = router_schedule_inv [OF r(1) k512 r(2)]
  note t = tree_update [OF assms(1,2) u(1), of "\<lambda>j. router_bit ?r j \<or> j = k mod 512" "\<lambda>j. j \<in> ready t \<or> j = k"]
  have side: "router_bit ?r (j mod 512) \<or> j mod 512 = k mod 512 \<longleftrightarrow> j \<in> ready t \<or> j = k"
    if "j < max_capacity t" "j div 512 = k div 512" for j
  proof -
    have "j mod 512 = k mod 512 \<longleftrightarrow> j = k" using same_id [OF that(2)] by blast
    then show ?thesis using that by (simp add: ready_def)
  qed
  have rest: "j \<in> ready t \<or> j = k \<longleftrightarrow> j \<in> ready t" if "j div 512 \<noteq> k div 512" for j using that by auto
  have eq: "{j. j < max_capacity t \<and> (j \<in> ready t \<or> j = k)} = insert k (ready t)"
    using assms(2) by (auto simp: ready_def)
  define t' where "t' = t\<lparr>m_routers := (m_routers t)[k div 512 := router_schedule (k mod 512) ?r]\<rparr>"
  have "tree_schedule k t = Inr t'" using assms(2) by (simp add: tree_schedule_def t'_def Let_def)
  moreover have "tree_inv t'" "ready t' = insert k (ready t)"
    using t [OF u(2) side rest] unfolding eq t'_def by blast+
  moreover have "max_capacity t' = max_capacity t" "m_next_id t' = m_next_id t"
    by (simp_all add: t'_def max_capacity_def)
  ultimately show ?thesis by blast
qed

lemma tree_deschedule_ready:
  assumes "tree_inv t" "k \<in> ready t"
  shows "\<exists>t'. tree_deschedule k t = Inr t' \<and> tree_inv t' \<and> ready t' = ready t - {k} \<and>
    max_capacity t' = max_capacity t \<and> m_next_id t' = m_next_id t"
proof -
  let ?r = "m_routers t ! (k div 512)"
  have k: "k < max_capacity t" using assms(2) by (simp add: ready_def)
  then have "k div 512 < length (m_routers t)" by (simp add: max_capacity_def div_less_iff_less_mult)
  then have r: "router_inv ?r" "router_bit ?r (k mod 512)"
    using assms by (auto simp: tree_inv_def ready_def)
  have k512: "k mod 512 < 512" by simp
  note u = router_deschedule_inv [OF r(1) k512 r(2)]
  note t = tree_update [OF assms(1) k u(1), of "\<lambda>j. router_bit ?r j \<and> j \<noteq> k mod 512" "\<lambda>j. j \<in> ready t \<and> j \<noteq> k"]
  have side: "router_bit ?r (j mod 512) \<and> j mod 512 \<noteq> k mod 512 \<longleftrightarrow> j \<in> ready t \<and> j \<noteq> k"
    if "j < max_capacity t" "j div 512 = k div 512" for j
  proof -
    have "j mod 512 = k mod 512 \<longleftrightarrow> j = k" using same_id [OF that(2)] by blast
    then show ?thesis using that by (simp add: ready_def)
  qed
  have rest: "j \<in> ready t \<and> j \<noteq> k \<longleftrightarrow> j \<in> ready t" if "j div 512 \<noteq> k div 512" for j using that by auto
  have eq: "{j. j < max_capacity t \<and> (j \<in> ready t \<and> j \<noteq> k)} = ready t - {k}"
    by (auto simp: ready_def)
  define t' where "t' = t\<lparr>m_routers := (m_routers t)[k div 512 := router_deschedule (k mod 512) ?r]\<rparr>"
  have "tree_deschedule k t = Inr t'" using k by (simp add: tree_deschedule_def t'_def Let_def)
  moreover have "tree_inv t'" "ready t' = ready t - {k}"
    using t [OF u(2) side rest] unfolding eq t'_def by blast+
  moreover have "max_capacity t' = max_capacity t" "m_next_id t' = m_next_id t"
    by (simp_all add: t'_def max_capacity_def)
  ultimately show ?thesis by blast
qed

lemma next_routers_spec:
  assumes "\<forall>r \<in> set rs. router_inv r" "set ids \<subseteq> {..<length rs}"
  shows "case fst (next_routers rs ids bias) of
      None \<Rightarrow> \<forall>i \<in> set ids. \<forall>j < 8. r_children (rs ! i) ! j = 0
    | Some x \<Rightarrow> \<exists>i \<in> set ids. \<exists>j < 8. \<exists>b < 64. x = (i * 8 + j) * 64 + b \<and> bit (r_children (rs ! i) ! j) b"
  using assms(2)
proof (induction ids arbitrary: bias)
  case (Cons i ids)
  have inv: "router_inv (rs ! i)" using assms(1) Cons.prems by simp
  note spec = router_select_spec [OF inv, where bias = bias and acc = i and bias_bit = "drop_bit 1 BIAS_FLAG"]
  obtain res bias' where sel: "router_select (rs ! i) bias i (drop_bit 1 BIAS_FLAG) = (res, bias')" by (rule prod.exhaust)
  show ?case
  proof (cases res)
    case (Some x)
    then show ?thesis using spec sel by auto
  next
    case None
    then show ?thesis using spec sel Cons.IH [of bias'] Cons.prems by (auto split: option.splits)
  qed
qed simp

lemma tree_next_spec:
  assumes "tree_inv t"
  shows "case fst (tree_next t bias) of None \<Rightarrow> ready t = {} | Some k \<Rightarrow> k \<in> ready t"
proof -
  let ?n = "length (m_routers t)"
  define order where "order = (if bias AND BIAS_FLAG \<noteq> 0 then rev [0..<?n] else [0..<?n])"
  have set: "set order = {..<?n}" by (auto simp: order_def)
  have rs: "\<forall>r \<in> set (m_routers t). router_inv r" using assms by (simp add: tree_inv_def)
  note spec = next_routers_spec [OF rs, where ids = order and bias = bias]
  have nx: "tree_next t bias = next_routers (m_routers t) order bias" by (simp add: tree_next_def order_def)
  show ?thesis
  proof (cases "fst (tree_next t bias)")
    case None
    have "\<not> router_bit (m_routers t ! (k div 512)) (k mod 512)" if "k < max_capacity t" for k
    proof -
      have "k div 512 < ?n" using that by (simp add: max_capacity_def div_less_iff_less_mult)
      moreover have "k mod 512 div 64 < 8" by simp
      ultimately have "r_children (m_routers t ! (k div 512)) ! (k mod 512 div 64) = 0"
        using None spec set nx by simp
      then show ?thesis by (simp add: router_bit_def)
    qed
    then show ?thesis using None by (auto simp: ready_def)
  next
    case (Some x)
    then obtain i j b where x: "i < ?n" "j < 8" "b < 64" "x = (i * 8 + j) * 64 + b"
        "bit (r_children (m_routers t ! i) ! j) b"
      using spec set nx by auto
    have low: "j * 64 + b < 512" using x(2,3) by linarith
    have "x = i * 512 + (j * 64 + b)" using x(4) by simp
    then have "x div 512 = i" "x mod 512 = j * 64 + b" using low by simp_all
    moreover have "(j * 64 + b) div 64 = j" "(j * 64 + b) mod 64 = b" using x(3) by simp_all
    moreover have "x < max_capacity t" using x(1,4) low by (simp add: max_capacity_def)
    ultimately show ?thesis using Some x(5) by (simp add: ready_def router_bit_def)
  qed
qed

section \<open>Properties of the ready set\<close>

text \<open>The operations on a tree, and what they do to the set of ready ids.\<close>

datatype tree_op = Schedule nat | Deschedule nat

fun tree_step :: "tree_op \<Rightarrow> signal_tree \<Rightarrow> tree_error + signal_tree" where
  "tree_step (Schedule k) t = tree_schedule k t"
| "tree_step (Deschedule k) t = tree_deschedule k t"

definition tree_apply :: "tree_op \<Rightarrow> signal_tree \<Rightarrow> signal_tree" where
  "tree_apply op t = (case tree_step op t of Inl _ \<Rightarrow> t | Inr t' \<Rightarrow> t')"

fun set_step :: "nat \<Rightarrow> tree_op \<Rightarrow> nat set \<Rightarrow> nat set" where
  "set_step cap (Schedule k) S = (if k < cap then insert k S else S)"
| "set_step cap (Deschedule k) S = S - {k}"

text \<open>
  The discipline of the callers: a scheduled id is not scheduled again, and of the ids in range
  only a scheduled one is removed. An id out of range is refused with an error.
\<close>

fun op_ok :: "tree_op \<Rightarrow> signal_tree \<Rightarrow> bool" where
  "op_ok (Schedule k) t \<longleftrightarrow> k \<notin> ready t"
| "op_ok (Deschedule k) t \<longleftrightarrow> k < max_capacity t \<longrightarrow> k \<in> ready t"

inductive tree_run :: "signal_tree \<Rightarrow> tree_op list \<Rightarrow> signal_tree \<Rightarrow> bool" where
  tree_Nil: "tree_run t [] t"
| tree_Cons: "op_ok op t \<Longrightarrow> tree_run (tree_apply op t) ops t' \<Longrightarrow> tree_run t (op # ops) t'"

lemma tree_apply_ok:
  assumes "tree_inv t" "op_ok op t"
  shows "tree_inv (tree_apply op t)" "ready (tree_apply op t) = set_step (max_capacity t) op (ready t)"
    "max_capacity (tree_apply op t) = max_capacity t"
proof -
  have "tree_inv (tree_apply op t) \<and> ready (tree_apply op t) = set_step (max_capacity t) op (ready t) \<and>
    max_capacity (tree_apply op t) = max_capacity t"
  proof (cases op)
    case (Schedule k)
    show ?thesis
    proof (cases "k < max_capacity t")
      case True
      then obtain t' where "tree_schedule k t = Inr t'" "tree_inv t'" "ready t' = insert k (ready t)"
          "max_capacity t' = max_capacity t"
        using tree_schedule_ready [OF assms(1) True] assms(2) Schedule by auto
      then show ?thesis using True by (simp add: Schedule tree_apply_def)
    next
      case False
      then have "tree_schedule k t = Inl Out_of_range" by (simp add: tree_schedule_def)
      then show ?thesis using False assms(1) by (simp add: Schedule tree_apply_def)
    qed
  next
    case (Deschedule k)
    show ?thesis
    proof (cases "k < max_capacity t")
      case True
      then have "k \<in> ready t" using assms(2) Deschedule by simp
      then obtain t' where "tree_deschedule k t = Inr t'" "tree_inv t'" "ready t' = ready t - {k}"
          "max_capacity t' = max_capacity t"
        using tree_deschedule_ready [OF assms(1)] by blast
      then show ?thesis by (simp add: Deschedule tree_apply_def)
    next
      case False
      then have "tree_deschedule k t = Inl Out_of_range" "k \<notin> ready t"
        by (simp_all add: tree_deschedule_def ready_def)
      then show ?thesis using assms(1) by (simp add: Deschedule tree_apply_def)
    qed
  qed
  then show "tree_inv (tree_apply op t)" "ready (tree_apply op t) = set_step (max_capacity t) op (ready t)"
    "max_capacity (tree_apply op t) = max_capacity t" by simp_all
qed

lemma tree_run_ready:
  "tree_run t0 ops t \<Longrightarrow> tree_inv t0 \<Longrightarrow>
     tree_inv t \<and> ready t = fold (set_step (max_capacity t0)) ops (ready t0)"
  by (induction rule: tree_run.induct) (simp_all add: tree_apply_ok)

text \<open>
  C7: used with that discipline, the signal tree implements a set of the ids below its capacity:
  after any sequence of schedulings and deschedulings its ready set is what the same sequence
  makes of the empty set, with the ids out of range ignored; and \<open>next\<close> returns a ready id
  whenever there is one and none only if there is none, for every bias.
\<close>
theorem signal_tree_refines_set:
  assumes "tree_run (init_tree n) ops t"
  shows "ready t = fold (set_step (512 * n)) ops {} \<and>
    (\<forall>bias. case fst (tree_next t bias) of None \<Rightarrow> ready t = {} | Some k \<Rightarrow> k \<in> ready t)"
proof -
  have "max_capacity (init_tree n) = 512 * n" by (simp add: max_capacity_def init_tree_def)
  then show ?thesis
    using tree_run_ready [OF assms init_tree_inv(1)] tree_next_spec by (auto simp: init_tree_inv(2))
qed

lemma tree_run_example: "\<exists>t. tree_run (init_tree 2) [Schedule 700, Schedule 1024, Schedule 3, Deschedule 700] t"
proof -
  have cap: "max_capacity (init_tree 2) = 1024" by (simp add: max_capacity_def init_tree_def)
  let ?t1 = "tree_apply (Schedule 700) (init_tree 2)"
  let ?t2 = "tree_apply (Schedule 1024) ?t1"
  let ?t3 = "tree_apply (Schedule 3) ?t2"
  have t1: "op_ok (Schedule 700) (init_tree 2)" by (simp add: init_tree_inv(2))
  note i1 = tree_apply_ok [OF init_tree_inv(1) t1]
  have t2: "op_ok (Schedule 1024) ?t1" using i1 cap by (simp add: init_tree_inv(2))
  note i2 = tree_apply_ok [OF i1(1) t2]
  have t3: "op_ok (Schedule 3) ?t2" using i2 i1 cap by (simp add: init_tree_inv(2))
  note i3 = tree_apply_ok [OF i2(1) t3]
  have t4: "op_ok (Deschedule 700) ?t3" using i3 i2 i1 cap by (simp add: init_tree_inv(2))
  show ?thesis
    using tree_Cons [OF t1 tree_Cons [OF t2 tree_Cons [OF t3 tree_Cons [OF t4 tree_Nil]]]] by blast
qed

theorem signal_tree_refines_set_witness:
  "\<exists>t. tree_run (init_tree 2) [Schedule 700, Schedule 1024, Schedule 3, Deschedule 700] t \<and> ready t = {3} \<and>
     fst (tree_next t 0) = Some 3"
proof -
  obtain t where t: "tree_run (init_tree 2) [Schedule 700, Schedule 1024, Schedule 3, Deschedule 700] t"
    using tree_run_example by blast
  have "ready t = {3}" using signal_tree_refines_set [OF t] by auto
  moreover have "case fst (tree_next t 0) of None \<Rightarrow> ready t = {} | Some k \<Rightarrow> k \<in> ready t"
    using signal_tree_refines_set [OF t] by blast
  ultimately show ?thesis using t by (auto split: option.splits)
qed

text \<open>
  Repeated selections in one leaf whose bits do not change, with the cursor carried along.
\<close>

fun leaf_selects :: "nat \<Rightarrow> leaf \<Rightarrow> 64 word \<Rightarrow> nat list" where
  "leaf_selects 0 v bias = []"
| "leaf_selects (Suc n) v bias =
     (case leaf_select v bias 0 of
        (None, _) \<Rightarrow> []
      | (Some b, bias') \<Rightarrow> b # leaf_selects n v bias')"

lemma cyclic_distance:
  assumes "c < 64" "h < 64" "(c + h) mod 64 = (w :: nat)"
  shows "(w + 64 - c) mod 64 = h"
proof (cases "c + h < 64")
  case True
  then have "w = c + h" using assms(3) by simp
  then show ?thesis using assms(2) by simp
next
  case False
  then have "w = c + h - 64" using assms by (simp add: le_mod_geq)
  then show ?thesis using False assms(2) by simp
qed

text \<open>
  C39: the rotating cursor of a leaf is fair: a scheduled bit is selected within 64 selections,
  whatever the other bits and the initial bias, so no contract starves behind the others.
\<close>
theorem leaf_selection_is_fair:
  assumes "bit v w"
  shows "w \<in> set (leaf_selects 64 v bias)"
proof -
  have w: "w < 64" and v: "v \<noteq> 0" using assms bit_64 by auto
  have "w \<in> set (leaf_selects n v bias)" if "(w + 64 - unat bias mod 64) mod 64 < n" for n bias
    using that
  proof (induction n arbitrary: bias)
    case (Suc n)
    define c where "c = unat bias mod 64"
    have c: "c < 64" by (simp add: c_def)
    obtain d where d: "d < 64" "\<And>e. e < d \<Longrightarrow> \<not> bit v ((c + e) mod 64)"
        "fst (leaf_select v bias 0) = Some ((c + d) mod 64)"
        "unat (snd (leaf_select v bias 0)) mod 64 = (c + d + 1) mod 64"
      using leaf_select_first [OF v, of bias 0] unfolding c_def by (metis mult_0 add_0)
    obtain bias' where sel: "leaf_select v bias 0 = (Some ((c + d) mod 64), bias')"
      using d(3) by (metis prod.collapse)
    then have run: "leaf_selects (Suc n) v bias = (c + d) mod 64 # leaf_selects n v bias'"
      and b': "snd (leaf_select v bias 0) = bias'" by simp_all
    define g where "g = (w + 64 - c) mod 64"
    have g: "(c + g) mod 64 = w" "g < 64" using w c by (simp_all add: g_def mod_simps)
    have "d \<le> g" using d(2) [of g] g assms by (meson not_le)
    show ?case
    proof (cases "d = g")
      case True
      then show ?thesis using run g(1) by (metis list.set_intros(1))
    next
      case False
      define c' where "c' = (c + d + 1) mod 64"
      have "(w + 64 - c') mod 64 = g - d - 1"
      proof -
        have "(c' + (g - d - 1)) mod 64 = (c + d + 1 + (g - d - 1)) mod 64"
          unfolding c'_def by (rule mod_add_left_eq)
        also have "\<dots> = w" using g(1) \<open>d \<le> g\<close> False by simp
        finally have e: "(c' + (g - d - 1)) mod 64 = w" .
        have "c' < 64" "g - d - 1 < 64" using g(2) by (simp_all add: c'_def)
        then show ?thesis using e by (rule cyclic_distance)
      qed
      moreover have "g < Suc n" using Suc.prems by (simp only: g_def c_def)
      ultimately have "(w + 64 - c') mod 64 < n" using \<open>d \<le> g\<close> False by linarith
      then have "(w + 64 - unat (snd (leaf_select v bias 0)) mod 64) mod 64 < n"
        by (simp only: d(4) c'_def)
      from Suc.IH [OF this] show ?thesis using run b' by (metis list.set_intros(2))
    qed
  qed simp
  then show ?thesis by simp
qed

theorem leaf_selection_is_fair_witness: "40 \<in> set (leaf_selects 64 (push_bit 40 1 OR 1) 7)"
  by (rule leaf_selection_is_fair) (simp add: bit_simps)

text \<open>
  The halving of \<open>calculate_bias\<close> shifts the upper half down and then masks it as if it were
  still in place, so the preferred branch can be an empty one: with only branch 5 in use it
  prefers branch 4, and the scan has to find the id.
\<close>

lemma calculate_bias_prefers_empty_branch:
  "fst (calculate_bias (push_bit 40 1) 0 (drop_bit 1 BIAS_FLAG) 4 0) = 4 \<and> byte_at (push_bit 40 1) 4 = 0"
  by code_simp

end
