(* ===== verification/Contract.thy ===== *)
theory Contract
  imports SignalTree
begin

text \<open>
  The contract scheduler: the flags of \<open>Worker\<close> (include/core/contracts/types.cppm) and the
  operations of \<open>ContractGroup\<close> and \<open>ContractRegistry\<close> (include/core/contracts/contract.cppm)
  over a ready set. A group operation is one step of a run; the execution of a worker is two
  steps, the claim and the completion, so that other operations happen in between.
\<close>

section \<open>Worker flags\<close>

type_synonym flags = "8 word"

definition IDLE :: flags where "IDLE = 0"
definition SCHEDULED :: flags where "SCHEDULED = 1"
definition EXECUTING :: flags where "EXECUTING = 2"
definition RELEASED :: flags where "RELEASED = 4"

lemmas state_defs = IDLE_def SCHEDULED_def EXECUTING_def RELEASED_def

definition has_any :: "flags \<Rightarrow> flags \<Rightarrow> bool" where
  "has_any st w \<longleftrightarrow> w AND st \<noteq> 0"

definition is_scheduled :: "flags \<Rightarrow> bool" where "is_scheduled w = has_any SCHEDULED w"
definition is_released :: "flags \<Rightarrow> bool" where "is_released w = has_any RELEASED w"
definition is_executing :: "flags \<Rightarrow> bool" where "is_executing w = has_any EXECUTING w"

definition add_flags :: "flags \<Rightarrow> flags \<Rightarrow> flags" where
  "add_flags st w = w OR st"

definition remove_flags :: "flags \<Rightarrow> flags \<Rightarrow> flags" where
  "remove_flags st w = w AND NOT st"

text \<open>\<open>Worker::schedule\<close>: the new flags, and whether the worker was neither scheduled nor executing.\<close>

definition worker_schedule :: "flags \<Rightarrow> flags \<times> bool" where
  "worker_schedule w = (w OR SCHEDULED, w AND (SCHEDULED OR EXECUTING) = 0)"

text \<open>
  \<open>try_claim_execution\<close>, as a whole and as one compare-and-swap of its loop against the value
  \<open>current\<close> that was loaded before.
\<close>

definition claim_cas :: "flags \<Rightarrow> flags \<Rightarrow> flags option" where
  "claim_cas current w =
     (if w = current then Some ((current AND NOT SCHEDULED) OR EXECUTING) else None)"

definition try_claim_execution :: "flags \<Rightarrow> flags option" where
  "try_claim_execution w = (if is_scheduled w then claim_cas w w else None)"

definition complete_execution :: "flags \<Rightarrow> flags" where
  "complete_execution w = add_flags IDLE (remove_flags EXECUTING w)"

text \<open>The flags as three bits.\<close>

lemma bit_flags [simp]:
  "bit SCHEDULED n \<longleftrightarrow> n = 0" "bit EXECUTING n \<longleftrightarrow> n = 1" "bit RELEASED n \<longleftrightarrow> n = 2"
  using bit_exp_iff [where ?'a = "8 word", of 0 n] bit_exp_iff [where ?'a = "8 word", of 1 n]
    bit_exp_iff [where ?'a = "8 word", of 2 n]
  by (auto simp: state_defs)

lemma and_nonzero: "w AND st \<noteq> 0 \<longleftrightarrow> (\<exists>n. bit w n \<and> bit (st :: flags) n)"
proof
  assume ne: "w AND st \<noteq> 0"
  show "\<exists>n. bit w n \<and> bit st n"
  proof (rule ccontr)
    assume "\<not> ?thesis"
    then have "w AND st = 0" by (intro bit_eqI) (auto simp: bit_and_iff)
    with ne show False ..
  qed
next
  assume "\<exists>n. bit w n \<and> bit st n"
  then obtain n where "bit (w AND st) n" by (auto simp: bit_and_iff)
  then show "w AND st \<noteq> 0" by auto
qed

lemma flag_iff:
  "is_scheduled w \<longleftrightarrow> bit w 0" "is_executing w \<longleftrightarrow> bit w 1" "is_released w \<longleftrightarrow> bit w 2"
  by (simp_all add: is_scheduled_def is_executing_def is_released_def has_any_def and_nonzero)

lemma worker_schedule_took:
  "snd (worker_schedule w) \<longleftrightarrow> \<not> is_scheduled w \<and> \<not> is_executing w"
  using and_nonzero [of w "SCHEDULED OR EXECUTING"]
  by (auto simp: worker_schedule_def flag_iff bit_or_iff)

named_theorems flag_simps \<open>what the flag operations do to the three flags\<close>

lemma flags_after_schedule [flag_simps]:
  "is_scheduled (fst (worker_schedule w))"
  "is_executing (fst (worker_schedule w)) = is_executing w"
  "is_released (fst (worker_schedule w)) = is_released w"
  by (simp_all add: flag_iff worker_schedule_def bit_or_iff)

lemma flags_after_claim [flag_simps]:
  "try_claim_execution w = Some w' \<Longrightarrow> \<not> is_scheduled w' \<and> is_executing w' \<and> is_released w' = is_released w"
  by (auto simp: flag_iff try_claim_execution_def claim_cas_def bit_or_iff bit_and_iff bit_not_iff split: if_splits)

lemma flags_after_add_remove [flag_simps]:
  "is_scheduled (add_flags RELEASED w) = is_scheduled w"
  "is_executing (add_flags RELEASED w) = is_executing w"
  "is_scheduled (remove_flags EXECUTING w) = is_scheduled w"
  "\<not> is_executing (remove_flags EXECUTING w)"
  "is_released (remove_flags EXECUTING w) = is_released w"
  by (simp_all add: flag_iff add_flags_def remove_flags_def bit_or_iff bit_and_iff bit_not_iff)

lemma flags_zero [flag_simps]: "\<not> is_scheduled 0" "\<not> is_executing 0" "\<not> is_released 0"
  by (simp_all add: flag_iff)

section \<open>Groups\<close>

text \<open>
  The ready set as the group uses it: \<open>t_schedule\<close>, \<open>t_deschedule\<close>, \<open>t_next\<close> and
  \<open>t_free_id\<close>, None for a thrown exception.
\<close>

record 't ready_ops =
  t_schedule :: "nat \<Rightarrow> 't \<Rightarrow> 't option"
  t_deschedule :: "nat \<Rightarrow> 't \<Rightarrow> 't option"
  t_next :: "64 word \<Rightarrow> 't \<Rightarrow> nat option \<times> 64 word"
  t_free_id :: "'t \<Rightarrow> ('t \<times> nat) option"

text \<open>
  \<open>g_workers\<close> are the flags of the slots, \<open>g_fatal\<close> counts the fatal log lines and
  \<open>g_releases\<close> is the list of the ids whose releaser ran.
\<close>

record 't group =
  g_tree :: 't
  g_workers :: "nat \<Rightarrow> flags"
  g_fatal :: nat
  g_releases :: "nat list"

definition init_group :: "'t \<Rightarrow> 't group" where
  "init_group t = \<lparr>g_tree = t, g_workers = (\<lambda>_. IDLE), g_fatal = 0, g_releases = []\<rparr>"

definition set_worker :: "nat \<Rightarrow> flags \<Rightarrow> 't group \<Rightarrow> 't group" where
  "set_worker k w g = g\<lparr>g_workers := (g_workers g)(k := w)\<rparr>"

definition create :: "'t ready_ops \<Rightarrow> flags \<Rightarrow> 't group \<Rightarrow> ('t group \<times> nat) option" where
  "create R st g =
     (case t_free_id R (g_tree g) of
        None \<Rightarrow> None
      | Some (t, k) \<Rightarrow>
          (let g = set_worker k st (g\<lparr>g_tree := t\<rparr>)
           in if st = SCHEDULED \<or> st = RELEASED then
                map_option (\<lambda>t. (g\<lparr>g_tree := t\<rparr>, k)) (t_schedule R k (g_tree g))
              else Some (g, k)))"

definition schedule :: "'t ready_ops \<Rightarrow> nat \<Rightarrow> 't group \<Rightarrow> 't group option" where
  "schedule R k g =
     (if is_released (g_workers g k) then Some g
      else if is_scheduled (g_workers g k) then Some (g\<lparr>g_fatal := Suc (g_fatal g)\<rparr>)
      else let (w, took) = worker_schedule (g_workers g k);
               g' = set_worker k w g
           in if took then map_option (\<lambda>t. g'\<lparr>g_tree := t\<rparr>) (t_schedule R k (g_tree g)) else Some g')"

definition deschedule :: "'t ready_ops \<Rightarrow> nat \<Rightarrow> 't group \<Rightarrow> 't group option" where
  "deschedule R k g =
     (if is_released (g_workers g k) then Some g
      else if is_scheduled (g_workers g k) then
        map_option (\<lambda>t. set_worker k (add_flags IDLE (g_workers g k)) (g\<lparr>g_tree := t\<rparr>))
          (t_deschedule R k (g_tree g))
      else Some (g\<lparr>g_fatal := Suc (g_fatal g)\<rparr>))"

definition release :: "'t ready_ops \<Rightarrow> nat \<Rightarrow> 't group \<Rightarrow> 't group option" where
  "release R k g =
     (let g = set_worker k (add_flags RELEASED (g_workers g k)) g
      in if \<not> is_scheduled (g_workers g k) then schedule R k g else Some g)"

text \<open>
  \<open>process_next_contract\<close> up to the call of the worker or the releaser: the id whose execution
  was claimed, if any, and the new bias.
\<close>

definition process_begin ::
  "'t ready_ops \<Rightarrow> 64 word \<Rightarrow> 't group \<Rightarrow> ('t group \<times> nat option \<times> 64 word) option" where
  "process_begin R bias g =
     (case t_next R bias (g_tree g) of
        (None, bias') \<Rightarrow> Some (g, None, bias')
      | (Some k, bias') \<Rightarrow>
          (case try_claim_execution (g_workers g k) of
             None \<Rightarrow> Some (g, None, bias')
           | Some w \<Rightarrow>
               map_option (\<lambda>t. (set_worker k w (g\<lparr>g_tree := t\<rparr>), Some k, bias'))
                 (t_deschedule R k (g_tree g))))"

text \<open>
  The rest of it, when the call returns or throws: \<open>~AutoEraseContract\<close> for a released contract,
  \<open>~AutoClearExecuteFlag\<close> for the others, which logs an exception of the tree as fatal.
  \<open>released\<close> is what the first half read.
\<close>

definition process_end :: "'t ready_ops \<Rightarrow> nat \<Rightarrow> bool \<Rightarrow> 't group \<Rightarrow> 't group option" where
  "process_end R k released g =
     (if released then Some (set_worker k IDLE (g\<lparr>g_releases := k # g_releases g\<rparr>))
      else let w = g_workers g k;
               g' = set_worker k (remove_flags EXECUTING w) g
           in if w AND SCHEDULED = SCHEDULED
              then (case t_schedule R k (g_tree g) of
                      None \<Rightarrow> Some (g'\<lparr>g_fatal := Suc (g_fatal g)\<rparr>)
                    | Some t \<Rightarrow> Some (g'\<lparr>g_tree := t\<rparr>))
              else Some g')"

lemma process_end_total: "\<exists>g'. process_end R k released g = Some g'"
  by (simp add: process_end_def Let_def split: option.split)

fun release_all :: "'t ready_ops \<Rightarrow> nat list \<Rightarrow> 't group \<Rightarrow> 't group option" where
  "release_all R [] g = Some g"
| "release_all R (k # ks) g =
     (case release R k g of None \<Rightarrow> None | Some g' \<Rightarrow> release_all R ks g')"

section \<open>Runs of a group\<close>

text \<open>
  \<open>ids\<close> of running contracts map to whether they were released when claimed. Only ids that
  \<open>create\<close> handed out are used; \<open>deschedule\<close> is treated below.
\<close>

datatype g_op = Create bool | Sched nat | Rel nat | Begin "64 word" | End nat

type_synonym 't g_state = "'t group \<times> (nat \<Rightarrow> bool option)"

fun g_step :: "'t ready_ops \<Rightarrow> g_op \<Rightarrow> 't g_state \<Rightarrow> 't g_state option" where
  "g_step R (Create now) (g, run) =
     map_option (\<lambda>(g', _). (g', run)) (create R (if now then SCHEDULED else IDLE) g)"
| "g_step R (Sched k) (g, run) = map_option (\<lambda>g'. (g', run)) (schedule R k g)"
| "g_step R (Rel k) (g, run) = map_option (\<lambda>g'. (g', run)) (release R k g)"
| "g_step R (Begin bias) (g, run) =
     map_option (\<lambda>(g', claimed, _). (g', case claimed of None \<Rightarrow> run
                  | Some k \<Rightarrow> run(k \<mapsto> is_released (g_workers g' k)))) (process_begin R bias g)"
| "g_step R (End k) (g, run) =
     (case run k of None \<Rightarrow> None
      | Some released \<Rightarrow> map_option (\<lambda>g'. (g', run(k := None))) (process_end R k released g))"

section \<open>The ready-set contract and the group invariant\<close>

locale ready_set =
  fixes R :: "'t ready_ops" and tinv :: "'t \<Rightarrow> bool" and tready :: "'t \<Rightarrow> nat set"
    and tcap :: "'t \<Rightarrow> nat" and tfresh :: "'t \<Rightarrow> nat"
  assumes schedule_law: "tinv t \<Longrightarrow> k < tcap t \<Longrightarrow> k \<notin> tready t \<Longrightarrow>
      \<exists>t'. t_schedule R k t = Some t' \<and> tinv t' \<and> tready t' = insert k (tready t) \<and>
        tcap t' = tcap t \<and> tfresh t' = tfresh t"
    and deschedule_law: "tinv t \<Longrightarrow> k \<in> tready t \<Longrightarrow>
      \<exists>t'. t_deschedule R k t = Some t' \<and> tinv t' \<and> tready t' = tready t - {k} \<and>
        tcap t' = tcap t \<and> tfresh t' = tfresh t"
    and next_law: "tinv t \<Longrightarrow> case fst (t_next R bias t) of None \<Rightarrow> tready t = {} | Some k \<Rightarrow> k \<in> tready t"
    and free_law: "tinv t \<Longrightarrow> t_free_id R t = Some (t', k) \<Longrightarrow>
      k = tfresh t \<and> k < tcap t \<and> tinv t' \<and> tready t' = tready t \<and> tcap t' = tcap t \<and> tfresh t' = Suc k"
begin

definition group_inv :: "'t g_state \<Rightarrow> bool" where
  "group_inv = (\<lambda>(g, run).
     tinv (g_tree g) \<and> tfresh (g_tree g) \<le> tcap (g_tree g) \<and>
     tready (g_tree g) = {k. is_scheduled (g_workers g k) \<and> \<not> is_executing (g_workers g k)} \<and>
     (\<forall>k. run k \<noteq> None \<longleftrightarrow> is_executing (g_workers g k)) \<and>
     (\<forall>k. run k = Some True \<longrightarrow> is_released (g_workers g k) \<and> \<not> is_scheduled (g_workers g k)) \<and>
     (\<forall>k. is_scheduled (g_workers g k) \<or> is_executing (g_workers g k) \<longrightarrow> k < tfresh (g_tree g)))"

text \<open>
  One slot changes: what has to be checked for the invariant to carry over.
\<close>

lemma group_inv_upd:
  assumes inv: "group_inv (g, run)"
    and g': "g_tree g' = t" "g_workers g' = (g_workers g)(k := w)"
    and t: "tinv t" "tfresh (g_tree g) \<le> tfresh t" "tfresh t \<le> tcap t"
      "tready t = tready (g_tree g) - {k} \<union> (if is_scheduled w \<and> \<not> is_executing w then {k} else {})"
    and w: "is_scheduled w \<or> is_executing w \<Longrightarrow> k < tfresh t"
    and x: "x \<noteq> None \<longleftrightarrow> is_executing w" "x = Some True \<Longrightarrow> is_released w \<and> \<not> is_scheduled w"
  shows "group_inv (g', run(k := x))"
proof -
  have "tready t = {j. is_scheduled (g_workers g' j) \<and> \<not> is_executing (g_workers g' j)}"
    unfolding t(4) g'(2) using inv by (auto simp: group_inv_def)
  moreover have "j < tfresh t" if "is_scheduled (g_workers g' j) \<or> is_executing (g_workers g' j)" for j
  proof (cases "j = k")
    case True
    then show ?thesis using that w g'(2) by simp
  next
    case False
    then show ?thesis using that inv t(2) g'(2) by (fastforce simp: group_inv_def)
  qed
  moreover have "(run(k := x)) j \<noteq> None \<longleftrightarrow> is_executing (g_workers g' j)" for j
    using inv x(1) g'(2) by (cases "j = k") (simp_all add: group_inv_def)
  moreover have "is_released (g_workers g' j) \<and> \<not> is_scheduled (g_workers g' j)" if "(run(k := x)) j = Some True" for j
    using that inv x(2) g'(2) by (cases "j = k") (simp_all add: group_inv_def)
  ultimately show ?thesis using t(1,3) g'(1) by (simp add: group_inv_def)
qed

lemma group_invD:
  assumes "group_inv (g, run)"
  shows "tinv (g_tree g)" "tfresh (g_tree g) \<le> tcap (g_tree g)"
    "k \<in> tready (g_tree g) \<longleftrightarrow> is_scheduled (g_workers g k) \<and> \<not> is_executing (g_workers g k)"
    "run k \<noteq> None \<longleftrightarrow> is_executing (g_workers g k)"
    "run k = Some True \<Longrightarrow> is_released (g_workers g k) \<and> \<not> is_scheduled (g_workers g k)"
    "is_scheduled (g_workers g k) \<or> is_executing (g_workers g k) \<Longrightarrow> k < tfresh (g_tree g)"
  using assms by (auto simp: group_inv_def)

lemma schedule_absent:
  assumes "group_inv (g, run)" "k < tfresh (g_tree g)" "k \<notin> tready (g_tree g)"
  obtains t' where "t_schedule R k (g_tree g) = Some t'" "tinv t'" "tready t' = insert k (tready (g_tree g))"
    "tcap t' = tcap (g_tree g)" "tfresh t' = tfresh (g_tree g)"
  using schedule_law [of "g_tree g" k] group_invD(1,2) [OF assms(1)] assms(2,3) by fastforce

lemma group_inv_schedule:
  assumes inv: "group_inv (g, run)" and k: "k < tfresh (g_tree g)"
  shows "\<exists>g'. schedule R k g = Some g' \<and> group_inv (g', run)"
proof (cases "is_released (g_workers g k) \<or> is_scheduled (g_workers g k)")
  case True
  then show ?thesis using inv by (auto simp: schedule_def group_inv_def)
next
  case False
  obtain w took where ws: "worker_schedule (g_workers g k) = (w, took)" by (rule prod.exhaust)
  have w: "is_scheduled w" "is_executing w = is_executing (g_workers g k)"
    "is_released w = is_released (g_workers g k)" "took \<longleftrightarrow> \<not> is_executing (g_workers g k)"
    using flags_after_schedule [of "g_workers g k"] worker_schedule_took [of "g_workers g k"] ws False by auto
  have run: "run k \<noteq> Some True" using group_invD(5) [OF inv] False by blast
  have no: "k \<notin> tready (g_tree g)" using group_invD(3) [OF inv] False by simp
  note upd = group_inv_upd [OF inv, where k = k and w = w and x = "run k", unfolded fun_upd_triv]
  show ?thesis
  proof (cases took)
    case True
    obtain t' where t': "t_schedule R k (g_tree g) = Some t'" "tinv t'"
        "tready t' = insert k (tready (g_tree g))" "tcap t' = tcap (g_tree g)" "tfresh t' = tfresh (g_tree g)"
      using schedule_absent [OF inv k no] .
    have "schedule R k g = Some ((set_worker k w g)\<lparr>g_tree := t'\<rparr>)"
      using False ws True t'(1) by (simp add: schedule_def)
    moreover have "group_inv ((set_worker k w g)\<lparr>g_tree := t'\<rparr>, run)"
      by (rule upd [where t = t']) (use t' w k run True no group_invD [OF inv] in \<open>auto simp: set_worker_def\<close>)
    ultimately show ?thesis by blast
  next
    case nt: False
    have "schedule R k g = Some (set_worker k w g)" using False ws nt by (simp add: schedule_def)
    moreover have "group_inv (set_worker k w g, run)"
      by (rule upd [where t = "g_tree g"]) (use w k run nt no group_invD [OF inv] in \<open>auto simp: set_worker_def\<close>)
    ultimately show ?thesis by blast
  qed
qed

lemma group_inv_release:
  assumes inv: "group_inv (g, run)"
  shows "\<exists>g'. release R k g = Some g' \<and> group_inv (g', run)"
proof -
  let ?w = "add_flags RELEASED (g_workers g k)"
  have rel: "is_released ?w" by (simp add: flag_iff add_flags_def bit_or_iff)
  have "release R k g = Some (set_worker k ?w g)"
    using rel by (simp add: release_def Let_def schedule_def set_worker_def)
  moreover have "group_inv (set_worker k ?w g, run(k := run k))"
    by (rule group_inv_upd [OF inv, where t = "g_tree g" and w = ?w])
       (use rel group_invD(1,2) [OF inv] group_invD(3-6) [OF inv, of k] in \<open>auto simp: set_worker_def flag_simps\<close>)
  ultimately show ?thesis by simp
qed

lemma group_inv_create:
  assumes inv: "group_inv (g, run)" and c: "create R (if now then SCHEDULED else IDLE) g = Some (g', k)"
  shows "group_inv (g', run)"
proof -
  let ?st = "if now then SCHEDULED else IDLE"
  obtain t where f: "t_free_id R (g_tree g) = Some (t, k)"
    using c by (auto simp: create_def Let_def split: option.splits if_splits)
  have t: "k = tfresh (g_tree g)" "k < tcap (g_tree g)" "tinv t" "tready t = tready (g_tree g)"
      "tcap t = tcap (g_tree g)" "tfresh t = Suc k"
    using free_law [OF group_invD(1) [OF inv] f] by simp_all
  have old: "\<not> is_scheduled (g_workers g k)" "\<not> is_executing (g_workers g k)" "run k = None"
    using group_invD(4,6) [OF inv, of k] t(1) by auto
  have no: "k \<notin> tready (g_tree g)" using group_invD(3) [OF inv] old by simp
  have new: "is_scheduled ?st = now" "\<not> is_executing ?st" by (auto simp: flag_iff IDLE_def)
  note upd = group_inv_upd [OF inv, where k = k and w = ?st and x = "run k", unfolded fun_upd_triv]
  show ?thesis
  proof (cases now)
    case True
    obtain t' where t': "t_schedule R k t = Some t'" "tinv t'" "tready t' = insert k (tready t)"
        "tcap t' = tcap t" "tfresh t' = tfresh t"
      using schedule_law [of t k] t no by auto
    then have g': "g' = (set_worker k ?st g)\<lparr>g_tree := t'\<rparr>"
      using c f True by (simp add: create_def set_worker_def)
    show ?thesis
      by (rule upd [where t = t']) (use g' t t' old new no True in \<open>auto simp: set_worker_def\<close>)
  next
    case False
    then have g': "g' = (set_worker k ?st g)\<lparr>g_tree := t\<rparr>"
      using c f by (auto simp: create_def set_worker_def state_defs)
    show ?thesis
      by (rule upd [where t = t]) (use g' t old new no False in \<open>auto simp: set_worker_def\<close>)
  qed
qed

lemma process_begin_cases:
  assumes inv: "group_inv (g, run)"
  obtains (none) bias' where "tready (g_tree g) = {}" "process_begin R bias g = Some (g, None, bias')"
  | (claim) k w t bias' where "k \<in> tready (g_tree g)" "try_claim_execution (g_workers g k) = Some w"
      "tinv t" "tready t = tready (g_tree g) - {k}"
      "tcap t = tcap (g_tree g)" "tfresh t = tfresh (g_tree g)"
      "process_begin R bias g = Some (set_worker k w (g\<lparr>g_tree := t\<rparr>), Some k, bias')"
proof -
  have t: "tinv (g_tree g)" using group_invD(1) [OF inv] .
  obtain res bias' where nx: "t_next R bias (g_tree g) = (res, bias')" by (rule prod.exhaust)
  show thesis
  proof (cases res)
    case None
    then show thesis using next_law [OF t, of bias] nx none by (simp add: process_begin_def)
  next
    case (Some k)
    then have k: "k \<in> tready (g_tree g)" using next_law [OF t, of bias] nx by simp
    then have "is_scheduled (g_workers g k)" using group_invD(3) [OF inv] by blast
    then obtain w where w: "try_claim_execution (g_workers g k) = Some w"
      by (simp add: try_claim_execution_def claim_cas_def)
    obtain t1 where t1: "t_deschedule R k (g_tree g) = Some t1" "tinv t1" "tready t1 = tready (g_tree g) - {k}"
        "tcap t1 = tcap (g_tree g)" "tfresh t1 = tfresh (g_tree g)"
      using deschedule_law [OF t k] by blast
    show thesis
      by (rule claim [OF k w t1(2-5)]) (use nx Some w t1(1) in \<open>simp add: process_begin_def\<close>)
  qed
qed

lemma group_inv_begin:
  assumes inv: "group_inv (g, run)" and st: "g_step R (Begin bias) (g, run) = Some s'"
  shows "group_inv s'"
  using inv
proof (cases rule: process_begin_cases [where bias = bias])
  case none
  then show ?thesis using st inv by auto
next
  case (claim k w t bias')
  have w: "\<not> is_scheduled w" "is_executing w" using flags_after_claim [OF claim(2)] by auto
  have "k < tfresh (g_tree g)" using group_invD(3,6) [OF inv] claim(1) by blast
  then have "group_inv (set_worker k w (g\<lparr>g_tree := t\<rparr>), run(k := Some (is_released w)))"
    by (intro group_inv_upd [OF inv, where t = t and w = w])
       (use w claim group_invD(2) [OF inv] in \<open>auto simp: set_worker_def\<close>)
  then show ?thesis using st claim(7) by (auto simp: set_worker_def)
qed

lemma group_inv_end:
  assumes inv: "group_inv (g, run)" and st: "g_step R (End k) (g, run) = Some s'"
  shows "group_inv s'"
proof -
  obtain released g' where r: "run k = Some released" "process_end R k released g = Some g'" "s' = (g', run(k := None))"
    using st by (auto split: option.splits)
  have ex: "is_executing (g_workers g k)" using group_invD(4) [OF inv] r(1) by blast
  then have no: "k \<notin> tready (g_tree g)" and k: "k < tfresh (g_tree g)"
    using group_invD(3,6) [OF inv, of k] by auto
  note upd = group_inv_upd [OF inv, where k = k and x = None]
  let ?w = "remove_flags EXECUTING (g_workers g k)"
  have and_s: "(g_workers g k AND SCHEDULED = SCHEDULED) = is_scheduled (g_workers g k)"
    by (simp add: flag_iff SCHEDULED_def and_one_eq bit_0 odd_iff_mod_2_eq_one)
  consider (rel) released | (again) "\<not> released" "is_scheduled (g_workers g k)"
    | (rest) "\<not> released" "\<not> is_scheduled (g_workers g k)" by blast
  then show ?thesis
  proof cases
    case rel
    then have "g' = set_worker k IDLE (g\<lparr>g_releases := k # g_releases g\<rparr>)"
      using r(2) by (simp add: process_end_def)
    then show ?thesis
      unfolding r(3) by (intro upd [where t = "g_tree g" and w = IDLE])
        (use no group_invD [OF inv] in \<open>auto simp: set_worker_def IDLE_def flag_simps\<close>)
  next
    case again
    obtain t' where t': "t_schedule R k (g_tree g) = Some t'" "tinv t'"
        "tready t' = insert k (tready (g_tree g))" "tcap t' = tcap (g_tree g)" "tfresh t' = tfresh (g_tree g)"
      using schedule_absent [OF inv k no] .
    then have "g' = (set_worker k ?w g)\<lparr>g_tree := t'\<rparr>"
      using r(2) again and_s by (simp add: process_end_def Let_def)
    then show ?thesis
      unfolding r(3) by (intro upd [where t = t' and w = ?w])
        (use again t' k no group_invD(2) [OF inv] in \<open>auto simp: set_worker_def flag_simps\<close>)
  next
    case rest
    then have "g' = set_worker k ?w g"
      using r(2) and_s by (simp add: process_end_def Let_def)
    then show ?thesis
      unfolding r(3) by (intro upd [where t = "g_tree g" and w = ?w])
        (use rest no group_invD [OF inv] in \<open>auto simp: set_worker_def flag_simps\<close>)
  qed
qed

lemma group_inv_step:
  assumes inv: "group_inv (g, run)" and st: "g_step R op (g, run) = Some s'"
    and ok: "\<And>k. op = Sched k \<Longrightarrow> k < tfresh (g_tree g)"
  shows "group_inv s'"
proof (cases op)
  case (Create now)
  then obtain g' k where "create R (if now then SCHEDULED else IDLE) g = Some (g', k)" "s' = (g', run)"
    using st by auto
  then show ?thesis using group_inv_create [OF inv] by blast
next
  case (Sched k)
  then show ?thesis using group_inv_schedule [OF inv ok [OF Sched]] st by auto
next
  case (Rel k)
  then show ?thesis using group_inv_release [OF inv, of k] st by auto
next
  case (Begin bias)
  then show ?thesis using group_inv_begin [OF inv] st by blast
next
  case (End k)
  then show ?thesis using group_inv_end [OF inv] st by blast
qed

lemma init_group_inv: "tinv t \<Longrightarrow> tready t = {} \<Longrightarrow> tfresh t \<le> tcap t \<Longrightarrow> group_inv (init_group t, \<lambda>_. None)"
  by (auto simp: group_inv_def init_group_def IDLE_def flag_simps)

lemma begin_claims:
  assumes inv: "group_inv (g, run)"
  shows "\<exists>g' claimed bias'. process_begin R bias g = Some (g', claimed, bias') \<and>
    (case claimed of None \<Rightarrow> tready (g_tree g) = {} \<and> g' = g
     | Some k \<Rightarrow> k \<in> tready (g_tree g) \<and> run k = None \<and> tready (g_tree g') = tready (g_tree g) - {k})"
  using inv
proof (cases rule: process_begin_cases [where bias = bias])
  case none
  then show ?thesis by simp
next
  case (claim k w t bias')
  then show ?thesis using group_invD(3,4) [OF inv, of k] by (simp add: set_worker_def)
qed

lemma wakeup_while_running:
  assumes inv: "group_inv (g, run)" and run: "run k = Some False"
    and fl: "\<not> is_released (g_workers g k)"
  shows "\<exists>g1 g2. schedule R k g = Some g1 \<and> process_end R k False g1 = Some g2 \<and> k \<in> tready (g_tree g2)"
proof -
  have ex: "is_executing (g_workers g k)" using group_invD(4) [OF inv, of k] run by simp
  then have k: "k < tfresh (g_tree g)" using group_invD(6) [OF inv] by blast
  obtain g1 where g1: "schedule R k g = Some g1" "group_inv (g1, run)"
    using group_inv_schedule [OF inv k] by blast
  have sch: "is_scheduled (g_workers g1 k)"
  proof (cases "is_scheduled (g_workers g k)")
    case True
    then show ?thesis using g1(1) fl by (auto simp: schedule_def)
  next
    case False
    then show ?thesis
      using g1(1) fl flags_after_schedule(1) [of "g_workers g k"]
      by (auto simp: schedule_def set_worker_def Let_def split: prod.splits if_splits)
  qed
  obtain g2 where g2: "process_end R k False g1 = Some g2" using process_end_total by blast
  then have "group_inv (g2, run(k := None))" using group_inv_end [OF g1(2), of k] run by auto
  moreover have "is_scheduled (g_workers g2 k)" "\<not> is_executing (g_workers g2 k)"
    using g2 sch
    by (auto simp: process_end_def Let_def set_worker_def flag_simps split: option.splits if_splits)
  ultimately have "k \<in> tready (g_tree g2)" using group_invD(3) by blast
  then show ?thesis using g1(1) g2 by blast
qed

end

section \<open>The group over the signal tree\<close>

definition tree_ops :: "signal_tree ready_ops" where
  "tree_ops = \<lparr>
     t_schedule = (\<lambda>k t. case tree_schedule k t of Inl _ \<Rightarrow> None | Inr t' \<Rightarrow> Some t'),
     t_deschedule = (\<lambda>k t. case tree_deschedule k t of Inl _ \<Rightarrow> None | Inr t' \<Rightarrow> Some t'),
     t_next = (\<lambda>bias t. tree_next t bias),
     t_free_id = (\<lambda>t. case free_contract_id t of Inl _ \<Rightarrow> None | Inr r \<Rightarrow> Some r)\<rparr>"

interpretation tree_set: ready_set tree_ops tree_inv ready max_capacity m_next_id
proof
  fix t k
  assume "tree_inv t" "k < max_capacity t" "k \<notin> ready t"
  then show "\<exists>t'. t_schedule tree_ops k t = Some t' \<and> tree_inv t' \<and> ready t' = insert k (ready t) \<and>
      max_capacity t' = max_capacity t \<and> m_next_id t' = m_next_id t"
    using tree_schedule_ready by (fastforce simp: tree_ops_def)
next
  fix t k
  assume "tree_inv t" "k \<in> ready t"
  then show "\<exists>t'. t_deschedule tree_ops k t = Some t' \<and> tree_inv t' \<and> ready t' = ready t - {k} \<and>
      max_capacity t' = max_capacity t \<and> m_next_id t' = m_next_id t"
    using tree_deschedule_ready by (fastforce simp: tree_ops_def)
next
  fix t bias
  assume "tree_inv t"
  then show "case fst (t_next tree_ops bias t) of None \<Rightarrow> ready t = {} | Some k \<Rightarrow> k \<in> ready t"
    using tree_next_spec by (simp add: tree_ops_def)
next
  fix t t' k
  assume "tree_inv t" "t_free_id tree_ops t = Some (t', k)"
  then show "k = m_next_id t \<and> k < max_capacity t \<and> tree_inv t' \<and> ready t' = ready t \<and>
      max_capacity t' = max_capacity t \<and> m_next_id t' = Suc k"
    by (auto simp: tree_ops_def free_contract_id_def tree_inv_def ready_def max_capacity_def split: if_splits)
qed

text \<open>The states a group of \<open>n\<close> routers can be in; \<open>schedule\<close> is only called on created ids.\<close>

inductive group_reach :: "nat \<Rightarrow> signal_tree g_state \<Rightarrow> bool" where
  start: "group_reach n (init_group (init_tree n), \<lambda>_. None)"
| step: "group_reach n (g, run) \<Longrightarrow> g_step tree_ops op (g, run) = Some s' \<Longrightarrow>
    (\<And>k. op = Sched k \<Longrightarrow> k < m_next_id (g_tree g)) \<Longrightarrow> group_reach n s'"

lemma group_reach_inv: "group_reach n s \<Longrightarrow> tree_set.group_inv s"
proof (induction rule: group_reach.induct)
  case (start n)
  then show ?case
    by (intro tree_set.init_group_inv init_tree_inv) (simp add: init_tree_def max_capacity_def)
next
  case (step n g run op s')
  then show ?case using tree_set.group_inv_step by blast
qed



lemma create_example:
  "\<exists>g. create tree_ops SCHEDULED (init_group (init_tree 1)) = Some (g, 0) \<and> ready (g_tree g) = {0} \<and>
     g_workers g 0 = SCHEDULED"
proof -
  let ?t = "(init_tree 1)\<lparr>m_next_id := 1\<rparr>"
  have "tree_inv ?t" "ready ?t = {}"
    using init_tree_inv [of 1] by (simp_all add: tree_inv_def ready_def max_capacity_def)
  then obtain t where t: "t_schedule tree_ops 0 ?t = Some t" "ready t = {0}"
    using tree_set.schedule_law [of ?t 0] by (auto simp: max_capacity_def init_tree_def)
  have "t_free_id tree_ops (init_tree 1) = Some (?t, 0)"
    by (simp add: tree_ops_def free_contract_id_def init_tree_def max_capacity_def)
  then show ?thesis using t by (simp add: create_def init_group_def set_worker_def)
qed

lemma group_reach_example:
  "\<exists>g run. group_reach 1 (g, run) \<and> run 0 = Some False \<and> \<not> is_released (g_workers g 0)"
proof -
  obtain g where g: "create tree_ops SCHEDULED (init_group (init_tree 1)) = Some (g, 0)" "ready (g_tree g) = {0}"
      "g_workers g 0 = SCHEDULED"
    using create_example by blast
  have r: "group_reach 1 (g, \<lambda>_. None)"
    by (rule group_reach.step [OF group_reach.start [of 1], of "Create True"]) (use g(1) in auto)
  show ?thesis
    using group_reach_inv [OF r]
  proof (cases rule: tree_set.process_begin_cases [where bias = 0])
    case (none bias')
    then show ?thesis using g(2) by simp
  next
    case (claim k w t bias')
    then have k: "k = 0" using g(2) by simp
    have nr: "\<not> is_released w" using flags_after_claim [OF claim(2)] k g(3) by (auto simp: flag_iff)
    let ?g = "set_worker k w (g\<lparr>g_tree := t\<rparr>)"
    have "group_reach 1 (?g, (\<lambda>_. None)(k \<mapsto> is_released w))"
      by (rule group_reach.step [OF r, of "Begin 0"]) (use claim(7) in \<open>auto simp: set_worker_def\<close>)
    then have "group_reach 1 (?g, (\<lambda>_. None)(k \<mapsto> is_released w)) \<and>
        ((\<lambda>_. None)(k \<mapsto> is_released w)) 0 = Some False \<and> \<not> is_released (g_workers ?g 0)"
      using k nr by (simp add: set_worker_def)
    then show ?thesis by blast
  qed
qed


text \<open>
  C22: a wake-up that arrives while the contract runs is kept. When \<open>schedule\<close> is called on a
  running contract that is not released, the contract is in the ready set again once its
  execution is over.
\<close>

theorem contract_wakeup_kept:
  assumes "group_reach n (g, run)" "run k = Some False" "\<not> is_released (g_workers g k)"
  shows "\<exists>g1 g2. schedule tree_ops k g = Some g1 \<and> process_end tree_ops k False g1 = Some g2 \<and>
    k \<in> ready (g_tree g2)"
  using tree_set.wakeup_while_running [OF group_reach_inv [OF assms(1)] assms(2,3)] .

theorem contract_wakeup_kept_witness:
  "\<exists>g g1 g2. schedule tree_ops 0 g = Some g1 \<and> process_end tree_ops 0 False g1 = Some g2 \<and>
    0 \<in> ready (g_tree g2)"
proof -
  obtain g run where "group_reach 1 (g, run)" "run 0 = Some False" "\<not> is_released (g_workers g 0)"
    using group_reach_example by blast
  from contract_wakeup_kept [OF this] show ?thesis by blast
qed

section \<open>What the operations do not do\<close>

text \<open>
  \<open>deschedule\<close> is documented to mark the worker idle. It adds the flags of the idle state, which
  are none, so the worker stays scheduled and the next \<open>schedule\<close> only logs a fatal error.
\<close>

lemma deschedule_keeps_flags:
  assumes "is_scheduled (g_workers g k)" "\<not> is_released (g_workers g k)" "deschedule R k g = Some g'"
  shows "g_workers g' = g_workers g" "schedule R k g' = Some (g'\<lparr>g_fatal := Suc (g_fatal g')\<rparr>)"
proof -
  show w: "g_workers g' = g_workers g"
    using assms by (auto simp: deschedule_def set_worker_def add_flags_def IDLE_def)
  show "schedule R k g' = Some (g'\<lparr>g_fatal := Suc (g_fatal g')\<rparr>)"
    using assms(1,2) by (simp add: schedule_def w)
qed

text \<open>
  \<open>release\<close> is documented to make sure that the releaser runs. It sets the released flag first,
  and \<open>schedule\<close> returns at once for a released worker: the ready set never changes, and an idle
  contract stays out of it for good.
\<close>

lemma release_never_schedules:
  assumes "release R k g = Some g'"
  shows "g_tree g' = g_tree g" "schedule R k g' = Some g'"
proof -
  have rel: "is_released (add_flags RELEASED (g_workers g k))"
    by (simp add: flag_iff add_flags_def bit_or_iff)
  then have "g' = set_worker k (add_flags RELEASED (g_workers g k)) g"
    using assms by (simp add: release_def Let_def schedule_def set_worker_def split: if_splits)
  then show "g_tree g' = g_tree g" "schedule R k g' = Some g'"
    using rel by (simp_all add: set_worker_def schedule_def)
qed

text \<open>
  A contract created in the released state is put in the ready set, and its execution is never
  claimed: \<open>process_next_contract\<close> finds it and does nothing.
\<close>

lemma created_released_never_claimed:
  assumes "create R RELEASED g = Some (g', k)"
  shows "try_claim_execution (g_workers g' k) = None"
proof -
  have "g_workers g' k = RELEASED"
    using assms by (auto simp: create_def set_worker_def Let_def split: option.splits)
  then show ?thesis by (simp add: try_claim_execution_def flag_iff)
qed

text \<open>
  The loop of \<open>try_claim_execution\<close> tests the flags anew and swaps against the value loaded
  before. When the worker was idle at the load, scheduled at the test and idle again at the swap,
  the claim succeeds on an idle worker.
\<close>

lemma claim_of_idle_worker:
  "claim_cas IDLE IDLE = Some EXECUTING" "is_scheduled (fst (worker_schedule IDLE))"
  "map_option complete_execution (try_claim_execution (fst (worker_schedule IDLE))) = Some IDLE"
  by (simp_all add: claim_cas_def try_claim_execution_def worker_schedule_def is_scheduled_def has_any_def
      complete_execution_def add_flags_def remove_flags_def state_defs)

end
