(* ===== verification/TextCodec.thy ===== *)
theory TextCodec
  imports Prelude
begin

text \<open>
  Readers for the two text formats that plugins write by hand, and the contracts of the
  functions that escape values for them. \<open>lex_sql\<close> reads a statement the way PostgreSQL does
  with \<open>standard_conforming_strings\<close>; \<open>read_json_string\<close> reads a string literal of RFC 8259.
  Both are reference definitions: the sources only write these formats.
\<close>

section \<open>SQL statements\<close>

text \<open>A statement is the characters outside its string literals, and the literals.\<close>

datatype sql_token = Raw char | Lit string

abbreviation quote :: char where "quote \<equiv> CHR 0x27"

fun lex_sql :: "string option \<Rightarrow> string \<Rightarrow> sql_token list option" where
  "lex_sql None [] = Some []"
| "lex_sql None (c # cs) =
     (if c = quote then lex_sql (Some []) cs else map_option ((#) (Raw c)) (lex_sql None cs))"
| "lex_sql (Some acc) [] = None"
| "lex_sql (Some acc) (c # cs) =
     (if c \<noteq> quote then lex_sql (Some (acc @ [c])) cs
      else case cs of
             [] \<Rightarrow> Some [Lit acc]
           | d # ds \<Rightarrow>
               if d = quote then lex_sql (Some (acc @ [d])) ds
               else map_option ((#) (Lit acc)) (lex_sql None cs))"

definition sql_tokens :: "string \<Rightarrow> sql_token list option" where
  "sql_tokens s = lex_sql None s"

definition no_quote :: "string \<Rightarrow> bool" where
  "no_quote s \<longleftrightarrow> quote \<notin> set s"

named_theorems sql_lex \<open>how a statement is read piece by piece\<close>

lemma sql_tokens_Nil [sql_lex]: "sql_tokens [] = Some []"
  by (simp add: sql_tokens_def)

lemma sql_tokens_raw [sql_lex]:
  "no_quote s \<Longrightarrow> sql_tokens (s @ t) = map_option ((@) (map Raw s)) (sql_tokens t)"
proof (induction s)
  case Nil
  then show ?case by (simp add: option.map_ident)
next
  case (Cons c s)
  then show ?case by (auto simp: sql_tokens_def no_quote_def option.map_comp comp_def)
qed

lemma sql_tokens_raw_end: "no_quote s \<Longrightarrow> sql_tokens s = Some (map Raw s)"
  using sql_tokens_raw [of s "[]"] by (simp add: sql_tokens_Nil)

lemma no_quote_append [simp]: "no_quote (s @ t) \<longleftrightarrow> no_quote s \<and> no_quote t"
  by (auto simp: no_quote_def)

lemma no_quote_Nil [simp]: "no_quote []"
  by (simp add: no_quote_def)

lemma no_quote_Cons [simp]: "no_quote (c # s) \<longleftrightarrow> c \<noteq> quote \<and> no_quote s"
  by (auto simp: no_quote_def)

text \<open>
  What a function that prepares a value for a literal promises: within a literal, its result
  reads as the value, whatever follows.
\<close>

locale sql_quoting =
  fixes esc :: "string \<Rightarrow> string"
  assumes esc_law: "lex_sql (Some acc) (esc v @ t) = lex_sql (Some (acc @ v)) t"
begin

lemma literal_tokens:
  assumes "t = [] \<or> hd t \<noteq> quote"
  shows "sql_tokens (quote # esc v @ quote # t) = map_option ((#) (Lit v)) (sql_tokens t)"
  using assms by (cases t) (simp_all add: sql_tokens_def esc_law)

end

section \<open>JSON string literals\<close>

abbreviation dquote :: char where "dquote \<equiv> CHR 0x22"
abbreviation backslash :: char where "backslash \<equiv> CHR 0x5C"

definition is_control :: "char \<Rightarrow> bool" where
  "is_control c \<longleftrightarrow> (of_char c :: nat) < 32"

definition hex_digit :: "nat \<Rightarrow> char" where
  "hex_digit n = ''0123456789abcdef'' ! n"

definition hex_val :: "char \<Rightarrow> nat option" where
  "hex_val c =
     (let n = of_char c :: nat
      in if 48 \<le> n \<and> n \<le> 57 then Some (n - 48)
         else if 97 \<le> n \<and> n \<le> 102 then Some (n - 87)
         else if 65 \<le> n \<and> n \<le> 70 then Some (n - 55)
         else None)"

fun hex4 :: "string \<Rightarrow> nat option" where
  "hex4 [a, b, c, d] =
     (case (hex_val a, hex_val b, hex_val c, hex_val d) of
        (Some i, Some j, Some k, Some l) \<Rightarrow> Some (4096 * i + 256 * j + 16 * k + l)
      | _ \<Rightarrow> None)"
| "hex4 _ = None"

text \<open>
  The text after the opening quote: the value of the literal and what follows the closing
  quote. Escapes of code points from 128 on, which need an encoding, are not read.
\<close>

fun read_json_string :: "string \<Rightarrow> (string \<times> string) option" where
  "read_json_string [] = None"
| "read_json_string (c # cs) =
     (if c = dquote then Some ([], cs)
      else if c = backslash then
        (case cs of
           [] \<Rightarrow> None
         | e # es \<Rightarrow>
             if e = CHR ''u'' then
               (case hex4 (take 4 es) of
                  None \<Rightarrow> None
                | Some n \<Rightarrow>
                    if n < 128 then map_option (map_prod ((#) (char_of n)) id) (read_json_string (drop 4 es))
                    else None)
             else
               (case map_of [(dquote, dquote), (backslash, backslash), (CHR ''/'', CHR ''/''),
                   (CHR ''b'', CHR 0x08), (CHR ''f'', CHR 0x0C), (CHR ''n'', CHR 0x0A),
                   (CHR ''r'', CHR 0x0D), (CHR ''t'', CHR 0x09)] e of
                  None \<Rightarrow> None
                | Some x \<Rightarrow> map_option (map_prod ((#) x) id) (read_json_string es)))
      else if is_control c then None
      else map_option (map_prod ((#) c) id) (read_json_string cs))"

text \<open>The promise of a function that prepares a value for a JSON literal, on the values it covers.\<close>

locale json_quoting =
  fixes esc :: "string \<Rightarrow> string" and covers :: "string \<Rightarrow> bool"
  assumes esc_reads: "covers s \<Longrightarrow> read_json_string (esc s @ dquote # t) = Some (s, t)"
begin

lemma esc_inj:
  assumes "covers s" "covers s'" "esc s = esc s'"
  shows "s = s'"
proof -
  have "read_json_string (esc s' @ [dquote]) = Some (s, [])"
    using esc_reads [OF assms(1), of "[]"] by (simp only: assms(3))
  then show ?thesis unfolding esc_reads [OF assms(2)] by simp
qed

end

text \<open>
  Escapers work character by character; it is enough that the text of each character reads as
  that character.
\<close>

definition reads_as :: "string \<Rightarrow> char \<Rightarrow> bool" where
  "reads_as u c \<longleftrightarrow>
     (\<forall>t. read_json_string (u @ t) = map_option (map_prod ((#) c) id) (read_json_string t))"

lemma concat_reads:
  assumes "\<And>c. c \<in> set s \<Longrightarrow> reads_as (f c) c"
  shows "read_json_string (concat (map f s) @ dquote # t) = Some (s, t)"
  using assms by (induction s) (simp_all add: reads_as_def)

lemma json_quoting_chars:
  assumes "\<And>s. esc s = concat (map f s)" "\<And>s c. covers s \<Longrightarrow> c \<in> set s \<Longrightarrow> reads_as (f c) c"
  shows "json_quoting esc covers"
  using assms by unfold_locales (simp add: concat_reads)

named_theorems json_chars \<open>the escapes of single characters\<close>

lemma reads_plain [json_chars]:
  "c \<noteq> dquote \<Longrightarrow> c \<noteq> backslash \<Longrightarrow> \<not> is_control c \<Longrightarrow> reads_as [c] c"
  by (simp add: reads_as_def)

lemma reads_escapes [json_chars]:
  "reads_as [backslash, dquote] dquote" "reads_as [backslash, backslash] backslash"
  "reads_as [backslash, CHR ''n''] CHR 0x0A" "reads_as [backslash, CHR ''r''] CHR 0x0D"
  "reads_as [backslash, CHR ''t''] CHR 0x09"
  by (simp_all add: reads_as_def)

lemma hex_digits_ok: "list_all (\<lambda>n. hex_val (hex_digit n) = Some n) [0..<16]"
  by code_simp

lemma hex_val_digit: "n < 16 \<Longrightarrow> hex_val (hex_digit n) = Some n"
  using hex_digits_ok by (simp add: list_all_iff)

lemma hex4_byte:
  assumes "n < 256"
  shows "hex4 [CHR ''0'', CHR ''0'', hex_digit (n div 16), hex_digit (n mod 16)] = Some n"
proof -
  have "hex_val (CHR ''0'') = Some 0" by (simp add: hex_val_def)
  moreover have "hex_val (hex_digit (n div 16)) = Some (n div 16)"
    using assms by (intro hex_val_digit) (simp add: less_mult_imp_div_less)
  moreover have "hex_val (hex_digit (n mod 16)) = Some (n mod 16)" by (intro hex_val_digit) simp
  ultimately show ?thesis by simp
qed

lemma read_json_unicode:
  "hex4 [a, b, c, d] = Some n \<Longrightarrow> n < 128 \<Longrightarrow>
   read_json_string (backslash # CHR ''u'' # a # b # c # d # t) =
     map_option (map_prod ((#) (char_of n)) id) (read_json_string t)"
  by (simp del: hex4.simps)

lemma reads_unicode [json_chars]:
  assumes "is_control c"
  shows "reads_as [backslash, CHR ''u'', CHR ''0'', CHR ''0'',
    hex_digit (of_char c div 16), hex_digit (of_char c mod 16)] c"
proof -
  have n: "(of_char c :: nat) < 32" using assms by (simp add: is_control_def)
  then have "(of_char c :: nat) < 256" "(of_char c :: nat) < 128" by simp_all
  from read_json_unicode [OF hex4_byte [OF this(1)] this(2)] show ?thesis
    unfolding reads_as_def by (simp only: append.simps char_of_char simp_thms)
qed

text \<open>The values of the literals of a statement, in order; None when a literal is not closed.\<close>

definition sql_literals :: "string \<Rightarrow> string list option" where
  "sql_literals s =
     map_option (\<lambda>ts. concat (map (\<lambda>t. case t of Raw _ \<Rightarrow> [] | Lit v \<Rightarrow> [v]) ts)) (sql_tokens s)"

named_theorems sql_lits \<open>how the literals of a statement are read piece by piece\<close>

lemma sql_literals_Nil [sql_lits]: "sql_literals [] = Some []"
  by (simp add: sql_literals_def sql_tokens_Nil)

lemma concat_map_Nil [simp]: "concat (map (\<lambda>x. []) s) = []"
  by (induction s) simp_all

lemma sql_literals_raw [sql_lits]: "no_quote s \<Longrightarrow> sql_literals (s @ t) = sql_literals t"
  by (simp add: sql_literals_def sql_tokens_raw option.map_comp comp_def)

lemma sql_literals_char [sql_lits]: "c \<noteq> quote \<Longrightarrow> sql_literals (c # t) = sql_literals t"
  using sql_literals_raw [of "[c]" t] by simp

lemma sql_literals_raw_end [sql_lits]: "no_quote s \<Longrightarrow> sql_literals s = Some []"
  using sql_literals_raw [of s "[]"] by (simp add: sql_literals_Nil)

lemma sql_tokens_char [sql_lex]: "c \<noteq> quote \<Longrightarrow> sql_tokens (c # t) = map_option ((#) (Raw c)) (sql_tokens t)"
  by (simp add: sql_tokens_def)

section \<open>Flat JSON objects\<close>

text \<open>
  An object whose members are strings or null, and an array of such objects, written with an
  escaper, and a reader for them.
\<close>

definition json_list :: "string list \<Rightarrow> string" where
  "json_list items = ''['' @ prefixed '''' '','' items @ '']''"

definition cell_text :: "(string \<Rightarrow> string) \<Rightarrow> string option \<Rightarrow> string" where
  "cell_text esc cell = (case cell of None \<Rightarrow> ''null'' | Some v \<Rightarrow> [dquote] @ esc v @ [dquote])"

definition member_text :: "(string \<Rightarrow> string) \<Rightarrow> string \<times> string option \<Rightarrow> string" where
  "member_text esc m = [dquote] @ esc (fst m) @ [dquote] @ '':'' @ cell_text esc (snd m)"

definition object_text :: "(string \<Rightarrow> string) \<Rightarrow> (string \<times> string option) list \<Rightarrow> string" where
  "object_text esc ms = ''{'' @ prefixed '''' '','' (map (member_text esc) ms) @ ''}''"

definition read_cell :: "string \<Rightarrow> (string option \<times> string) option" where
  "read_cell s =
     (if take 4 s = ''null'' then Some (None, drop 4 s)
      else case s of [] \<Rightarrow> None
        | c # t \<Rightarrow> if c = dquote then map_option (map_prod Some id) (read_json_string t) else None)"

definition read_member :: "string \<Rightarrow> ((string \<times> string option) \<times> string) option" where
  "read_member s =
     (case s of [] \<Rightarrow> None
      | c # t \<Rightarrow>
          if c \<noteq> dquote then None
          else case read_json_string t of
                 Some (col, d # u) \<Rightarrow>
                   if d = CHR '':'' then map_option (map_prod (Pair col) id) (read_cell u) else None
               | _ \<Rightarrow> None)"

lemma read_json_string_shorter: "read_json_string s = Some (v, t) \<Longrightarrow> length t < length s"
proof (induction s arbitrary: v t rule: read_json_string.induct)
  case 1
  then show ?case by simp
next
  case (2 c cs)
  then show ?case
    by (auto simp del: hex4.simps split: if_splits list.splits option.splits) (force dest: less_SucI)+
qed

lemma read_cell_shorter: "read_cell s = Some (v, t) \<Longrightarrow> length t < length s"
  by (cases s) (auto simp: read_cell_def split: if_splits dest: read_json_string_shorter)

lemma read_member_shorter: "read_member s = Some (m, t) \<Longrightarrow> length t < length s"
  by (fastforce simp: read_member_def split: list.splits if_splits option.splits
      dest!: read_json_string_shorter read_cell_shorter)

function read_members :: "string \<Rightarrow> ((string \<times> string option) list \<times> string) option" where
  "read_members s =
     (case read_member s of
        Some (m, c # t) \<Rightarrow>
          if c = CHR ''}'' then Some ([m], t)
          else if c = CHR '','' then map_option (map_prod ((#) m) id) (read_members t)
          else None
      | _ \<Rightarrow> None)"
  by pat_completeness auto
termination
  by (relation "measure length") (auto dest: read_member_shorter)

declare read_members.simps [simp del]

definition read_row :: "string \<Rightarrow> ((string \<times> string option) list \<times> string) option" where
  "read_row s =
     (if take 2 s = ''{}'' then Some ([], drop 2 s)
      else case s of [] \<Rightarrow> None | c # t \<Rightarrow> if c = CHR ''{'' then read_members t else None)"

lemma read_members_shorter: "read_members s = Some (ms, t) \<Longrightarrow> length t < length s"
proof (induction s arbitrary: ms rule: read_members.induct)
  case (1 s)
  from "1.prems" obtain m c u where m: "read_member s = Some (m, c # u)"
    and u: "c = CHR ''}'' \<and> u = t \<or> c = CHR '','' \<and> (\<exists>ms'. read_members u = Some (ms', t))"
    by (subst (asm) read_members.simps) (auto split: option.splits list.splits if_splits)
  show ?case using u read_member_shorter [OF m] "1.IH" [OF m refl refl] by fastforce
qed

lemma read_row_shorter: "read_row s = Some (r, t) \<Longrightarrow> length t < length s"
  by (cases s) (auto simp: read_row_def split: if_splits dest: read_members_shorter)

function read_row_list :: "string \<Rightarrow> (string \<times> string option) list list option" where
  "read_row_list s =
     (case read_row s of
        Some (r, c # t) \<Rightarrow>
          if c = CHR '']'' then (if t = [] then Some [r] else None)
          else if c = CHR '','' then map_option ((#) r) (read_row_list t)
          else None
      | _ \<Rightarrow> None)"
  by pat_completeness auto
termination
  by (relation "measure length") (auto dest: read_row_shorter)

declare read_row_list.simps [simp del]

definition read_rows :: "string \<Rightarrow> (string \<times> string option) list list option" where
  "read_rows s =
     (if s = ''[]'' then Some []
      else case s of [] \<Rightarrow> None | c # t \<Rightarrow> if c = CHR ''['' then read_row_list t else None)"

context json_quoting
begin

definition covers_member :: "string \<times> string option \<Rightarrow> bool" where
  "covers_member m \<longleftrightarrow> covers (fst m) \<and> (\<forall>v. snd m = Some v \<longrightarrow> covers v)"

lemma read_cell_text: "(\<And>v. cell = Some v \<Longrightarrow> covers v) \<Longrightarrow> read_cell (cell_text esc cell @ t) = Some (cell, t)"
  by (cases cell) (simp_all add: read_cell_def cell_text_def esc_reads)

lemma read_member_text: "covers_member m \<Longrightarrow> read_member (member_text esc m @ t) = Some (m, t)"
  by (cases m) (simp add: read_member_def member_text_def covers_member_def esc_reads read_cell_text)

lemma read_members_text:
  "ms \<noteq> [] \<Longrightarrow> list_all covers_member ms \<Longrightarrow>
   read_members (prefixed '''' '','' (map (member_text esc) ms) @ CHR ''}'' # t) = Some (ms, t)"
proof (induction ms)
  case Nil
  then show ?case by simp
next
  case (Cons m ms)
  show ?case
  proof (cases ms)
    case Nil
    then show ?thesis using Cons.prems by (subst read_members.simps) (simp add: read_member_text)
  next
    case (Cons m' ms')
    then have "read_members (prefixed '''' '','' (map (member_text esc) ms) @ CHR ''}'' # t) = Some (ms, t)"
      using Cons.IH Cons.prems by simp
    moreover have "prefixed '''' '','' (map (member_text esc) (m # ms)) =
        member_text esc m @ CHR '','' # prefixed '''' '','' (map (member_text esc) ms)"
      using Cons by simp
    ultimately show ?thesis using Cons.prems by (subst read_members.simps) (simp add: read_member_text)
  qed
qed

lemma read_object: "list_all covers_member ms \<Longrightarrow> read_row (object_text esc ms @ t) = Some (ms, t)"
proof (cases ms)
  case Nil
  then show ?thesis by (simp add: object_text_def read_row_def)
next
  case (Cons m ms')
  assume cov: "list_all covers_member ms"
  obtain u where "prefixed '''' '','' (map (member_text esc) ms) = dquote # u"
    using Cons by (simp add: member_text_def)
  then show ?thesis
    using read_members_text [OF _ cov, of t] Cons by (simp add: object_text_def read_row_def)
qed

lemma read_object_list_tail:
  "os \<noteq> [] \<Longrightarrow> list_all (list_all covers_member) os \<Longrightarrow>
   read_row_list (prefixed '''' '','' (map (object_text esc) os) @ '']'') = Some os"
proof (induction os)
  case Nil
  then show ?case by simp
next
  case (Cons r os)
  show ?case
  proof (cases os)
    case Nil
    then show ?thesis using Cons.prems by (subst read_row_list.simps) (simp add: read_object)
  next
    case (Cons r' os')
    then have "read_row_list (prefixed '''' '','' (map (object_text esc) os) @ '']'') = Some os"
      using Cons.IH Cons.prems by simp
    moreover have "prefixed '''' '','' (map (object_text esc) (r # os)) =
        object_text esc r @ CHR '','' # prefixed '''' '','' (map (object_text esc) os)"
      using Cons by simp
    ultimately show ?thesis using Cons.prems by (subst read_row_list.simps) (simp add: read_object)
  qed
qed

lemma read_object_list:
  assumes "list_all (list_all covers_member) os"
  shows "read_rows (json_list (map (object_text esc) os)) = Some os"
proof (cases os)
  case Nil
  then show ?thesis by (simp add: read_rows_def json_list_def)
next
  case (Cons r rs)
  obtain u where "prefixed '''' '','' (map (object_text esc) os) @ '']'' = CHR ''{'' # u"
    using Cons by (simp add: object_text_def)
  then show ?thesis
    using read_object_list_tail [OF _ assms] Cons by (simp add: read_rows_def json_list_def)
qed

end

end
