(* ===== verification/Sql.thy ===== *)
theory Sql
  imports Abi TextCodec
begin

text \<open>
  SQL text generation. The requests that class \<open>Sql\<close> of include/connector/connector.cppm
  builds from a reflected type, and the plugin \<open>SqlPostgresPlugin\<close> of
  plugins/serde/sql_postgres/bin/sql_postgres_plugin.cc that turns them into PostgreSQL
  statements.
\<close>

section \<open>Requests\<close>

datatype ValueKind =
    STRING | BOOLEAN | INT64 | UINT64 | INT32 | UINT32 | DOUBLE | FLOAT | TIMESTAMP | UUID | OTHER

record sql_column =
  col_name :: string
  col_kind :: ValueKind
  primary_key :: bool
  nullable :: bool
  unique :: bool
  skip_update :: bool
  ref_table :: string
  ref_column :: string

record sql_options =
  joins :: "string list"
  where_conditions :: "string list"
  order_by_clauses :: "(string \<times> bool) list"
  limit :: "nat option"

definition no_options :: sql_options where
  "no_options = \<lparr>joins = [], where_conditions = [], order_by_clauses = [], limit = None\<rparr>"

record sql_request =
  rq_op :: string
  rq_table :: string
  rq_columns :: "sql_column list"
  rq_pk :: string
  rq_key :: string
  rq_keys :: "string list"
  rq_json :: string
  rq_json_array :: string
  rq_set_columns :: "string list"
  rq_update_columns :: "string list"
  rq_options :: sql_options

definition empty_request :: sql_request where
  "empty_request = \<lparr>rq_op = '''', rq_table = '''', rq_columns = [], rq_pk = '''', rq_key = '''',
     rq_keys = [], rq_json = '''', rq_json_array = '''', rq_set_columns = [], rq_update_columns = [],
     rq_options = no_options\<rparr>"

section \<open>The dialect\<close>

fun postgres_type_of :: "ValueKind \<Rightarrow> string" where
  "postgres_type_of STRING = ''TEXT''"
| "postgres_type_of BOOLEAN = ''BOOLEAN''"
| "postgres_type_of INT64 = ''BIGINT''"
| "postgres_type_of UINT64 = ''BIGINT''"
| "postgres_type_of TIMESTAMP = ''BIGINT''"
| "postgres_type_of INT32 = ''INTEGER''"
| "postgres_type_of UINT32 = ''INTEGER''"
| "postgres_type_of DOUBLE = ''DOUBLE PRECISION''"
| "postgres_type_of FLOAT = ''REAL''"
| "postgres_type_of UUID = ''UUID''"
| "postgres_type_of OTHER = ''JSONB''"

definition escape_quotes :: "string \<Rightarrow> string" where
  "escape_quotes v = concat (map (\<lambda>c. if c = quote then [quote, c] else [c]) v)"

definition quoted :: "string \<Rightarrow> string" where
  "quoted s = quote # s @ [quote]"

definition quoted_list :: "string list \<Rightarrow> string" where
  "quoted_list vs = prefixed '''' '','' (map (\<lambda>v. quoted (escape_quotes v)) vs)"

definition build_inner_query :: "string \<Rightarrow> sql_options \<Rightarrow> string" where
  "build_inner_query table opts =
     ''SELECT '' @ table @ ''.* FROM '' @ table @
     concat (map (\<lambda>j. '' '' @ j) (joins opts)) @
     prefixed '' WHERE '' '' AND '' (where_conditions opts) @
     prefixed '' ORDER BY '' '', ''
       (map (\<lambda>(column, ascending). column @ (if ascending then '' ASC'' else '' DESC'')) (order_by_clauses opts)) @
     (case limit opts of None \<Rightarrow> '''' | Some n \<Rightarrow> '' LIMIT '' @ show_nat n)"

definition column_text :: "sql_column \<Rightarrow> string" where
  "column_text c =
     col_name c @ '' '' @ postgres_type_of (col_kind c) @
     (if primary_key c then '' PRIMARY KEY'' else if \<not> nullable c then '' NOT NULL'' else '''') @
     (if unique c \<and> \<not> primary_key c then '' UNIQUE'' else '''') @
     (if ref_table c \<noteq> '''' then '' REFERENCES '' @ ref_table c @ ''('' @ ref_column c @ '')'' else '''')"

definition build_create_sql :: "sql_request \<Rightarrow> string" where
  "build_create_sql r =
     ''CREATE TABLE IF NOT EXISTS '' @ rq_table r @ '' ('' @
     prefixed '''' '', '' (map column_text (rq_columns r)) @ '')''"

definition build_select_sql :: "sql_request \<Rightarrow> string" where
  "build_select_sql r =
     ''SELECT row_to_json(row) FROM (SELECT * FROM '' @ rq_table r @ '' WHERE '' @ rq_pk r @ '' = '' @
     quoted (rq_key r) @ '') row''"

definition build_select_many_sql :: "sql_request \<Rightarrow> string" where
  "build_select_many_sql r =
     ''SELECT json_agg(row_to_json(row)) FROM (SELECT * FROM '' @ rq_table r @ '' WHERE '' @ rq_pk r @
     '' IN ('' @ quoted_list (rq_keys r) @ '')) row''"

definition build_select_all_sql :: "sql_request \<Rightarrow> string" where
  "build_select_all_sql r = ''SELECT json_agg(row_to_json(row)) FROM '' @ rq_table r @ '' row''"

definition build_insert_sql :: "sql_request \<Rightarrow> string" where
  "build_insert_sql r =
     ''INSERT INTO '' @ rq_table r @ '' SELECT * FROM json_populate_record(NULL::'' @ rq_table r @ '', '' @
     quoted (rq_json r) @ '')''"

definition build_insert_many_sql :: "sql_request \<Rightarrow> string" where
  "build_insert_many_sql r =
     ''INSERT INTO '' @ rq_table r @ '' SELECT * FROM json_populate_recordset(NULL::'' @ rq_table r @ '', '' @
     quoted (rq_json_array r) @ '')''"

definition build_update_sql :: "sql_request \<Rightarrow> string" where
  "build_update_sql r =
     ''UPDATE '' @ rq_table r @ '' AS target SET '' @
     prefixed '''' '', '' (map (\<lambda>c. c @ '' = src.'' @ c) (rq_set_columns r)) @
     '' FROM json_populate_record(NULL::'' @ rq_table r @ '', '' @ quoted (rq_json r) @
     '') AS src WHERE target.'' @ rq_pk r @ '' = src.'' @ rq_pk r"

definition build_upsert_sql :: "sql_request \<Rightarrow> string" where
  "build_upsert_sql r =
     ''INSERT INTO '' @ rq_table r @ '' SELECT * FROM json_populate_record(NULL::'' @ rq_table r @ '', '' @
     quoted (rq_json r) @ '') ON CONFLICT ('' @ rq_pk r @ '') DO UPDATE SET '' @
     prefixed '''' '', '' (map (\<lambda>c. c @ '' = EXCLUDED.'' @ c) (rq_update_columns r))"

definition build_delete_sql :: "sql_request \<Rightarrow> string" where
  "build_delete_sql r = ''DELETE FROM '' @ rq_table r @ '' WHERE '' @ rq_pk r @ '' = '' @ quoted (rq_key r)"

definition build_delete_many_sql :: "sql_request \<Rightarrow> string" where
  "build_delete_many_sql r =
     ''DELETE FROM '' @ rq_table r @ '' WHERE '' @ rq_pk r @ '' IN ('' @ quoted_list (rq_keys r) @ '')''"

definition build_query_sql :: "sql_request \<Rightarrow> string" where
  "build_query_sql r =
     ''SELECT json_agg(row_to_json(row)) FROM ('' @ build_inner_query (rq_table r) (rq_options r) @ '') row''"

definition build_query_first_sql :: "sql_request \<Rightarrow> string" where
  "build_query_first_sql r =
     ''SELECT row_to_json(row) FROM ('' @ build_inner_query (rq_table r) (rq_options r) @ '' LIMIT 1) row''"

text \<open>
  \<open>encode\<close>. \<open>from_generic\<close> stands for \<open>rfl::from_generic<SqlRequest>\<close>, the error text or the
  request.
\<close>

definition build_sql :: "sql_request \<Rightarrow> string option" where
  "build_sql r =
     map_option (\<lambda>build. build r) (map_of
       [(''create_table'', build_create_sql), (''select'', build_select_sql),
        (''select_many'', build_select_many_sql), (''select_all'', build_select_all_sql),
        (''insert'', build_insert_sql), (''insert_many'', build_insert_many_sql),
        (''update'', build_update_sql), (''upsert'', build_upsert_sql),
        (''delete'', build_delete_sql), (''delete_many'', build_delete_many_sql),
        (''query'', build_query_sql), (''query_first'', build_query_first_sql)] (rq_op r))"

definition encode :: "('g \<Rightarrow> string + sql_request) \<Rightarrow> 'g \<Rightarrow> (string + string) \<times> effects" where
  "encode from_generic val =
     (case from_generic val of
        Inl err \<Rightarrow>
          (Inl err, [Log WARNING ''sql_postgres'', Publish ''serde.sql_postgres.encode_failed'' [(''error'', err)]])
      | Inr r \<Rightarrow>
          (case build_sql r of
             None \<Rightarrow>
               (Inl (''sql_postgres: unrecognized op '' @ quoted (rq_op r)),
                [Log WARNING ''sql_postgres'', Publish ''serde.sql_postgres.unrecognized_op'' [(''op'', rq_op r)]])
           | Some sql \<Rightarrow> (Inr sql, [Log DEBUG ''sql_postgres''])))"

definition decode :: "string \<Rightarrow> (string + 'g) \<times> effects" where
  "decode data =
     (Inl ''sql_postgres format is write-only, decode is not supported'', [Log WARNING ''sql_postgres''])"

definition sql_class :: "unit plugin_class" where
  "sql_class = default_plugin
     \<lparr>c_name := (\<lambda>_. ''sql_postgres''), c_version := (\<lambda>_. ''0.1.0''),
      c_capabilities := (\<lambda>_. cap_bit RUN_SERDE), c_get := (\<lambda>t _. if t = RUN_SERDE then 1 else 0)\<rparr>"

interpretation sql_caps: advertised sql_class
  by unfold_locales (rename_tac t p, case_tac t; simp add: sql_class_def)

section \<open>What the connector asks for\<close>

text \<open>
  A type as the connector reflects it, and the operations of class \<open>Sql\<close>; \<open>encode_json\<close> is
  the JSON text of a value.
\<close>

record table_desc =
  td_table :: string
  td_pk :: string
  td_columns :: "sql_column list"

datatype 'v sql_op =
    Create_table
  | Select string
  | Select_many "string list"
  | Select_all
  | Insert 'v
  | Insert_many "'v list"
  | Update 'v
  | Upsert 'v
  | Delete string
  | Delete_many "string list"
  | Query sql_options
  | Query_first sql_options

definition json_array :: "('v \<Rightarrow> string) \<Rightarrow> 'v list \<Rightarrow> string" where
  "json_array encode_json vs = ''['' @ prefixed '''' '','' (map encode_json vs) @ '']''"

fun request :: "table_desc \<Rightarrow> ('v \<Rightarrow> string) \<Rightarrow> 'v sql_op \<Rightarrow> sql_request" where
  "request D J Create_table =
     empty_request\<lparr>rq_op := ''create_table'', rq_table := td_table D, rq_columns := td_columns D\<rparr>"
| "request D J (Select key) =
     empty_request\<lparr>rq_op := ''select'', rq_table := td_table D, rq_pk := td_pk D, rq_key := key\<rparr>"
| "request D J (Select_many keys) =
     empty_request\<lparr>rq_op := ''select_many'', rq_table := td_table D, rq_pk := td_pk D, rq_keys := keys\<rparr>"
| "request D J Select_all = empty_request\<lparr>rq_op := ''select_all'', rq_table := td_table D\<rparr>"
| "request D J (Insert v) =
     empty_request\<lparr>rq_op := ''insert'', rq_table := td_table D, rq_json := J v\<rparr>"
| "request D J (Insert_many vs) =
     empty_request\<lparr>rq_op := ''insert_many'', rq_table := td_table D, rq_json_array := json_array J vs\<rparr>"
| "request D J (Update v) =
     empty_request\<lparr>rq_op := ''update'', rq_table := td_table D, rq_pk := td_pk D, rq_json := J v,
       rq_set_columns := map col_name (filter (\<lambda>c. \<not> primary_key c \<and> \<not> skip_update c) (td_columns D))\<rparr>"
| "request D J (Upsert v) =
     empty_request\<lparr>rq_op := ''upsert'', rq_table := td_table D, rq_pk := td_pk D, rq_json := J v,
       rq_update_columns := map col_name (filter (\<lambda>c. \<not> primary_key c) (td_columns D))\<rparr>"
| "request D J (Delete key) =
     empty_request\<lparr>rq_op := ''delete'', rq_table := td_table D, rq_pk := td_pk D, rq_key := key\<rparr>"
| "request D J (Delete_many keys) =
     empty_request\<lparr>rq_op := ''delete_many'', rq_table := td_table D, rq_pk := td_pk D, rq_keys := keys\<rparr>"
| "request D J (Query opts) =
     empty_request\<lparr>rq_op := ''query'', rq_table := td_table D, rq_options := opts\<rparr>"
| "request D J (Query_first opts) =
     empty_request\<lparr>rq_op := ''query_first'', rq_table := td_table D, rq_options := opts\<rparr>"

section \<open>Literals\<close>

interpretation list_quoting: sql_quoting escape_quotes
proof
  fix acc v t
  show "lex_sql (Some acc) (escape_quotes v @ t) = lex_sql (Some (acc @ v)) t"
    by (induction v arbitrary: acc) (simp_all add: escape_quotes_def)
qed

lemma quoted_escaped_tokens [sql_lex]:
  "t = [] \<or> hd t \<noteq> quote \<Longrightarrow>
   sql_tokens (quoted (escape_quotes v) @ t) = map_option ((#) (Lit v)) (sql_tokens t)"
  using list_quoting.literal_tokens [of t v] by (simp add: quoted_def)

text \<open>The tokens of a list of literals.\<close>

fun lit_list :: "string list \<Rightarrow> sql_token list" where
  "lit_list [] = []"
| "lit_list [v] = [Lit v]"
| "lit_list (v # w # vs) = Lit v # Raw CHR '','' # lit_list (w # vs)"

lemma quoted_list_Cons:
  "quoted_list (v # w # vs) = quoted (escape_quotes v) @ CHR '','' # quoted_list (w # vs)"
  by (simp add: quoted_list_def)

lemma quoted_list_tokens:
  assumes "t = [] \<or> hd t \<noteq> quote"
  shows "sql_tokens (quoted_list vs @ t) = map_option ((@) (lit_list vs)) (sql_tokens t)"
  using assms
proof (induction vs rule: lit_list.induct)
  case 1
  then show ?case by (simp add: quoted_list_def option.map_ident)
next
  case (2 v)
  then show ?case by (simp add: quoted_list_def quoted_escaped_tokens)
next
  case (3 v w vs)
  have "sql_tokens (quoted_list (v # w # vs) @ t) =
      map_option ((#) (Lit v)) (sql_tokens (CHR '','' # quoted_list (w # vs) @ t))"
    unfolding quoted_list_Cons append_assoc by (subst quoted_escaped_tokens) simp_all
  then show ?case using 3 by (simp add: sql_tokens_char option.map_comp comp_def)
qed

text \<open>
  C13: the keys of a multi-row read or delete cannot leave their literals. For a table and a
  primary key column without single quotes, the statement that the dialect generates for the
  connector's request reads as the fixed text around one literal per key, whose values are
  exactly the keys, whatever characters they contain.
\<close>

theorem key_lists_are_literals:
  assumes "no_quote (td_table D)" "no_quote (td_pk D)"
  shows "map_option sql_tokens (build_sql (request D J (Select_many keys))) =
      Some (Some (map Raw (''SELECT json_agg(row_to_json(row)) FROM (SELECT * FROM '' @ td_table D @ '' WHERE '' @
        td_pk D @ '' IN ('') @ lit_list keys @ map Raw '')) row'')) \<and>
    map_option sql_tokens (build_sql (request D J (Delete_many keys))) =
      Some (Some (map Raw (''DELETE FROM '' @ td_table D @ '' WHERE '' @ td_pk D @ '' IN ('') @
        lit_list keys @ map Raw '')''))"
  using assms
  by (simp add: build_sql_def build_select_many_sql_def build_delete_many_sql_def sql_tokens_char
      sql_tokens_raw quoted_list_tokens sql_tokens_Nil)

theorem key_lists_are_literals_witness:
  "map_option sql_tokens (build_sql (request \<lparr>td_table = ''t'', td_pk = ''id'', td_columns = []\<rparr> (\<lambda>_::nat. '''')
      (Delete_many [[quote], ''b'']))) =
   Some (Some (map Raw ''DELETE FROM t WHERE id IN ('' @ [Lit [quote], Raw CHR '','', Lit ''b'', Raw CHR '')'']))"
  using key_lists_are_literals [of "\<lparr>td_table = ''t'', td_pk = ''id'', td_columns = []\<rparr>" "\<lambda>_::nat. ''''"
      "[[quote], ''b'']"]
  by simp

section \<open>Every operation of the connector\<close>

text \<open>The values that an operation embeds in its statement, in order.\<close>

fun embedded :: "('v \<Rightarrow> string) \<Rightarrow> 'v sql_op \<Rightarrow> string list" where
  "embedded J (Select key) = [key]"
| "embedded J (Select_many keys) = keys"
| "embedded J (Insert v) = [J v]"
| "embedded J (Insert_many vs) = [json_array J vs]"
| "embedded J (Update v) = [J v]"
| "embedded J (Upsert v) = [J v]"
| "embedded J (Delete key) = [key]"
| "embedded J (Delete_many keys) = keys"
| "embedded J _ = []"

text \<open>
  What the generators splice in without escaping: single keys, the JSON texts and the fragments
  of a query.
\<close>

definition options_plain :: "sql_options \<Rightarrow> bool" where
  "options_plain opts \<longleftrightarrow> list_all no_quote (joins opts) \<and> list_all no_quote (where_conditions opts) \<and>
     list_all (\<lambda>p. no_quote (fst p)) (order_by_clauses opts)"

fun spliced_plain :: "('v \<Rightarrow> string) \<Rightarrow> 'v sql_op \<Rightarrow> bool" where
  "spliced_plain J (Select key) = no_quote key"
| "spliced_plain J (Insert v) = no_quote (J v)"
| "spliced_plain J (Insert_many vs) = list_all (\<lambda>v. no_quote (J v)) vs"
| "spliced_plain J (Update v) = no_quote (J v)"
| "spliced_plain J (Upsert v) = no_quote (J v)"
| "spliced_plain J (Delete key) = no_quote key"
| "spliced_plain J (Query opts) = options_plain opts"
| "spliced_plain J (Query_first opts) = options_plain opts"
| "spliced_plain J _ = True"

definition names_plain :: "table_desc \<Rightarrow> bool" where
  "names_plain D \<longleftrightarrow> no_quote (td_table D) \<and> no_quote (td_pk D) \<and>
     list_all (\<lambda>c. no_quote (col_name c) \<and> no_quote (ref_table c) \<and> no_quote (ref_column c)) (td_columns D)"

lemma escape_quotes_plain: "no_quote v \<Longrightarrow> escape_quotes v = v"
  by (induction v) (simp_all add: escape_quotes_def)

lemma quoted_literals [sql_lits]:
  assumes "no_quote v" "t = [] \<or> hd t \<noteq> quote"
  shows "sql_literals (quoted v @ t) = map_option ((#) v) (sql_literals t)"
  using quoted_escaped_tokens [OF assms(2), of v] assms(1)
  by (simp add: sql_literals_def escape_quotes_plain option.map_comp comp_def)

lemma concat_lit_list: "concat (map (\<lambda>t. case t of Raw _ \<Rightarrow> [] | Lit v \<Rightarrow> [v]) (lit_list vs)) = vs"
  by (induction vs rule: lit_list.induct) simp_all

lemma quoted_list_literals [sql_lits]:
  assumes "t = [] \<or> hd t \<noteq> quote"
  shows "sql_literals (quoted_list vs @ t) = map_option ((@) vs) (sql_literals t)"
  using quoted_list_tokens [OF assms, of vs]
  by (simp add: sql_literals_def concat_lit_list option.map_comp comp_def)

lemma no_quote_prefixed:
  "no_quote p \<Longrightarrow> no_quote q \<Longrightarrow> list_all no_quote xs \<Longrightarrow> no_quote (prefixed p q xs)"
  by (induction p q xs rule: prefixed.induct) simp_all

lemma no_quote_concat: "no_quote (concat xs) \<longleftrightarrow> list_all no_quote xs"
  by (induction xs) simp_all

lemma no_quote_show_nat [simp]: "no_quote (show_nat n)"
  using show_nat_not_in [of quote n] by (simp add: no_quote_def is_dec_def)

lemma no_quote_column:
  "no_quote (col_name c) \<Longrightarrow> no_quote (ref_table c) \<Longrightarrow> no_quote (ref_column c) \<Longrightarrow> no_quote (column_text c)"
  by (cases "col_kind c") (simp_all add: column_text_def)

lemma no_quote_inner:
  assumes "no_quote t" "options_plain opts"
  shows "no_quote (build_inner_query t opts)"
proof -
  have "list_all no_quote (map (\<lambda>(column, ascending). column @ (if ascending then '' ASC'' else '' DESC''))
      (order_by_clauses opts))"
    using assms(2) by (fastforce simp: options_plain_def list_all_iff)
  then have "no_quote (prefixed '' ORDER BY '' '', ''
      (map (\<lambda>(column, ascending). column @ (if ascending then '' ASC'' else '' DESC'')) (order_by_clauses opts)))"
    by (intro no_quote_prefixed) simp_all
  moreover have "no_quote (concat (map (\<lambda>j. '' '' @ j) (joins opts)))"
    "no_quote (prefixed '' WHERE '' '' AND '' (where_conditions opts))"
    using assms(2) by (auto simp: options_plain_def no_quote_concat list_all_iff intro!: no_quote_prefixed)
  ultimately show ?thesis using assms(1) by (simp add: build_inner_query_def split: option.split)
qed

lemma no_quote_json_array: "list_all (\<lambda>v. no_quote (J v)) vs \<Longrightarrow> no_quote (json_array J vs)"
  by (simp add: json_array_def no_quote_prefixed list_all_iff)

lemma no_quote_set_list:
  "list_all no_quote cs \<Longrightarrow> no_quote s \<Longrightarrow> no_quote (prefixed '''' '', '' (map (\<lambda>c. c @ s @ c) cs))"
  by (intro no_quote_prefixed) (simp_all add: list_all_iff)

lemmas builder_defs = build_sql_def build_create_sql_def build_select_sql_def build_select_many_sql_def
  build_select_all_sql_def build_insert_sql_def build_insert_many_sql_def build_update_sql_def
  build_upsert_sql_def build_delete_sql_def build_delete_many_sql_def build_query_sql_def
  build_query_first_sql_def empty_request_def

text \<open>
  The dialect has a statement for every operation of the connector, and the literals of
  that statement are exactly the values that the operation embeds, in order, provided that the
  names of the type and the texts spliced in raw contain no single quote.
\<close>

lemma statement_literals:
  assumes "names_plain D" "spliced_plain J op"
  shows "\<exists>sql. build_sql (request D J op) = Some sql \<and> sql_literals sql = Some (embedded J op)"
proof (cases op)
  case Create_table
  have "list_all no_quote (map column_text (td_columns D))"
    using assms(1) by (auto simp: names_plain_def list_all_iff intro: no_quote_column)
  then show ?thesis
    using assms(1) Create_table
    by (simp add: builder_defs names_plain_def sql_literals_raw_end no_quote_prefixed)
next
  case (Update v)
  have "list_all no_quote (map col_name (filter (\<lambda>c. \<not> primary_key c \<and> \<not> skip_update c) (td_columns D)))"
    using assms(1) by (auto simp: names_plain_def list_all_iff)
  from no_quote_set_list [OF this, of "'' = src.''"] show ?thesis
    using assms Update by (simp add: builder_defs names_plain_def sql_lits)
next
  case (Upsert v)
  have "list_all no_quote (map col_name (filter (\<lambda>c. \<not> primary_key c) (td_columns D)))"
    using assms(1) by (auto simp: names_plain_def list_all_iff)
  from no_quote_set_list [OF this, of "'' = EXCLUDED.''"] show ?thesis
    using assms Upsert by (simp add: builder_defs names_plain_def sql_lits)
next
  case (Query opts)
  then show ?thesis
    using assms by (simp add: builder_defs names_plain_def sql_literals_raw_end no_quote_inner)
next
  case (Query_first opts)
  then show ?thesis
    using assms by (simp add: builder_defs names_plain_def sql_literals_raw_end no_quote_inner)
next
  case (Insert_many vs)
  then show ?thesis
    using assms by (simp add: builder_defs names_plain_def sql_lits no_quote_json_array)
qed (use assms in \<open>simp_all add: builder_defs names_plain_def sql_lits
  quoted_literals [where t = "[]", simplified]\<close>)

lemma statement_literals_witness:
  "\<exists>sql. build_sql (request \<lparr>td_table = ''t'', td_pk = ''id'', td_columns = []\<rparr> (\<lambda>_::nat. ''{}'') (Upsert 3)) = Some sql \<and>
     sql_literals sql = Some [''{}'']"
  using statement_literals [of "\<lparr>td_table = ''t'', td_pk = ''id'', td_columns = []\<rparr>" "\<lambda>_::nat. ''{}''" "Upsert 3"]
  by (simp add: names_plain_def)

section \<open>Values that are not escaped\<close>

text \<open>
  The multi-row statements escape their keys, the single-row ones do not: a key with quotes
  leaves its literal.
\<close>

lemma select_key_leaves_literal:
  "sql_literals (build_select_sql (empty_request\<lparr>rq_table := ''t'', rq_pk := ''id'',
      rq_key := ''a'' @ [quote] @ '' OR '' @ [quote] @ ''b'' @ [quote] @ ''='' @ [quote] @ ''b''\<rparr>)) =
   Some [''a'', ''b'', ''b'']"
  by (simp add: build_select_sql_def quoted_def sql_literals_def sql_tokens_def empty_request_def)

text \<open>A JSON payload with one single quote gives a statement with an open literal.\<close>

lemma insert_payload_leaves_literal_open:
  "sql_literals (build_insert_sql (empty_request\<lparr>rq_table := ''t'', rq_json := [quote]\<rparr>)) = None"
  by (simp add: build_insert_sql_def quoted_def sql_literals_def sql_tokens_def empty_request_def)

text \<open>
  The connector documents that a limit of the options is ignored by the first-match query; the
  generated text has both.
\<close>

lemma query_first_two_limits:
  assumes "limit (rq_options r) = Some n"
  shows "\<exists>pre. build_query_first_sql r = pre @ '' LIMIT '' @ show_nat n @ '' LIMIT 1) row''"
  using assms by (simp add: build_query_first_sql_def build_inner_query_def)

end
