(* ===== verification/Search.thy ===== *)
theory Search
  imports Abi TextCodec
begin

text \<open>
  The search contract \<open>ISearchProvider\<close> of include/interfaces/search.cppm, which the
  PostgreSQL and Elasticsearch plugins implement: the query record, and the promise that a
  search answers with a JSON array of documents or, on failure, with the empty text.
\<close>

record search_query =
  sq_query :: string
  sq_free_text :: string
  sq_start :: "32 word"
  sq_size :: "32 word"
  sq_sort :: string

locale isearch =
  fixes search :: "string \<Rightarrow> search_query \<Rightarrow> 's \<Rightarrow> 's \<times> string \<times> effects"
  assumes search_shape: "fst (snd (search c q s)) = '''' \<or> (\<exists>docs. fst (snd (search c q s)) = json_list docs)"
begin

lemma search_failed_iff: "fst (snd (search c q s)) = '''' \<longleftrightarrow> \<not> (\<exists>docs. fst (snd (search c q s)) = json_list docs)"
  using search_shape [of c q s] by (auto simp: json_list_def)

end

end
