(* ===== verification/Postgres.thy ===== *)
theory Postgres
  imports Sql Search
begin

text \<open>
  \<open>PostgresPlugin\<close> of plugins/database/postgres/bin/postgres_plugin.cc: the connection, the
  execution of statements, the search tables and the JSON text of a result set. libpq is not
  part of the sources: \<open>connect\<close> stands for \<open>PQconnectdb\<close>, the error message or a connection,
  and \<open>pq\<close> for \<open>PQexec\<close> with the accessors of its result. Result callbacks run before the
  operation returns and are taken not to throw.
\<close>

section \<open>The plugin\<close>

text \<open>
  A result: the column names and the rows of a \<open>PGRES_TUPLES_OK\<close>, a \<open>PGRES_COMMAND_OK\<close>, or
  any other status with its message. A cell is None for SQL \<open>NULL\<close>.
\<close>

datatype pq_result =
    Tuples "string list" "string option list list"
  | Command_ok
  | Failed string

type_synonym 'p pq_exec = "'p \<Rightarrow> string \<Rightarrow> 'p \<times> pq_result"

record 'p postgres =
  m_conn :: "'p option"

definition init_postgres :: "'p postgres" where
  "init_postgres = \<lparr>m_conn = None\<rparr>"

definition escape_json :: "string \<Rightarrow> string" where
  "escape_json v =
     concat (map (\<lambda>c.
       if c = dquote then [backslash, dquote]
       else if c = backslash then [backslash, backslash]
       else if c = CHR 0x0A then [backslash, CHR ''n'']
       else if c = CHR 0x0D then [backslash, CHR ''r'']
       else if c = CHR 0x09 then [backslash, CHR ''t'']
       else if is_control c then
         [backslash, CHR ''u'', CHR ''0'', CHR ''0'', hex_digit (of_char c div 16), hex_digit (of_char c mod 16)]
       else [c]) v)"

definition row_json :: "string list \<Rightarrow> string option list \<Rightarrow> string" where
  "row_json cols row = object_text escape_json (zip cols row)"

definition rows_to_json :: "string list \<Rightarrow> string option list list \<Rightarrow> string" where
  "rows_to_json cols rows = json_list (map (row_json cols) rows)"

definition exec :: "'p pq_exec \<Rightarrow> string \<Rightarrow> 'p postgres \<Rightarrow> 'p postgres \<times> string \<times> effects" where
  "exec pq sql s =
     (case m_conn s of
        None \<Rightarrow> (s, '''', [Log WARNING ''postgres''])
      | Some conn \<Rightarrow>
          (case pq conn (c_str sql) of
             (conn', Tuples cols rows) \<Rightarrow>
               (s\<lparr>m_conn := Some conn'\<rparr>, rows_to_json cols rows, [Log DEBUG ''postgres'', Log DEBUG ''postgres''])
           | (conn', Command_ok) \<Rightarrow>
               (s\<lparr>m_conn := Some conn'\<rparr>, ''ok'', [Log DEBUG ''postgres'', Log DEBUG ''postgres''])
           | (conn', Failed err) \<Rightarrow>
               (s\<lparr>m_conn := Some conn'\<rparr>, '''',
                [Log DEBUG ''postgres'', Log WARNING ''postgres'',
                 Publish ''postgres.exec.failed'' [(''sql'', sql), (''error'', err)]])))"

definition search_table_sql :: string where
  "search_table_sql =
     ''CREATE TABLE IF NOT EXISTS search_documents ('' @
     ''collection TEXT NOT NULL, id TEXT NOT NULL, data JSONB NOT NULL, '' @
     ''updated_at TIMESTAMPTZ NOT NULL DEFAULT now(), '' @ ''PRIMARY KEY (collection, id))''"

definition ensure_search_tables :: "'p pq_exec \<Rightarrow> 'p postgres \<Rightarrow> 'p postgres \<times> effects" where
  "ensure_search_tables pq s = (let (s', _, es) = exec pq search_table_sql s in (s', es))"

definition connstr :: "config \<Rightarrow> string" where
  "connstr cfg =
     ''host='' @ quoted (case config_get cfg ''host'' of None \<Rightarrow> ''localhost'' | Some v \<Rightarrow> v) @
     '' port='' @ quoted (case config_get cfg ''port'' of None \<Rightarrow> ''5432'' | Some v \<Rightarrow> v) @
     '' dbname='' @ quoted (case config_get cfg ''dbname'' of None \<Rightarrow> ''congelado'' | Some v \<Rightarrow> v) @
     '' user='' @ quoted (case config_get cfg ''user'' of None \<Rightarrow> ''postgres'' | Some v \<Rightarrow> v) @
     '' password='' @ quoted (case config_get cfg ''password'' of None \<Rightarrow> '''' | Some v \<Rightarrow> v)"

text \<open>\<open>has_log\<close> says whether the host passes a log callback.\<close>

definition postgres_on_load ::
  "'p pq_exec \<Rightarrow> (string \<Rightarrow> string + 'p) \<Rightarrow> bool \<Rightarrow> config \<Rightarrow> 'p postgres \<Rightarrow> 'p postgres \<times> effects" where
  "postgres_on_load pq connect has_log cfg s =
     (let target = [(''host'', case config_get cfg ''host'' of None \<Rightarrow> ''localhost'' | Some v \<Rightarrow> v),
            (''port'', case config_get cfg ''port'' of None \<Rightarrow> ''5432'' | Some v \<Rightarrow> v),
            (''dbname'', case config_get cfg ''dbname'' of None \<Rightarrow> ''congelado'' | Some v \<Rightarrow> v)]
      in case connect (c_str (connstr cfg)) of
           Inl err \<Rightarrow>
             (s\<lparr>m_conn := None\<rparr>,
              (if has_log then [Host_log 3 (''postgres: '' @ err)] else []) @
              [Log WARNING ''postgres'', Publish ''postgres.connection.failed'' target])
         | Inr conn \<Rightarrow>
             (let (s', es) = ensure_search_tables pq (s\<lparr>m_conn := Some conn\<rparr>)
              in (s', (if has_log then [Host_log 2 ''postgres plugin loaded''] else []) @
                    [Log DEBUG ''postgres'', Publish ''postgres.connection.established'' target] @ es)))"

definition postgres_on_unload :: "'p postgres \<Rightarrow> 'p postgres" where
  "postgres_on_unload s = s\<lparr>m_conn := None\<rparr>"

definition is_connected :: "'p postgres \<Rightarrow> bool" where
  "is_connected s \<longleftrightarrow> m_conn s \<noteq> None"

text \<open>\<open>query\<close>, \<open>insert\<close>, \<open>update\<close> and \<open>remove\<close> of \<open>IDatabase\<close> all forward to \<open>exec\<close>.\<close>

definition db_query :: "'p pq_exec \<Rightarrow> string \<Rightarrow> 'p postgres \<Rightarrow> 'p postgres \<times> string \<times> effects" where
  "db_query pq sql s = exec pq sql s"

definition db_insert :: "'p pq_exec \<Rightarrow> string \<Rightarrow> 'p postgres \<Rightarrow> 'p postgres \<times> string \<times> effects" where
  "db_insert pq sql s = exec pq sql s"

definition db_update :: "'p pq_exec \<Rightarrow> string \<Rightarrow> 'p postgres \<Rightarrow> 'p postgres \<times> string \<times> effects" where
  "db_update pq sql s = exec pq sql s"

definition db_remove :: "'p pq_exec \<Rightarrow> string \<Rightarrow> 'p postgres \<Rightarrow> 'p postgres \<times> string \<times> effects" where
  "db_remove pq sql s = exec pq sql s"

section \<open>The search tables\<close>

definition escape_sql_literal :: "string \<Rightarrow> string" where
  "escape_sql_literal v = concat (map (\<lambda>c. if c = quote then [quote, quote] else [c]) v)"

definition index_sql :: "string \<Rightarrow> string \<Rightarrow> string \<Rightarrow> string" where
  "index_sql collection doc_id doc =
     ''INSERT INTO search_documents (collection, id, data, updated_at) '' @
     ''VALUES ('' @ quoted (escape_sql_literal collection) @ '', '' @ quoted (escape_sql_literal doc_id) @ '', '' @
     quoted (escape_sql_literal doc) @ ''::jsonb, now()) '' @
     ''ON CONFLICT (collection, id) DO UPDATE SET data = excluded.data, '' @ ''updated_at = excluded.updated_at''"

definition index :: "'p pq_exec \<Rightarrow> string \<Rightarrow> string \<Rightarrow> string \<Rightarrow> 'p postgres \<Rightarrow> 'p postgres \<times> string \<times> effects" where
  "index pq collection doc_id doc s = exec pq (index_sql collection doc_id doc) s"

definition remove_sql :: "string \<Rightarrow> string \<Rightarrow> string" where
  "remove_sql collection doc_id =
     ''DELETE FROM search_documents WHERE collection = '' @ quoted (escape_sql_literal collection) @
     '' AND id = '' @ quoted (escape_sql_literal doc_id)"

definition search_remove :: "'p pq_exec \<Rightarrow> string \<Rightarrow> string \<Rightarrow> 'p postgres \<Rightarrow> 'p postgres \<times> string \<times> effects" where
  "search_remove pq collection doc_id s = exec pq (remove_sql collection doc_id) s"

definition search_sql :: "string \<Rightarrow> search_query \<Rightarrow> string" where
  "search_sql collection q =
     ''SELECT data FROM search_documents WHERE collection = '' @ quoted (escape_sql_literal collection) @
     (if sq_free_text q = '''' then ''''
      else '' AND data::text ILIKE '' @ quoted (''%'' @ escape_sql_literal (sq_free_text q) @ ''%'')) @
     (if sq_query q = '''' then '''' else '' AND ('' @ sq_query q @ '')'') @
     '' ORDER BY updated_at DESC LIMIT '' @ show_nat (unat (sq_size q)) @ '' OFFSET '' @ show_nat (unat (sq_start q))"

text \<open>The loop reads column 0 of every row.\<close>

definition first_cell :: "string option list \<Rightarrow> string" where
  "first_cell row = (case row of (Some v) # _ \<Rightarrow> v | _ \<Rightarrow> ''null'')"

definition select_documents :: "'p pq_exec \<Rightarrow> string \<Rightarrow> 'p \<Rightarrow> 'p \<times> string \<times> effects" where
  "select_documents pq sql conn =
     (case pq conn (c_str sql) of
        (conn', Tuples cols rows) \<Rightarrow> (conn', json_list (map first_cell rows), [Log DEBUG ''postgres''])
      | (conn', Command_ok) \<Rightarrow>
          (conn', '''', [Log DEBUG ''postgres'', Log WARNING ''postgres'',
             Publish ''postgres.search.failed'' [(''sql'', sql), (''error'', '''')]])
      | (conn', Failed err) \<Rightarrow>
          (conn', '''', [Log DEBUG ''postgres'', Log WARNING ''postgres'',
             Publish ''postgres.search.failed'' [(''sql'', sql), (''error'', err)]]))"

definition search :: "'p pq_exec \<Rightarrow> string \<Rightarrow> search_query \<Rightarrow> 'p postgres \<Rightarrow> 'p postgres \<times> string \<times> effects" where
  "search pq collection q s =
     (case m_conn s of
        None \<Rightarrow> (s, '''', [Log WARNING ''postgres''])
      | Some conn \<Rightarrow>
          (let (conn', out, es) = select_documents pq (search_sql collection q) conn
           in (s\<lparr>m_conn := Some conn'\<rparr>, out, es)))"

definition postgres_class :: "'p pq_exec \<Rightarrow> (string \<Rightarrow> string + 'p) \<Rightarrow> bool \<Rightarrow> 'p postgres plugin_class" where
  "postgres_class pq connect has_log = default_plugin
     \<lparr>c_name := (\<lambda>_. ''postgres''), c_version := (\<lambda>_. ''0.1.0''),
      c_capabilities := (\<lambda>_. cap_bit RUN_STORAGE OR cap_bit RUN_SEARCH),
      c_on_load := (\<lambda>cfg s. (fst (postgres_on_load pq connect has_log cfg s), False)),
      c_get := (\<lambda>t _. if t = RUN_STORAGE then 1 else if t = RUN_SEARCH then 2 else 0)\<rparr>"

interpretation postgres_caps: advertised "postgres_class pq connect has_log"
  by unfold_locales (rename_tac t p, case_tac t; simp add: postgres_class_def bit.conj_disj_distrib2)

section \<open>Statements\<close>

lemma escape_sql_literal_eq: "escape_sql_literal = escape_quotes"
  unfolding escape_sql_literal_def escape_quotes_def
  by (intro ext arg_cong [where f = concat] map_cong refl) simp

interpretation search_quoting: sql_quoting escape_sql_literal
  unfolding escape_sql_literal_eq by (rule list_quoting.sql_quoting_axioms)

interpretation pg_search: isearch "search pq"
  by unfold_locales
    (auto simp: search_def select_documents_def split: option.splits prod.splits pq_result.splits)

lemma escaped_tokens [sql_lex]:
  "t = [] \<or> hd t \<noteq> quote \<Longrightarrow>
   sql_tokens (quoted (escape_sql_literal v) @ t) = map_option ((#) (Lit v)) (sql_tokens t)"
  using search_quoting.literal_tokens [of t v] by (simp add: quoted_def)

lemma escaped_tokens_end: "sql_tokens (quoted (escape_sql_literal v)) = Some [Lit v]"
  using escaped_tokens [of "[]" v] by (simp add: sql_tokens_Nil)

text \<open>
  A document is stored and removed under exactly its collection and id. The statement that
  indexes a document reads as fixed text around three literals, the collection, the id and the
  document, and the statement that removes one as fixed text around two, for all texts.
\<close>

lemma search_statement_values:
  "sql_tokens (index_sql collection doc_id doc) =
     Some (map Raw ''INSERT INTO search_documents (collection, id, data, updated_at) VALUES ('' @
       [Lit collection] @ map Raw '', '' @ [Lit doc_id] @ map Raw '', '' @ [Lit doc] @
       map Raw (''::jsonb, now()) ON CONFLICT (collection, id) DO UPDATE SET data = excluded.data, '' @
         ''updated_at = excluded.updated_at'')) \<and>
   sql_tokens (remove_sql collection doc_id) =
     Some (map Raw ''DELETE FROM search_documents WHERE collection = '' @ [Lit collection] @
       map Raw '' AND id = '' @ [Lit doc_id])"
  by (simp add: index_sql_def remove_sql_def sql_tokens_char escaped_tokens escaped_tokens_end sql_tokens_Nil)

text \<open>A statement that contains a null byte is cut there by \<open>c_str()\<close>.\<close>

lemma null_byte_cuts_statement:
  "sql_tokens (c_str (remove_sql ''c'' [CHR 0x00])) = None"
  by (simp add: remove_sql_def escape_sql_literal_def quoted_def c_str_def sql_tokens_def)

section \<open>Result sets\<close>

interpretation cell_quoting: json_quoting escape_json "\<lambda>_. True"
  by (rule json_quoting_chars [OF escape_json_def]) (simp add: json_chars)

lemma read_rows_json: "read_rows (rows_to_json cols rows) = Some (map (zip cols) rows)"
proof -
  have "list_all (list_all cell_quoting.covers_member) (map (zip cols) rows)"
    by (simp add: cell_quoting.covers_member_def list_all_iff)
  moreover have "row_json cols = (\<lambda>row. object_text escape_json (zip cols row))"
    by (simp add: fun_eq_iff row_json_def)
  ultimately show ?thesis
    using cell_quoting.read_object_list [of "map (zip cols) rows"] by (simp add: rows_to_json_def comp_def)
qed

text \<open>
  C10: the one text that a query hands back carries the whole result set. Reading the JSON text
  of a query that returned rows gives, for every row, the column names with their cells in order, null for SQL
  null, for all column names and cell texts.
\<close>

theorem rows_json_roundtrip:
  assumes "m_conn s = Some conn" "pq conn (c_str sql) = (conn', Tuples cols rows)"
  shows "read_rows (fst (snd (db_query pq sql s))) = Some (map (zip cols) rows) \<and>
    m_conn (fst (db_query pq sql s)) = Some conn'"
  using assms by (simp add: db_query_def exec_def read_rows_json)

theorem rows_json_roundtrip_witness:
  "read_rows (fst (snd (db_query (\<lambda>n _. (Suc n, Tuples [''a'', [dquote]] [[Some [CHR 0x07], None], [Some '''', Some ''x'']]))
      ''SELECT 1'' \<lparr>m_conn = Some 0\<rparr>))) =
   Some [[(''a'', Some [CHR 0x07]), ([dquote], None)], [(''a'', Some ''''), ([dquote], Some ''x'')]]"
  using rows_json_roundtrip [of "\<lparr>m_conn = Some 0\<rparr>" 0
      "\<lambda>n _. (Suc n, Tuples [''a'', [dquote]] [[Some [CHR 0x07], None], [Some '''', Some ''x'']])" "''SELECT 1''" 1]
  by simp

section \<open>Answers\<close>

text \<open>Without a connection every operation answers with the empty text and changes nothing.\<close>

lemma postgres_degrades:
  assumes "connect (c_str (connstr cfg)) = Inl err" "s' = fst (postgres_on_load pq connect has_log cfg s)"
  shows "\<not> is_connected s'" "exec pq sql s' = (s', '''', [Log WARNING ''postgres''])"
    "search pq c q s' = (s', '''', [Log WARNING ''postgres''])"
  using assms by (simp_all add: postgres_on_load_def is_connected_def exec_def search_def)

text \<open>
  The connector's \<open>find\<close> decodes the answer to its select as one object. The answer of a query
  that returns rows is an array, also when there is no row, and the row's text is a string
  inside an object inside it.
\<close>

lemma query_answer_is_array:
  assumes "m_conn s = Some conn" "pq conn (c_str sql) = (conn', Tuples cols rows)"
  shows "hd (fst (snd (db_query pq sql s))) = CHR ''[''"
  using assms by (simp add: db_query_def exec_def rows_to_json_def json_list_def)

lemma select_answer_nests_row:
  assumes "m_conn s = Some conn" "pq conn (c_str sql) = (conn', Tuples [''row_to_json''] [[Some row]])"
  shows "read_rows (fst (snd (db_query pq sql s))) = Some [[(''row_to_json'', Some row)]]"
  using assms by (simp add: db_query_def exec_def read_rows_json)

end
