(* ===== verification/Elasticsearch.thy ===== *)
theory Elasticsearch
  imports Search
begin

text \<open>
  \<open>ElasticsearchPlugin\<close> of plugins/search/elasticsearch/bin/elasticsearch_plugin.cc: requests
  over libcurl, the three operations of \<open>ISearchProvider\<close>, and the scanner that takes the
  documents out of a response. libcurl is not part of the sources: \<open>curl\<close> stands for one
  handle from \<open>curl_easy_init\<close> to \<open>curl_easy_perform\<close>, given the method, the URL, the body if
  one is set and the credentials if there are any.
\<close>

section \<open>Requests\<close>

datatype curl_result =
    No_handle
  | Transport_error string "string list"
  | Response int "string list"

type_synonym curl = "string \<Rightarrow> string \<Rightarrow> string option \<Rightarrow> (string \<times> string) option \<Rightarrow> curl_result"

record elastic =
  m_base_url :: string
  m_index_prefix :: string
  m_username :: string
  m_password :: string

definition init_elastic :: elastic where
  "init_elastic = \<lparr>m_base_url = '''', m_index_prefix = '''', m_username = '''', m_password = ''''\<rparr>"

text \<open>The write callback appends a chunk of the response; it is called once per chunk.\<close>

definition write_callback :: "string \<Rightarrow> string \<Rightarrow> string" where
  "write_callback chunk out = out @ chunk"

definition request :: "curl \<Rightarrow> elastic \<Rightarrow> string \<Rightarrow> string \<Rightarrow> string \<Rightarrow> (int \<times> string) \<times> effects" where
  "request curl s meth url body =
     (case curl meth (c_str url) (if body = '''' then None else Some body)
             (if m_username s = '''' then None else Some (c_str (m_username s), c_str (m_password s))) of
        No_handle \<Rightarrow> ((0, ''''), [])
      | Response status chunks \<Rightarrow> ((status, fold write_callback chunks ''''), [])
      | Transport_error err chunks \<Rightarrow>
          ((0, fold write_callback chunks ''''),
           [Log WARNING ''elasticsearch'',
            Publish ''elasticsearch.request_failed'' [(''method'', meth), (''url'', url), (''error'', err)]]))"

text \<open>The flag of \<open>es_on_load\<close> says whether it throws.\<close>

definition es_on_load :: "curl \<Rightarrow> config \<Rightarrow> elastic \<Rightarrow> (elastic \<times> bool) \<times> effects" where
  "es_on_load curl cfg s =
     (let s = s\<lparr>m_base_url := (case config_get cfg ''hosts'' of None \<Rightarrow> ''http://localhost:9200'' | Some v \<Rightarrow> v),
                m_index_prefix := (case config_get cfg ''index_prefix'' of None \<Rightarrow> ''congelado_'' | Some v \<Rightarrow> v),
                m_username := (case config_get cfg ''username'' of None \<Rightarrow> '''' | Some v \<Rightarrow> v),
                m_password := (case config_get cfg ''password'' of None \<Rightarrow> '''' | Some v \<Rightarrow> v)\<rparr>;
          ((status, body), es) = request curl s ''GET'' (m_base_url s) ''''
      in if status = 0 then
           ((s, True), es @ [Log ERROR ''elasticsearch'',
              Publish ''elasticsearch.connect_failed'' [(''url'', m_base_url s)]])
         else ((s, False), es @ [Log DEBUG ''elasticsearch'']))"

definition doc_url :: "elastic \<Rightarrow> string \<Rightarrow> string \<Rightarrow> string" where
  "doc_url s collection doc_id =
     m_base_url s @ ''/'' @ m_index_prefix s @ collection @ ''/_doc/'' @ doc_id"

definition index :: "curl \<Rightarrow> string \<Rightarrow> string \<Rightarrow> string \<Rightarrow> elastic \<Rightarrow> elastic \<times> string \<times> effects" where
  "index curl collection doc_id document_json s =
     (let ((status, body), es) = request curl s ''PUT'' (doc_url s collection doc_id) document_json
      in (s, if status \<ge> 200 \<and> status < 300 then ''ok'' else '''', es))"

definition remove :: "curl \<Rightarrow> string \<Rightarrow> string \<Rightarrow> elastic \<Rightarrow> elastic \<times> string \<times> effects" where
  "remove curl collection doc_id s =
     (let ((status, body), es) = request curl s ''DELETE'' (doc_url s collection doc_id) ''''
      in (s, if (status \<ge> 200 \<and> status < 300) \<or> status = 404 then ''ok'' else '''', es))"

definition escape_json :: "string \<Rightarrow> string" where
  "escape_json v =
     concat (map (\<lambda>c.
       if c = dquote then [backslash, dquote]
       else if c = backslash then [backslash, backslash]
       else if c = CHR 0x0A then [backslash, CHR ''n'']
       else [c]) v)"

section \<open>Scanning a response\<close>

text \<open>
  The loop of \<open>matching_brace\<close> on the text from its index on; the result counts from there. An
  escape inside a string skips the next character.
\<close>

fun scan_brace :: "int \<Rightarrow> bool \<Rightarrow> string \<Rightarrow> nat option" where
  "scan_brace depth in_string [] = None"
| "scan_brace depth True (c # cs) =
     (if c = backslash then map_option (\<lambda>i. i + 2) (scan_brace depth True (tl cs))
      else map_option Suc (scan_brace depth (c \<noteq> dquote) cs))"
| "scan_brace depth False (c # cs) =
     (if c = dquote then map_option Suc (scan_brace depth True cs)
      else if c = CHR ''{'' then map_option Suc (scan_brace (depth + 1) False cs)
      else if c = CHR ''}'' then
        (if depth - 1 = 0 then Some 0 else map_option Suc (scan_brace (depth - 1) False cs))
      else map_option Suc (scan_brace depth False cs))"

definition matching_brace :: "string \<Rightarrow> nat \<Rightarrow> nat option" where
  "matching_brace text start = map_option (\<lambda>i. start + i) (scan_brace 0 False (drop start text))"

definition MARKER :: string where
  "MARKER = [dquote] @ ''_source'' @ [dquote] @ '':''"

text \<open>\<open>find\<close> of a text and of a character from a position on.\<close>

definition find_from :: "string \<Rightarrow> string \<Rightarrow> nat \<Rightarrow> nat option" where
  "find_from n text pos = map_option (\<lambda>i. pos + i) (find_sub n (drop pos text))"

definition find_char_from :: "char \<Rightarrow> string \<Rightarrow> nat \<Rightarrow> nat option" where
  "find_char_from c text pos = map_option (\<lambda>i. pos + i) (find_char c (drop pos text))"

lemma scan_brace_less: "scan_brace d b s = Some i \<Longrightarrow> i < length s"
proof (induction d b s arbitrary: i rule: scan_brace.induct)
  case (2 depth c cs)
  then show ?case by (cases cs) (fastforce split: if_splits)+
qed (fastforce split: if_splits)+

lemma matching_brace_range: "matching_brace text b = Some e \<Longrightarrow> b \<le> e \<and> e < length text"
  by (auto simp: matching_brace_def dest: scan_brace_less)

function extract_loop :: "string \<Rightarrow> nat \<Rightarrow> string list" where
  "extract_loop response pos =
     (case find_from MARKER response pos of
        None \<Rightarrow> []
      | Some marker_pos \<Rightarrow>
          (case find_char_from CHR ''{'' response (marker_pos + length MARKER) of
             None \<Rightarrow> []
           | Some brace_start \<Rightarrow>
               (case matching_brace response brace_start of
                  None \<Rightarrow> []
                | Some brace_end \<Rightarrow>
                    take (brace_end - brace_start + 1) (drop brace_start response) #
                    extract_loop response (brace_end + 1))))"
  by pat_completeness auto
termination
  by (relation "measure (\<lambda>(r, pos). Suc (length r) - pos)")
    (auto simp: find_from_def find_char_from_def dest!: matching_brace_range)

declare extract_loop.simps [simp del]

definition extract_sources :: "string \<Rightarrow> string" where
  "extract_sources response = json_list (extract_loop response 0)"

definition search_body :: "search_query \<Rightarrow> string" where
  "search_body q =
     (let clause = (if sq_query q = '''' then ''{'' @ [dquote] @ ''match_all'' @ [dquote] @ '':{}}'' else sq_query q);
          clause = (if sq_free_text q = '''' then clause
             else ''{'' @ [dquote] @ ''bool'' @ [dquote] @ '':{'' @ [dquote] @ ''must'' @ [dquote] @ '':['' @ clause @
               '',{'' @ [dquote] @ ''query_string'' @ [dquote] @ '':{'' @ [dquote] @ ''query'' @ [dquote] @ '':'' @
               [dquote] @ escape_json (sq_free_text q) @ [dquote] @ ''}}]}}'')
      in ''{'' @ [dquote] @ ''from'' @ [dquote] @ '':'' @ show_nat (unat (sq_start q)) @ '','' @
         [dquote] @ ''size'' @ [dquote] @ '':'' @ show_nat (unat (sq_size q)) @ '','' @
         [dquote] @ ''query'' @ [dquote] @ '':'' @ clause @ ''}'')"

definition search :: "curl \<Rightarrow> string \<Rightarrow> search_query \<Rightarrow> elastic \<Rightarrow> elastic \<times> string \<times> effects" where
  "search curl collection q s =
     (let url = m_base_url s @ ''/'' @ m_index_prefix s @ collection @ ''/_search'';
          ((status, response), es) = request curl s ''POST'' url (search_body q)
      in if status < 200 \<or> status \<ge> 300 then (s, '''', es) else (s, extract_sources response, es))"

definition es_class :: "curl \<Rightarrow> elastic plugin_class" where
  "es_class curl = default_plugin
     \<lparr>c_name := (\<lambda>_. ''elasticsearch''), c_version := (\<lambda>_. ''0.1.0''),
      c_capabilities := (\<lambda>_. cap_bit RUN_SEARCH),
      c_on_load := (\<lambda>cfg s. fst (es_on_load curl cfg s)),
      c_get := (\<lambda>t _. if t = RUN_SEARCH then 1 else 0)\<rparr>"

interpretation es_caps: advertised "es_class curl"
  by unfold_locales (rename_tac t p, case_tac t; simp add: es_class_def)

interpretation es_search: isearch "search curl"
  by unfold_locales (auto simp: search_def extract_sources_def Let_def split: prod.splits)

section \<open>The documents of a response\<close>

text \<open>
  JSON texts as a server writes them: atoms are numbers, booleans and null, and the texts
  between the quotes of strings and member names are kept as they are on the wire.
\<close>

datatype json = JAtom string | JStr string | JArr "json list" | JObj "(string \<times> json) list"

fun render :: "json \<Rightarrow> string" where
  "render (JAtom a) = a"
| "render (JStr b) = [dquote] @ b @ [dquote]"
| "render (JArr xs) = ''['' @ prefixed '''' '','' (map render xs) @ '']''"
| "render (JObj ms) = ''{'' @ prefixed '''' '','' (map (\<lambda>(k, v). [dquote] @ k @ [dquote] @ '':'' @ render v) ms) @ ''}''"

text \<open>The text of a string literal: every quote in it is escaped.\<close>

fun str_body :: "string \<Rightarrow> bool" where
  "str_body [] = True"
| "str_body (c # cs) =
     (if c = dquote then False
      else if c = backslash then cs \<noteq> [] \<and> str_body (tl cs)
      else str_body cs)"

fun wf_json :: "json \<Rightarrow> bool" where
  "wf_json (JAtom a) = list_all (\<lambda>c. c \<noteq> dquote \<and> c \<noteq> CHR ''{'' \<and> c \<noteq> CHR ''}'') a"
| "wf_json (JStr b) = str_body b"
| "wf_json (JArr xs) = list_all wf_json xs"
| "wf_json (JObj ms) = list_all (\<lambda>(k, v). str_body k \<and> wf_json v) ms"

text \<open>A text that the scanner passes without change of depth.\<close>

definition neutral :: "string \<Rightarrow> bool" where
  "neutral u \<longleftrightarrow> (\<forall>depth t. depth \<ge> 1 \<longrightarrow>
     scan_brace depth False (u @ t) = map_option (\<lambda>i. length u + i) (scan_brace depth False t))"

lemma neutralD:
  "neutral u \<Longrightarrow> depth \<ge> 1 \<Longrightarrow>
   scan_brace depth False (u @ t) = map_option (\<lambda>i. length u + i) (scan_brace depth False t)"
  by (simp add: neutral_def)

lemma neutral_Nil [simp]: "neutral []"
  by (simp add: neutral_def option.map_ident)

lemma neutral_append [intro]: "neutral u \<Longrightarrow> neutral v \<Longrightarrow> neutral (u @ v)"
  by (simp add: neutral_def option.map_comp comp_def add.assoc)

lemma neutral_char: "c \<noteq> dquote \<Longrightarrow> c \<noteq> CHR ''{'' \<Longrightarrow> c \<noteq> CHR ''}'' \<Longrightarrow> neutral [c]"
  by (simp add: neutral_def)

lemma neutral_atom: "list_all (\<lambda>c. c \<noteq> dquote \<and> c \<noteq> CHR ''{'' \<and> c \<noteq> CHR ''}'') a \<Longrightarrow> neutral a"
proof (induction a)
  case (Cons c a)
  then show ?case using neutral_append [of "[c]" a] neutral_char [of c] by simp
qed simp

lemma neutral_prefixed:
  "neutral p \<Longrightarrow> neutral q \<Longrightarrow> \<forall>x \<in> set xs. neutral x \<Longrightarrow> neutral (prefixed p q xs)"
  by (induction p q xs rule: prefixed.induct) (simp_all add: neutral_append)

lemma scan_string:
  "str_body b \<Longrightarrow> scan_brace depth True (b @ dquote # t) =
     map_option (\<lambda>i. length b + 1 + i) (scan_brace depth False t)"
proof (induction b rule: str_body.induct)
  case 1
  then show ?case by simp
next
  case (2 c cs)
  show ?case
  proof (cases "c = backslash")
    case True
    then show ?thesis using 2 by (cases cs) (auto simp: option.map_comp comp_def)
  next
    case False
    then show ?thesis using 2 by (auto simp: option.map_comp comp_def split: if_splits)
  qed
qed

lemma neutral_string: "str_body b \<Longrightarrow> neutral ([dquote] @ b @ [dquote])"
  by (simp add: neutral_def scan_string option.map_comp comp_def)

lemma scan_object:
  assumes "neutral u" "depth \<ge> 0"
  shows "scan_brace depth False (''{'' @ u @ ''}'' @ t) =
    (if depth = 0 then Some (length u + 1) else map_option (\<lambda>i. length u + 2 + i) (scan_brace depth False t))"
  using neutralD [OF assms(1), of "depth + 1" "''}'' @ t"] assms(2)
  by (simp add: option.map_comp comp_def)

lemma neutral_object: "neutral u \<Longrightarrow> neutral (''{'' @ u @ ''}'')"
  unfolding neutral_def [of "''{'' @ u @ ''}''"]
  by (intro allI impI, rename_tac depth t, case_tac "scan_brace depth False t") (simp_all add: neutralD)

lemma neutral_members:
  assumes "list_all (\<lambda>(k, v). str_body k \<and> neutral (render v)) ms"
  shows "neutral (prefixed '''' '','' (map (\<lambda>(k, v). [dquote] @ k @ [dquote] @ '':'' @ render v) ms))"
proof -
  have "neutral ([dquote] @ k @ [dquote] @ '':'' @ render v)" if "(k, v) \<in> set ms" for k v
  proof -
    have "str_body k" "neutral (render v)" using that assms by (auto simp: list_all_iff)
    then show ?thesis
      using neutral_append [OF neutral_string [of k], of "'':'' @ render v"]
        neutral_append [OF neutral_char [of "CHR '':''"], of "render v"] by simp
  qed
  then show ?thesis by (intro neutral_prefixed) (auto simp: neutral_char)
qed

lemma neutral_render: "wf_json v \<Longrightarrow> neutral (render v)"
proof (induction v)
  case (JAtom a)
  then show ?case using neutral_atom by simp
next
  case (JStr b)
  then show ?case using neutral_string by simp
next
  case (JArr xs)
  then have "neutral (prefixed '''' '','' (map render xs))"
    by (intro neutral_prefixed) (auto simp: neutral_char list_all_iff)
  then have "neutral (''['' @ prefixed '''' '','' (map render xs) @ '']'')"
    by (intro neutral_append neutral_char) simp_all
  then show ?case by simp
next
  case (JObj ms)
  then have "list_all (\<lambda>(k, v). str_body k \<and> neutral (render v)) ms" by (auto simp: list_all_iff)
  from neutral_object [OF neutral_members [OF this]] show ?case by simp
qed

lemma matching_brace_object:
  assumes "wf_json (JObj ms)"
  shows "matching_brace (pre @ render (JObj ms) @ t) (length pre) =
    Some (length pre + length (render (JObj ms)) - 1)"
proof -
  have "list_all (\<lambda>(k, v). str_body k \<and> neutral (render v)) ms"
    using assms neutral_render by (auto simp: list_all_iff)
  from scan_object [OF neutral_members [OF this], of 0 t] show ?thesis by (simp add: matching_brace_def)
qed

text \<open>
  A hit: text without the marker, the marker, and the document, which the server writes right
  after it.
\<close>

definition hit_ok :: "string \<times> (string \<times> json) list \<Rightarrow> bool" where
  "hit_ok h \<longleftrightarrow> find_sub MARKER (fst h @ MARKER) = Some (length (fst h)) \<and> wf_json (JObj (snd h))"

definition hit_text :: "string \<times> (string \<times> json) list \<Rightarrow> string" where
  "hit_text h = fst h @ MARKER @ render (JObj (snd h))"

lemma extract_loop_hits:
  assumes "list_all hit_ok hits" "find_sub MARKER rest = None"
  shows "extract_loop (pre @ concat (map hit_text hits) @ rest) (length pre) = map (\<lambda>h. render (JObj (snd h))) hits"
  using assms(1)
proof (induction hits arbitrary: pre)
  case Nil
  then show ?case using assms(2) by (subst extract_loop.simps) (simp add: find_from_def)
next
  case (Cons h hits)
  obtain g ms where h: "h = (g, ms)" by (cases h)
  let ?d = "render (JObj ms)" and ?t = "concat (map hit_text hits) @ rest"
  let ?r = "pre @ g @ MARKER @ ?d @ ?t" and ?p = "pre @ g @ MARKER" and ?p' = "pre @ g @ MARKER @ ?d"
  have ok: "find_sub MARKER (g @ MARKER) = Some (length g)" "wf_json (JObj ms)"
    using Cons.prems h by (simp_all add: hit_ok_def)
  have f: "find_from MARKER ?r (length pre) = Some (length pre + length g)"
    using find_sub_append [OF ok(1), of "?d @ ?t"] by (simp add: find_from_def)
  have c: "find_char_from CHR ''{'' ?r (length pre + length g + length MARKER) = Some (length ?p)"
    by (simp add: find_char_from_def)
  have m: "matching_brace ?r (length ?p) = Some (length ?p + length ?d - 1)"
    using matching_brace_object [OF ok(2), of ?p ?t] by simp
  have len: "length ?d \<ge> 1" by simp
  then have tk: "take (length ?p + length ?d - 1 - length ?p + 1) (drop (length ?p) ?r) = ?d" by simp
  have nxt: "length ?p + length ?d - 1 + 1 = length ?p'" using len by simp
  have "extract_loop ?r (length pre) = ?d # extract_loop ?r (length ?p')"
    by (subst extract_loop.simps) (simp only: f c m tk nxt option.case)
  moreover have "extract_loop ?r (length ?p') = map (\<lambda>h. render (JObj (snd h))) hits"
    using Cons.IH [of ?p'] Cons.prems by simp
  moreover have "hit_text h = g @ MARKER @ ?d" by (simp add: hit_text_def h)
  ultimately show ?case using h by (simp del: render.simps)
qed

text \<open>
  C25: the documents of a search come back complete and in order. For every response that
  consists of hits, each with arbitrary text without the marker before its document, and any
  rest without the marker, \<open>search\<close> answers with the JSON array of exactly the documents,
  however deep they nest and whatever their strings contain, braces, escaped quotes and the
  marker itself included.
\<close>

theorem search_returns_documents:
  assumes "list_all hit_ok hits" "find_sub MARKER rest = None"
    and "request curl s ''POST'' (m_base_url s @ ''/'' @ m_index_prefix s @ collection @ ''/_search'') (search_body q) =
      ((status, concat (map hit_text hits) @ rest), es)"
    and "200 \<le> status" "status < 300"
  shows "search curl collection q s = (s, json_list (map (\<lambda>h. render (JObj (snd h))) hits), es)"
  using assms(3-5) extract_loop_hits [OF assms(1,2), of "[]"] by (simp add: search_def extract_sources_def)

theorem search_returns_documents_witness:
  "search (\<lambda>_ _ _ _. Response 200 [''{'' @ MARKER, ''{'' @ [dquote] @ ''a'' @ [dquote] @ '':'' @ [dquote] @ ''}'' @ [dquote] @ ''}}''])
      ''c'' \<lparr>sq_query = '''', sq_free_text = '''', sq_start = 0, sq_size = 1, sq_sort = ''''\<rparr> init_elastic =
   (init_elastic, ''[{'' @ [dquote] @ ''a'' @ [dquote] @ '':'' @ [dquote] @ ''}'' @ [dquote] @ ''}]'', [])"
  using search_returns_documents [of "[(''{'', [(''a'', JStr ''}'')])]" "''}''"
      "\<lambda>_ _ _ _. Response 200 [''{'' @ MARKER, ''{'' @ [dquote] @ ''a'' @ [dquote] @ '':'' @ [dquote] @ ''}'' @ [dquote] @ ''}}'']"
      init_elastic "''c''" "\<lparr>sq_query = '''', sq_free_text = '''', sq_start = 0, sq_size = 1, sq_sort = ''''\<rparr>" 200 "[]"]
  by (simp add: hit_ok_def hit_text_def MARKER_def request_def write_callback_def json_list_def)

section \<open>Reaching the node\<close>

definition probe_url :: "config \<Rightarrow> string" where
  "probe_url cfg = (case config_get cfg ''hosts'' of None \<Rightarrow> ''http://localhost:9200'' | Some v \<Rightarrow> v)"

definition probe_cred :: "config \<Rightarrow> (string \<times> string) option" where
  "probe_cred cfg =
     (case config_get cfg ''username'' of
        None \<Rightarrow> None
      | Some u \<Rightarrow>
          if u = '''' then None
          else Some (c_str u, c_str (case config_get cfg ''password'' of None \<Rightarrow> '''' | Some v \<Rightarrow> v)))"

lemma es_on_load_throws:
  "snd (fst (es_on_load curl cfg s)) \<longleftrightarrow>
   \<not> (\<exists>status chunks. curl ''GET'' (c_str (probe_url cfg)) None (probe_cred cfg) = Response status chunks \<and> status \<noteq> 0)"
proof -
  let ?s = "s\<lparr>m_base_url := probe_url cfg,
    m_index_prefix := (case config_get cfg ''index_prefix'' of None \<Rightarrow> ''congelado_'' | Some v \<Rightarrow> v),
    m_username := (case config_get cfg ''username'' of None \<Rightarrow> '''' | Some v \<Rightarrow> v),
    m_password := (case config_get cfg ''password'' of None \<Rightarrow> '''' | Some v \<Rightarrow> v)\<rparr>"
  have cred: "(if m_username ?s = '''' then None else Some (c_str (m_username ?s), c_str (m_password ?s))) = probe_cred cfg"
    by (simp add: probe_cred_def split: option.split)
  have "snd (fst (es_on_load curl cfg s)) \<longleftrightarrow> fst (fst (request curl ?s ''GET'' (probe_url cfg) '''')) = 0"
    by (simp add: es_on_load_def probe_url_def Let_def split: prod.split)
  also have "\<dots> \<longleftrightarrow> \<not> (\<exists>status chunks.
      curl ''GET'' (c_str (probe_url cfg)) None (probe_cred cfg) = Response status chunks \<and> status \<noteq> 0)"
    unfolding request_def cred by (simp split: curl_result.split)
  finally show ?thesis .
qed

section \<open>The free text of a query\<close>

text \<open>
  The escaper covers quotes, backslashes and line feeds. Another control character goes into the
  literal as it is, where JSON does not allow it.
\<close>

interpretation text_quoting: json_quoting escape_json "list_all (\<lambda>c. is_control c \<longrightarrow> c = CHR 0x0A)"
  by (rule json_quoting_chars [OF escape_json_def]) (auto simp: json_chars list_all_iff)

lemma free_text_tab_unreadable: "read_json_string (escape_json [CHR 0x09] @ [dquote]) = None"
  by (simp add: escape_json_def is_control_def)

text \<open>The path of a document is spliced in raw: two different documents can share their URL.\<close>

lemma doc_url_collision: "doc_url s ''a'' ''../../b/_doc/x'' = doc_url s ''a/_doc/../../b'' ''x''"
  by (simp add: doc_url_def)

end
