(* ===== verification/Events.thy ===== *)
theory Events
  imports Cache TextCodec
begin

text \<open>
  The event bus: \<open>core::events\<close> (include/core/events/events.cppm, registry.cppm), which flattens
  a payload to JSON and hands it to every sink, and the sinks of
  plugins/events/memory, plugins/events/rabbitmq and plugins/events/kafka. rabbitmq-c and
  librdkafka are not part of the sources and are parameters. The Redis sink is in theory Cache.
\<close>

section \<open>The bus\<close>

definition escape_json :: "string \<Rightarrow> string" where
  "escape_json v =
     concat (map (\<lambda>c.
       if c = dquote then [backslash, dquote]
       else if c = backslash then [backslash, backslash]
       else if c = CHR 0x0A then [backslash, CHR ''n'']
       else if c = CHR 0x0D then [backslash, CHR ''r'']
       else if c = CHR 0x09 then [backslash, CHR ''t'']
       else [c]) v)"

text \<open>The payload in the iteration order of its map.\<close>

definition to_json :: "payload \<Rightarrow> string" where
  "to_json p = object_text escape_json (map (map_prod id Some) p)"

text \<open>
  The registry, with one publish function for all its sinks; \<open>add_sink\<close> drops a null pointer.
\<close>

definition add_sink :: "'s option \<Rightarrow> 's list \<Rightarrow> 's list" where
  "add_sink sink sinks = (case sink of None \<Rightarrow> sinks | Some s \<Rightarrow> sinks @ [s])"

fun fan_out :: "('s \<Rightarrow> 's \<times> effects) \<Rightarrow> 's list \<Rightarrow> 's list \<times> effects" where
  "fan_out f [] = ([], [])"
| "fan_out f (s # ss) = (let (s', es) = f s; (ss', es') = fan_out f ss in (s' # ss', es @ es'))"

definition bus_publish ::
  "(string \<Rightarrow> string \<Rightarrow> 's \<Rightarrow> 's \<times> effects) \<Rightarrow> string \<Rightarrow> payload \<Rightarrow> 's list option \<Rightarrow> 's list option \<times> effects" where
  "bus_publish pub event_name payload registry =
     (case registry of
        None \<Rightarrow> (None, [Log DEBUG ''events''])
      | Some sinks \<Rightarrow>
          if sinks = [] then (Some [], [Log DEBUG ''events''])
          else let (sinks', es) = fan_out (pub event_name (to_json payload)) sinks in (Some sinks', es))"

section \<open>The memory sink\<close>

record memory_events =
  m_recent :: "(string \<times> string) list"
  m_max_events :: nat

definition init_memory :: memory_events where
  "init_memory = \<lparr>m_recent = [], m_max_events = 200\<rparr>"

definition memory_on_load :: "config \<Rightarrow> memory_events \<Rightarrow> memory_events \<times> effects" where
  "memory_on_load cfg s =
     (s\<lparr>m_max_events := (case stoul (value_or (config_get cfg ''max_events'') ''200'') of Inl _ \<Rightarrow> 200 | Inr n \<Rightarrow> n)\<rparr>,
      [Log DEBUG ''events''])"

text \<open>The eviction loop, which drops from the front while there are too many.\<close>

function evict :: "nat \<Rightarrow> 'a list \<Rightarrow> 'a list" where
  "evict m xs = (if length xs > m then evict m (tl xs) else xs)"
  by pat_completeness auto
termination by (relation "measure (\<lambda>(m, xs). length xs)") auto

declare evict.simps [simp del]

definition memory_publish :: "string \<Rightarrow> string \<Rightarrow> memory_events \<Rightarrow> memory_events \<times> effects" where
  "memory_publish event_name payload_json s =
     (s\<lparr>m_recent := evict (m_max_events s) (m_recent s @ [(event_name, payload_json)])\<rparr>, [Log DEBUG ''events''])"

definition memory_class :: "memory_events plugin_class" where
  "memory_class = default_plugin
     \<lparr>c_name := (\<lambda>_. ''memory''), c_version := (\<lambda>_. ''0.1.0''), c_capabilities := (\<lambda>_. cap_bit RUN_EVENTS),
      c_on_load := (\<lambda>cfg s. (fst (memory_on_load cfg s), False)),
      c_get := (\<lambda>t _. if t = RUN_EVENTS then 1 else 0)\<rparr>"

interpretation memory_caps: advertised memory_class
  by unfold_locales (rename_tac t p, case_tac t; simp add: memory_class_def)

section \<open>The RabbitMQ sink\<close>

text \<open>
  The calls of rabbitmq-c that the plugin makes: a fresh connection, opening its socket, the
  login, the channel and a publish with its status, 0 for \<open>AMQP_STATUS_OK\<close>.
\<close>

record 'q amqp =
  amqp_new :: 'q
  amqp_socket :: "string \<Rightarrow> int \<Rightarrow> 'q \<Rightarrow> 'q \<times> bool"
  amqp_login :: "string \<Rightarrow> string \<Rightarrow> string \<Rightarrow> 'q \<Rightarrow> 'q \<times> bool"
  amqp_channel :: "'q \<Rightarrow> 'q \<times> bool"
  amqp_publish :: "string \<Rightarrow> string \<Rightarrow> string \<Rightarrow> 'q \<Rightarrow> 'q \<times> int"

record 'q rabbit =
  rmq_conn :: "'q option"
  m_channel_open :: bool
  m_exchange :: string

definition init_rabbit :: "'q rabbit" where
  "init_rabbit = \<lparr>rmq_conn = None, m_channel_open = False, m_exchange = ''''\<rparr>"

text \<open>The flag says whether \<open>on_load\<close> throws.\<close>

definition rabbit_on_load :: "'q amqp \<Rightarrow> config \<Rightarrow> 'q rabbit \<Rightarrow> ('q rabbit \<times> bool) \<times> effects" where
  "rabbit_on_load A cfg s =
     (let host_str = value_or (config_get cfg ''host'') ''localhost'';
          port_str = value_or (config_get cfg ''port'') ''5672'';
          vhost = value_or (config_get cfg ''vhost'') ''/'';
          user = value_or (config_get cfg ''user'') ''guest'';
          password = value_or (config_get cfg ''password'') ''guest'';
          s = s\<lparr>m_exchange := value_or (config_get cfg ''exchange'') ''''\<rparr>;
          port = (case stoi port_str of Inl _ \<Rightarrow> 5672 | Inr p \<Rightarrow> p);
          target = [(''host'', host_str), (''port'', show_int port)];
          (q, up) = amqp_socket A (c_str host_str) port (amqp_new A)
      in if \<not> up then
           ((s\<lparr>rmq_conn := Some q\<rparr>, True), [Log ERROR ''rabbitmq'', Publish ''rabbitmq.connect_failed'' target])
         else
           let (q, ok) = amqp_login A (c_str vhost) (c_str user) (c_str password) q
           in if \<not> ok then
                ((s\<lparr>rmq_conn := Some q\<rparr>, True),
                 [Log ERROR ''rabbitmq'', Publish ''rabbitmq.login_failed'' (target @ [(''vhost'', vhost)])])
              else
                let (q, ch) = amqp_channel A q
                in if \<not> ch then
                     ((s\<lparr>rmq_conn := Some q\<rparr>, True),
                      [Log ERROR ''rabbitmq'', Publish ''rabbitmq.channel_open_failed'' []])
                   else ((s\<lparr>rmq_conn := Some q, m_channel_open := True\<rparr>, False), [Log DEBUG ''rabbitmq'']))"

text \<open>\<open>on_unload\<close> closes through the connection when the flag says that the channel is open.\<close>

definition rabbit_on_unload :: "'q amqp \<Rightarrow> 'q rabbit \<Rightarrow> 'q rabbit may_ub" where
  "rabbit_on_unload A s =
     (if m_channel_open s \<and> rmq_conn s = None then Inl Null_dereference else Inr (s\<lparr>rmq_conn := None\<rparr>))"

definition rabbit_publish :: "'q amqp \<Rightarrow> string \<Rightarrow> string \<Rightarrow> 'q rabbit \<Rightarrow> ('q rabbit \<times> effects) may_ub" where
  "rabbit_publish A event_name payload_json s =
     (if \<not> m_channel_open s then Inr (s, [Log WARNING ''rabbitmq''])
      else case rmq_conn s of
             None \<Rightarrow> Inl Null_dereference
           | Some q \<Rightarrow>
               (let (q', status) = amqp_publish A (c_str (m_exchange s)) (c_str event_name) (c_str payload_json) q
                in Inr (s\<lparr>rmq_conn := Some q'\<rparr>, if status \<noteq> 0 then [Log WARNING ''rabbitmq''] else [])))"

definition rabbit_class :: "'q amqp \<Rightarrow> 'q rabbit plugin_class" where
  "rabbit_class A = default_plugin
     \<lparr>c_name := (\<lambda>_. ''rabbitmq''), c_version := (\<lambda>_. ''0.1.0''), c_capabilities := (\<lambda>_. cap_bit RUN_EVENTS),
      c_on_load := (\<lambda>cfg s. fst (rabbit_on_load A cfg s)),
      c_get := (\<lambda>t _. if t = RUN_EVENTS then 1 else 0)\<rparr>"

interpretation rabbit_caps: advertised "rabbit_class A"
  by unfold_locales (rename_tac t p, case_tac t; simp add: rabbit_class_def)

section \<open>The Kafka sink\<close>

text \<open>
  The calls of librdkafka: setting the broker list of a configuration and creating the producer,
  an error text or the result, a message with its error, and the polls.
\<close>

record 'k rdkafka =
  conf_set :: "string \<Rightarrow> string option"
  kafka_new :: "string \<Rightarrow> string + 'k"
  producev :: "string \<Rightarrow> string \<Rightarrow> string \<Rightarrow> 'k \<Rightarrow> 'k \<times> bool"
  kafka_poll :: "'k \<Rightarrow> 'k"

record 'k kafka =
  m_producer :: "'k option"
  m_topic :: string

definition init_kafka :: "'k kafka" where
  "init_kafka = \<lparr>m_producer = None, m_topic = ''''\<rparr>"

definition kafka_on_load :: "'k rdkafka \<Rightarrow> config \<Rightarrow> 'k kafka \<Rightarrow> ('k kafka \<times> bool) \<times> effects" where
  "kafka_on_load K cfg s =
     (let s = s\<lparr>m_topic := value_or (config_get cfg ''topic'') ''congelado-events''\<rparr>;
          brokers = value_or (config_get cfg ''bootstrap_servers'') ''localhost:9092''
      in case conf_set K (c_str brokers) of
           Some err \<Rightarrow> ((s, True), [Log ERROR ''kafka'', Publish ''kafka.config_failed'' [(''error'', err)]])
         | None \<Rightarrow>
             (case kafka_new K (c_str brokers) of
                Inl err \<Rightarrow>
                  ((s\<lparr>m_producer := None\<rparr>, True),
                   [Log ERROR ''kafka'', Publish ''kafka.producer_create_failed'' [(''error'', err)]])
              | Inr k \<Rightarrow> ((s\<lparr>m_producer := Some k\<rparr>, False), [Log DEBUG ''kafka''])))"

definition kafka_on_unload :: "'k kafka \<Rightarrow> 'k kafka" where
  "kafka_on_unload s = s\<lparr>m_producer := None\<rparr>"

definition kafka_publish :: "'k rdkafka \<Rightarrow> string \<Rightarrow> string \<Rightarrow> 'k kafka \<Rightarrow> 'k kafka \<times> effects" where
  "kafka_publish K event_name payload_json s =
     (case m_producer s of
        None \<Rightarrow> (s, [Log WARNING ''kafka''])
      | Some k \<Rightarrow>
          (let (k', ok) = producev K (c_str (m_topic s)) event_name payload_json k
           in if ok then (s\<lparr>m_producer := Some (kafka_poll K k')\<rparr>, [])
              else (s\<lparr>m_producer := Some k'\<rparr>, [Log WARNING ''kafka''])))"

definition kafka_class :: "'k rdkafka \<Rightarrow> 'k kafka plugin_class" where
  "kafka_class K = default_plugin
     \<lparr>c_name := (\<lambda>_. ''kafka''), c_version := (\<lambda>_. ''0.1.0''), c_capabilities := (\<lambda>_. cap_bit RUN_EVENTS),
      c_on_load := (\<lambda>cfg s. fst (kafka_on_load K cfg s)),
      c_get := (\<lambda>t _. if t = RUN_EVENTS then 1 else 0)\<rparr>"

interpretation kafka_caps: advertised "kafka_class K"
  by unfold_locales (rename_tac t p, case_tac t; simp add: kafka_class_def)

section \<open>What reaches a sink\<close>

interpretation payload_quoting: json_quoting escape_json
  "list_all (\<lambda>c. is_control c \<longrightarrow> c = CHR 0x0A \<or> c = CHR 0x0D \<or> c = CHR 0x09)"
  by (rule json_quoting_chars [OF escape_json_def]) (auto simp: json_chars list_all_iff)

definition payload_plain :: "payload \<Rightarrow> bool" where
  "payload_plain p \<longleftrightarrow>
     list_all (\<lambda>(k, v). list_all (\<lambda>c. is_control c \<longrightarrow> c = CHR 0x0A \<or> c = CHR 0x0D \<or> c = CHR 0x09) (k @ v)) p"

lemma to_json_reads: "payload_plain p \<Longrightarrow> read_row (to_json p) = Some (map (map_prod id Some) p, [])"
  using payload_quoting.read_object [of "map (map_prod id Some) p" "[]"]
  by (simp add: to_json_def payload_plain_def payload_quoting.covers_member_def list_all_iff case_prod_beta)

text \<open>A control character outside that set makes the payload unreadable.\<close>

lemma payload_control_unreadable: "read_row (to_json [(''k'', [CHR 0x01])]) = None"
  by (simp add: to_json_def object_text_def member_text_def cell_text_def escape_json_def read_row_def
      read_members.simps read_member_def read_cell_def is_control_def)

lemma evict_eq: "evict m xs = drop (length xs - m) xs"
proof (induction m xs rule: evict.induct)
  case (1 m xs)
  show ?case
  proof (cases "length xs > m")
    case True
    then have "evict m xs = evict m (tl xs)" by (subst evict.simps) simp
    moreover have "drop (length xs - m) xs = drop (length (tl xs) - m) (tl xs)"
      using True by (cases xs) (simp_all add: Suc_diff_le)
    ultimately show ?thesis using 1 True by simp
  next
    case False
    then show ?thesis by (simp add: evict.simps [of m xs])
  qed
qed

definition event_text :: "string \<times> payload \<Rightarrow> string \<times> string" where
  "event_text e = (fst e, to_json (snd e))"

text \<open>Publishing a list of events, one after the other, on a registry of memory sinks.\<close>

definition publish_all :: "(string \<times> payload) list \<Rightarrow> memory_events list option \<Rightarrow> memory_events list option" where
  "publish_all evs reg = fold (\<lambda>(name, p) r. fst (bus_publish memory_publish name p r)) evs reg"

lemma fst_fan_out: "fst (fan_out f ss) = map (\<lambda>s. fst (f s)) ss"
  by (induction ss) (simp_all add: case_prod_beta Let_def)

lemma bus_publish_memory:
  "sinks \<noteq> [] \<Longrightarrow> fst (bus_publish memory_publish name p (Some sinks)) =
     Some (map (\<lambda>s. fst (memory_publish name (to_json p) s)) sinks)"
  by (simp add: bus_publish_def case_prod_beta fst_fan_out)

lemma drop_snoc_bounded: "drop (length (drop (length xs - m) xs @ ys) - m) (drop (length xs - m) xs @ ys) =
    drop (length (xs @ ys) - m) (xs @ ys)"
proof (cases "length xs \<le> m")
  case False
  then have "length (drop (length xs - m) xs @ ys) - m = length ys" by simp
  moreover have "drop (length xs - m) xs @ ys = drop (length xs - m) (xs @ ys)" by simp
  moreover have "length (xs @ ys) - m = length ys + (length xs - m)" using False by simp
  ultimately show ?thesis by (simp only: drop_drop)
qed simp



text \<open>A negative bound is a huge one: \<open>std::stoul\<close> negates it modulo the range.\<close>

lemma negative_bound_is_huge:
  "m_max_events (fst (memory_on_load [(''max_events'', ''-1'')] init_memory)) = 18446744073709551615"
  by (simp add: memory_on_load_def value_or_def stoul_def strto_int_def ULONG_MAX_def
      is_space_def is_dec_def read_dec_def dec_val_def)

section \<open>Loading and unloading the brokers' sinks\<close>

text \<open>When \<open>on_load\<close> throws, which \<open>congelado_init\<close> turns into -1.\<close>

lemma init_of_on_load:
  assumes "s_plugin m = Some p"
  shows "snd (congelado_init T ctor (Some cfg) m) = (if snd (c_on_load T cfg p) then -1 else 0)"
  using assms by (simp add: congelado_init_def plugin_instance_def case_prod_beta)

text \<open>The three steps of opening a channel, with the configured values.\<close>

definition amqp_opens :: "'q amqp \<Rightarrow> config \<Rightarrow> bool" where
  "amqp_opens A cfg \<longleftrightarrow>
     (let (q, up) = amqp_socket A (c_str (value_or (config_get cfg ''host'') ''localhost''))
            (case stoi (value_or (config_get cfg ''port'') ''5672'') of Inl _ \<Rightarrow> 5672 | Inr p \<Rightarrow> p) (amqp_new A);
          (q, ok) = amqp_login A (c_str (value_or (config_get cfg ''vhost'') ''/''))
            (c_str (value_or (config_get cfg ''user'') ''guest'')) (c_str (value_or (config_get cfg ''password'') ''guest'')) q
      in up \<and> ok \<and> snd (amqp_channel A q))"

lemma rabbit_load_throws: "snd (fst (rabbit_on_load A cfg s)) \<longleftrightarrow> \<not> amqp_opens A cfg"
  by (simp add: rabbit_on_load_def amqp_opens_def Let_def case_prod_beta)

lemma rabbit_load_opens: "amqp_opens A cfg \<Longrightarrow>
    m_channel_open (fst (fst (rabbit_on_load A cfg s))) \<and> rmq_conn (fst (fst (rabbit_on_load A cfg s))) \<noteq> None"
  by (simp add: rabbit_on_load_def amqp_opens_def Let_def case_prod_beta)

definition kafka_creates :: "'k rdkafka \<Rightarrow> config \<Rightarrow> bool" where
  "kafka_creates K cfg \<longleftrightarrow>
     (let brokers = c_str (value_or (config_get cfg ''bootstrap_servers'') ''localhost:9092'')
      in conf_set K brokers = None \<and> (\<exists>k. kafka_new K brokers = Inr k))"

lemma kafka_load_throws: "snd (fst (kafka_on_load K cfg s)) \<longleftrightarrow> \<not> kafka_creates K cfg"
  by (simp add: kafka_on_load_def kafka_creates_def Let_def split: option.split sum.split)

text \<open>
  Unloading the RabbitMQ sink frees the connection and leaves the flag of the channel set: a
  later publish, and a second unload, use the null connection.
\<close>

lemma rabbit_publish_after_unload:
  assumes "m_channel_open s" "rmq_conn s = Some q" "rabbit_on_unload A s = Inr s'"
  shows "rabbit_publish A name json s' = Inl Null_dereference" "rabbit_on_unload A s' = Inl Null_dereference"
  using assms by (auto simp: rabbit_on_unload_def rabbit_publish_def)

text \<open>A payload is cut at its first null byte on the way to RabbitMQ, and not to Kafka.\<close>

lemma rabbit_body_is_c_string:
  assumes "m_channel_open s" "rmq_conn s = Some q"
  shows "rabbit_publish A name json s = rabbit_publish A name (c_str json) s"
  using assms by (simp add: rabbit_publish_def c_str_def)

end
