(* ===== verification/Logger.thy ===== *)
theory Logger
  imports Abi
begin

text \<open>
  \<open>FileLogger\<close> of plugins/logger/file_logger/bin/file_logger.cc. The state holds the lines that
  went to the file and to standard output so far, oldest first; \<open>can_open\<close> says whether a path
  can be opened for appending, and \<open>stamp\<close> is the rendered time of a line. An aborted process
  is None.
\<close>

section \<open>Levels\<close>

definition parse_level :: "string \<Rightarrow> int" where
  "parse_level level =
     (if level = ''debug'' then 0
      else if level = ''info'' then 1
      else if level = ''important'' then 2
      else if level = ''warning'' then 3
      else if level = ''error'' then 4
      else if level = ''fatal'' then 5
      else 1)"

definition level_str :: "int \<Rightarrow> string" where
  "level_str level =
     (if level = 0 then ''DEBUG''
      else if level = 1 then ''INFO''
      else if level = 2 then ''IMPORTANT''
      else if level = 3 then ''WARNING''
      else if level = 4 then ''ERROR''
      else if level = 5 then ''FATAL''
      else ''UNKNOWN'')"

section \<open>The plugin\<close>

record file_logger =
  m_open :: bool
  m_file :: "string list"
  m_stdout :: "string list"
  m_min_level :: int
  m_stdout_level :: int

definition init_logger :: file_logger where
  "init_logger = \<lparr>m_open = False, m_file = [], m_stdout = [], m_min_level = 1, m_stdout_level = 2\<rparr>"

definition line_text :: "string \<Rightarrow> int \<Rightarrow> string \<Rightarrow> string" where
  "line_text stamp level msg = ''['' @ stamp @ ''] ['' @ level_str level @ '']: '' @ msg"

definition write_line :: "string \<Rightarrow> int \<Rightarrow> string \<Rightarrow> file_logger \<Rightarrow> file_logger" where
  "write_line stamp level msg s =
     (let line = line_text stamp level msg;
          s = (if level \<ge> m_stdout_level s then s\<lparr>m_stdout := m_stdout s @ [line]\<rparr> else s)
      in if level \<ge> m_min_level s \<and> m_open s then s\<lparr>m_file := m_file s @ [line]\<rparr> else s)"

definition logger_on_load :: "(string \<Rightarrow> bool) \<Rightarrow> string \<Rightarrow> config \<Rightarrow> file_logger \<Rightarrow> file_logger option" where
  "logger_on_load can_open stamp cfg s =
     (let log_file = (case config_get cfg ''file'' of None \<Rightarrow> ''congelado.log'' | Some v \<Rightarrow> v);
          s = (case config_get cfg ''level'' of None \<Rightarrow> s | Some v \<Rightarrow> s\<lparr>m_min_level := parse_level v\<rparr>);
          s = (case config_get cfg ''stdout_level'' of None \<Rightarrow> s | Some v \<Rightarrow> s\<lparr>m_stdout_level := parse_level v\<rparr>)
      in if \<not> can_open log_file then None
         else Some (write_line stamp 2
           (''FileLogger: '' @ log_file @ '' (file>='' @ level_str (m_min_level s) @ '', stdout>='' @
            level_str (m_stdout_level s) @ '')'') (s\<lparr>m_open := True\<rparr>)))"

definition logger_on_unload :: "file_logger \<Rightarrow> file_logger" where
  "logger_on_unload s = s\<lparr>m_open := False\<rparr>"

definition logger_write :: "string \<Rightarrow> 32 word \<Rightarrow> string \<Rightarrow> file_logger \<Rightarrow> file_logger" where
  "logger_write stamp level msg s = write_line stamp (sint level) msg s"

definition logger_class :: "string \<Rightarrow> file_logger plugin_class" where
  "logger_class stamp = default_plugin
     \<lparr>c_name := (\<lambda>_. ''FileLogger''), c_version := (\<lambda>_. ''1.0.0''), c_unique_type := (\<lambda>_. ''logger''),
      c_capabilities := (\<lambda>_. cap_bit RUN_LOGGER), c_logger_write := logger_write stamp\<rparr>"

interpretation logger_caps: advertised "logger_class stamp"
  by unfold_locales (rename_tac t p, case_tac t; simp add: logger_class_def default_plugin_def)

section \<open>Lines from the host\<close>

text \<open>
  Lines that the host writes through its logger adapter, each with the time at which the plugin
  formats it.
\<close>

definition host_log ::
  "file_logger option \<Rightarrow> string \<times> log_level \<times> string \<Rightarrow> file_logger module_state may_ub \<Rightarrow> file_logger module_state may_ub" where
  "host_log ctor e r =
     bind_ub r (\<lambda>m. map_sum id fst (adapter_write (logger_class (fst e)) ctor (fst (snd e)) (snd (snd e)) m))"

definition entry_line :: "string \<times> log_level \<times> string \<Rightarrow> string" where
  "entry_line e = line_text (fst e) (level_code (fst (snd e))) (snd (snd e))"

definition passing :: "int \<Rightarrow> (string \<times> log_level \<times> string) list \<Rightarrow> string list" where
  "passing threshold es = map entry_line (filter (\<lambda>e. level_code (fst (snd e)) \<ge> threshold) es)"

lemma level_word: "sint (word_of_int (level_code l) :: 32 word) = level_code l"
  by (cases l) simp_all

lemma write_line_entry:
  assumes "m_open p"
  shows "logger_write (fst e) (word_of_int (level_code (fst (snd e)))) (snd (snd e)) p =
    p\<lparr>m_file := m_file p @ passing (m_min_level p) [e], m_stdout := m_stdout p @ passing (m_stdout_level p) [e]\<rparr>"
  using assms by (simp add: logger_write_def write_line_def level_word passing_def entry_line_def Let_def)



text \<open>Level names are read back as their numbers; any other text is read as info.\<close>

lemma parse_level_names:
  "map parse_level [''debug'', ''info'', ''important'', ''warning'', ''error'', ''fatal''] = [0, 1, 2, 3, 4, 5]"
  by (simp add: parse_level_def)

lemma on_load_opens_or_aborts:
  "logger_on_load can_open stamp cfg s = None \<longleftrightarrow>
   \<not> can_open (case config_get cfg ''file'' of None \<Rightarrow> ''congelado.log'' | Some v \<Rightarrow> v)"
  by (simp add: logger_on_load_def Let_def)

lemma on_load_open: "logger_on_load can_open stamp cfg s = Some s' \<Longrightarrow> m_open s'"
  by (auto simp: logger_on_load_def write_line_def Let_def split: if_splits option.splits)

end
