(* ===== verification/Otel.thy ===== *)
theory Otel
  imports Abi
begin

text \<open>
  The OpenTelemetry plugin, plugins/extensions/otel_otlp/bin/otel_otlp_plugin.cc: the translation
  of spans, attributes and log records to the arguments of the SDK's calls, the reports of the
  exporters, the probe of an endpoint (\<open>EndpointProbe\<close>) and the life cycle of the three
  pipelines. The sockets of the operating system and the SDK are parameters. What the plugin
  prints on standard error is not modelled.
\<close>

section \<open>Spans, attributes and log records\<close>

datatype SpanKind = INTERNAL | SERVER | CLIENT | PRODUCER | CONSUMER
datatype SpanStatus = UNSET | STATUS_OK | STATUS_ERROR
datatype LogSeverity = SEV_DEBUG | SEV_INFO | SEV_WARN | SEV_ERROR | SEV_FATAL

datatype otel_kind = kInternal | kServer | kClient | kProducer | kConsumer
datatype otel_status = kUnset | kOk | kStatusError
datatype otel_severity = kDebug | kInfo | kWarn | kError | kFatal

fun to_otel_kind :: "SpanKind \<Rightarrow> otel_kind" where
  "to_otel_kind SERVER = kServer"
| "to_otel_kind CLIENT = kClient"
| "to_otel_kind PRODUCER = kProducer"
| "to_otel_kind CONSUMER = kConsumer"
| "to_otel_kind INTERNAL = kInternal"

fun to_otel_status :: "SpanStatus \<Rightarrow> otel_status" where
  "to_otel_status STATUS_OK = kOk"
| "to_otel_status STATUS_ERROR = kStatusError"
| "to_otel_status UNSET = kUnset"

fun to_otel_severity :: "LogSeverity \<Rightarrow> otel_severity" where
  "to_otel_severity SEV_DEBUG = kDebug"
| "to_otel_severity SEV_INFO = kInfo"
| "to_otel_severity SEV_WARN = kWarn"
| "to_otel_severity SEV_ERROR = kError"
| "to_otel_severity SEV_FATAL = kFatal"

text \<open>A double is its bit pattern; \<open>fmt\<close> is \<open>std::format("{}", d)\<close> on it.\<close>

datatype AttributeValue = A_text string | A_int "64 word" | A_double "64 word" | A_bool bool

fun attribute_to_string :: "(64 word \<Rightarrow> string) \<Rightarrow> AttributeValue \<Rightarrow> string" where
  "attribute_to_string fmt (A_text s) = s"
| "attribute_to_string fmt (A_bool b) = (if b then ''true'' else ''false'')"
| "attribute_to_string fmt (A_int i) = show_int (sint i)"
| "attribute_to_string fmt (A_double d) = fmt d"

type_synonym attributes = "(string \<times> AttributeValue) list"
type_synonym labels = "string \<rightharpoonup> string"

definition to_label_map :: "(64 word \<Rightarrow> string) \<Rightarrow> attributes \<Rightarrow> labels" where
  "to_label_map fmt attrs = fold (\<lambda>(k, v) m. m(k \<mapsto> attribute_to_string fmt v)) attrs Map.empty"

text \<open>The calls on a span of the SDK.\<close>

datatype span_call =
    SetAttribute string string
  | AddEvent string labels
  | SetStatus otel_status string
  | End

definition set_attribute :: "(64 word \<Rightarrow> string) \<Rightarrow> string \<Rightarrow> AttributeValue \<Rightarrow> span_call" where
  "set_attribute fmt key v = SetAttribute key (attribute_to_string fmt v)"

definition add_event :: "(64 word \<Rightarrow> string) \<Rightarrow> string \<Rightarrow> attributes \<Rightarrow> span_call" where
  "add_event fmt name attrs = AddEvent name (to_label_map fmt attrs)"

definition set_status :: "SpanStatus \<Rightarrow> string \<Rightarrow> span_call" where
  "set_status status description = SetStatus (to_otel_status status) description"

definition end_span :: span_call where
  "end_span = End"

text \<open>Ids are byte arrays; \<open>sampled\<close> becomes the trace flags.\<close>

record span_context =
  sc_trace_id :: "8 word list"
  sc_span_id :: "8 word list"
  sc_parent_span_id :: "8 word list"
  sc_sampled :: bool

record otel_context =
  oc_trace_id :: "8 word list"
  oc_span_id :: "8 word list"
  oc_flags :: "8 word"
  oc_remote :: bool

definition ZERO_SPAN :: "8 word list" where "ZERO_SPAN = replicate 8 0"
definition ZERO_TRACE :: "8 word list" where "ZERO_TRACE = replicate 16 0"

record span_start =
  ss_name :: string
  ss_labels :: labels
  ss_kind :: otel_kind
  ss_parent :: "otel_context option"

definition start_span ::
  "(64 word \<Rightarrow> string) \<Rightarrow> string \<Rightarrow> SpanKind \<Rightarrow> span_context \<Rightarrow> attributes \<Rightarrow> span_start" where
  "start_span fmt name kind ctx attrs =
     \<lparr>ss_name = name, ss_labels = to_label_map fmt attrs, ss_kind = to_otel_kind kind,
      ss_parent =
        (if sc_parent_span_id ctx \<noteq> ZERO_SPAN
         then Some \<lparr>oc_trace_id = sc_trace_id ctx, oc_span_id = sc_parent_span_id ctx,
                    oc_flags = (if sc_sampled ctx then 1 else 0), oc_remote = True\<rparr>
         else None)\<rparr>"

record log_record =
  lr_body :: string
  lr_severity :: LogSeverity
  lr_trace_id :: "8 word list"
  lr_span_id :: "8 word list"

datatype log_call =
    SdkLog otel_severity string
  | EmitLogRecord otel_severity otel_context string

definition emit :: "log_record \<Rightarrow> log_call" where
  "emit r =
     (if lr_trace_id r = ZERO_TRACE then SdkLog (to_otel_severity (lr_severity r)) (lr_body r)
      else EmitLogRecord (to_otel_severity (lr_severity r))
             \<lparr>oc_trace_id = lr_trace_id r, oc_span_id = lr_span_id r, oc_flags = 0, oc_remote = True\<rparr> (lr_body r))"

text \<open>Instruments, and the calls on them.\<close>

record instrument =
  in_name :: string
  in_description :: string
  in_unit :: string

datatype metric_call =
    CreateDoubleCounter instrument
  | CreateDoubleHistogram instrument
  | Add "64 word" labels
  | Record "64 word" labels

definition create_counter :: "string \<Rightarrow> string \<Rightarrow> string \<Rightarrow> metric_call" where
  "create_counter name description unit = CreateDoubleCounter \<lparr>in_name = name, in_description = description, in_unit = unit\<rparr>"

definition create_histogram :: "string \<Rightarrow> string \<Rightarrow> string \<Rightarrow> metric_call" where
  "create_histogram name description unit = CreateDoubleHistogram \<lparr>in_name = name, in_description = description, in_unit = unit\<rparr>"

definition counter_add :: "(64 word \<Rightarrow> string) \<Rightarrow> 64 word \<Rightarrow> attributes \<Rightarrow> metric_call" where
  "counter_add fmt v attrs = Add v (to_label_map fmt attrs)"

definition histogram_record :: "(64 word \<Rightarrow> string) \<Rightarrow> 64 word \<Rightarrow> attributes \<Rightarrow> metric_call" where
  "histogram_record fmt v attrs = Record v (to_label_map fmt attrs)"

section \<open>Reports of the exporters\<close>

text \<open>\<open>r\<close> is the numeric result of the inner exporter, 0 for success.\<close>

definition report :: "string \<Rightarrow> string \<Rightarrow> nat \<Rightarrow> int \<Rightarrow> effects" where
  "report tag event n r =
     Log DEBUG tag #
     (if r = 0 then [Log DEBUG tag]
      else [Log WARNING tag, Publish event [(''count'', show_nat n), (''result'', show_int r)]])"

definition export_spans :: "('s list \<Rightarrow> int) \<Rightarrow> 's list \<Rightarrow> int \<times> effects" where
  "export_spans inner spans =
     (inner spans, report ''otel_traces'' ''otel_otlp.traces_export_failed'' (length spans) (inner spans))"

text \<open>The metrics come in scopes.\<close>

definition export_metrics :: "('m list list \<Rightarrow> int) \<Rightarrow> 'm list list \<Rightarrow> int \<times> effects" where
  "export_metrics inner scopes =
     (let metric_count = fold (\<lambda>scope n. n + length scope) scopes 0
      in (inner scopes, report ''otel_metrics'' ''otel_otlp.metrics_export_failed'' metric_count (inner scopes)))"

definition export_logs :: "('r list \<Rightarrow> int) \<Rightarrow> 'r list \<Rightarrow> int \<times> effects" where
  "export_logs inner records =
     (inner records, report ''otel_logs'' ''otel_otlp.logs_export_failed'' (length records) (inner records))"

text \<open>Diagnostics of the SDK itself.\<close>

datatype sdk_level = SDK_NONE | SDK_ERROR | SDK_WARNING | SDK_INFO | SDK_DEBUG

fun handle_sdk_log :: "sdk_level \<Rightarrow> effects" where
  "handle_sdk_log SDK_ERROR = [Log ERROR ''otel_sdk'']"
| "handle_sdk_log SDK_WARNING = [Log WARNING ''otel_sdk'']"
| "handle_sdk_log SDK_INFO = [Log INFO ''otel_sdk'']"
| "handle_sdk_log SDK_DEBUG = [Log DEBUG ''otel_sdk'']"
| "handle_sdk_log SDK_NONE = []"

section \<open>Probing an endpoint\<close>

record url_parts =
  u_host :: string
  u_port :: string
  u_path :: string
  u_is_https :: bool

definition after_scheme :: "string \<Rightarrow> string" where
  "after_scheme url = (case find_sub ''://'' url of Some i \<Rightarrow> drop (i + 3) url | None \<Rightarrow> url)"

definition split_path :: "string \<Rightarrow> string \<times> string" where
  "split_path view =
     (case find_char CHR ''/'' view of Some i \<Rightarrow> (take i view, drop i view) | None \<Rightarrow> (view, ''/''))"

definition split_port :: "bool \<Rightarrow> string \<Rightarrow> string \<times> string" where
  "split_port is_https authority =
     (case rfind_char CHR '':'' authority of
        Some i \<Rightarrow> (take i authority, drop (i + 1) authority)
      | None \<Rightarrow> (authority, if is_https then ''443'' else ''80''))"

definition parse_url :: "string \<Rightarrow> url_parts" where
  "parse_url url =
     (let is_https = (take 8 url = ''https://'');
          (authority, path) = split_path (after_scheme url);
          (host, port) = split_port is_https authority
      in \<lparr>u_host = host, u_port = port, u_path = path, u_is_https = is_https\<rparr>)"

text \<open>
  The socket calls on an address: whether \<open>socket\<close> gives a descriptor, the outcome of the
  non-blocking \<open>connect\<close>, the result of \<open>select\<close> within the deadline, \<open>SO_ERROR\<close> if it can be
  read, whether \<open>send\<close> of the request succeeds and the bytes that \<open>recv\<close> then finds, None for an
  error or a timeout.
\<close>

datatype connect_outcome = Connected | In_progress | Connect_failed

record 'a net =
  n_getaddrinfo :: "string \<Rightarrow> string \<Rightarrow> 'a list option"
  n_socket :: "'a \<Rightarrow> bool"
  n_connect :: "'a \<Rightarrow> connect_outcome"
  n_select :: "'a \<Rightarrow> int"
  n_so_error :: "'a \<Rightarrow> int option"
  n_send :: "'a \<Rightarrow> string \<Rightarrow> bool"
  n_recv :: "'a \<Rightarrow> string \<Rightarrow> string option"

definition connect_with_timeout :: "'a net \<Rightarrow> 'a \<Rightarrow> bool" where
  "connect_with_timeout N a =
     (case n_connect N a of
        Connected \<Rightarrow> True
      | Connect_failed \<Rightarrow> False
      | In_progress \<Rightarrow> n_select N a > 0 \<and> n_so_error N a = Some 0)"

definition crlf :: string where "crlf = [CHR 0x0D, CHR 0x0A]"

definition probe_request :: "url_parts \<Rightarrow> string" where
  "probe_request parts =
     ''POST '' @ u_path parts @ '' HTTP/1.1'' @ crlf @ ''Host: '' @ u_host parts @ crlf @
     ''Content-Type: application/x-protobuf'' @ crlf @ ''Content-Length: 0'' @ crlf @
     ''Connection: close'' @ crlf @ crlf"

text \<open>The buffer has 64 bytes, of which 63 are read.\<close>

definition http_ok :: "'a net \<Rightarrow> url_parts \<Rightarrow> 'a \<Rightarrow> bool" where
  "http_ok N parts a =
     (if \<not> n_send N a (probe_request parts) then False
      else case n_recv N a (probe_request parts) of
             None \<Rightarrow> False
           | Some bytes \<Rightarrow>
               let response = take 63 bytes
               in if response = [] then False
                  else case find_char CHR '' '' response of
                         None \<Rightarrow> False
                       | Some space \<Rightarrow>
                           if space + 4 > length response then False
                           else take 3 (drop (space + 1) response) \<noteq> ''404'')"

fun probe_addresses :: "'a net \<Rightarrow> url_parts \<Rightarrow> 'a list \<Rightarrow> bool" where
  "probe_addresses N parts [] = False"
| "probe_addresses N parts (a # as) =
     (if \<not> n_socket N a then probe_addresses N parts as
      else if connect_with_timeout N a \<and> (u_is_https parts \<or> http_ok N parts a) then True
      else probe_addresses N parts as)"

definition reachable :: "'a net \<Rightarrow> string \<Rightarrow> bool" where
  "reachable N url =
     (let parts = parse_url url
      in if u_host parts = '''' \<or> u_port parts = '''' then False
         else case n_getaddrinfo N (c_str (u_host parts)) (c_str (u_port parts)) of
                None \<Rightarrow> False
              | Some as \<Rightarrow> probe_addresses N parts as)"

section \<open>The plugin\<close>

text \<open>A provider with the URL of its exporter and the service name of its resource.\<close>

record provider =
  pv_url :: string
  pv_service :: string

text \<open>A backend holds the tracer, meter or logger that it got from its provider.\<close>

record otel =
  m_tracer_provider :: "provider option"
  m_meter_provider :: "provider option"
  m_logger_provider :: "provider option"
  m_tracer_backend :: "provider option"
  m_meter_backend :: "provider option"
  m_log_backend :: "provider option"

definition init_otel :: otel where
  "init_otel = \<lparr>m_tracer_provider = None, m_meter_provider = None, m_logger_provider = None,
     m_tracer_backend = None, m_meter_backend = None, m_log_backend = None\<rparr>"

definition setup_traces :: "string \<Rightarrow> string \<Rightarrow> otel \<Rightarrow> otel" where
  "setup_traces endpoint service s =
     (let p = \<lparr>pv_url = endpoint, pv_service = service\<rparr>
      in s\<lparr>m_tracer_provider := Some p, m_tracer_backend := Some p\<rparr>)"

definition setup_metrics :: "string \<Rightarrow> string \<Rightarrow> otel \<Rightarrow> otel" where
  "setup_metrics endpoint service s =
     (let p = \<lparr>pv_url = endpoint, pv_service = service\<rparr>
      in s\<lparr>m_meter_provider := Some p, m_meter_backend := Some p\<rparr>)"

definition setup_logs :: "string \<Rightarrow> string \<Rightarrow> otel \<Rightarrow> otel" where
  "setup_logs endpoint service s =
     (let p = \<lparr>pv_url = endpoint, pv_service = service\<rparr>
      in s\<lparr>m_logger_provider := Some p, m_log_backend := Some p\<rparr>)"

definition config_or :: "config \<Rightarrow> string \<Rightarrow> string \<Rightarrow> string" where
  "config_or cfg key d = (case config_get cfg key of None \<Rightarrow> d | Some v \<Rightarrow> v)"

definition signal_endpoint :: "config \<Rightarrow> string \<Rightarrow> string \<Rightarrow> string" where
  "signal_endpoint cfg key suffix =
     config_or cfg key (config_or cfg ''endpoint'' ''http://localhost:4318'' @ suffix)"

text \<open>\<open>on_load\<close>; an unreachable endpoint throws before anything is set up.\<close>

definition otel_on_load :: "'a net \<Rightarrow> config \<Rightarrow> otel \<Rightarrow> (otel \<times> bool) \<times> effects" where
  "otel_on_load N cfg s =
     (let service = config_or cfg ''service_name'' ''congelado'';
          traces = signal_endpoint cfg ''traces_endpoint'' ''/v1/traces'';
          metrics = signal_endpoint cfg ''metrics_endpoint'' ''/v1/metrics'';
          logs = signal_endpoint cfg ''logs_endpoint'' ''/v1/logs''
      in if \<not> reachable N traces then ((s, True), [Log ERROR ''otel_otlp''])
         else if \<not> reachable N metrics then ((s, True), [Log ERROR ''otel_otlp''])
         else if \<not> reachable N logs then ((s, True), [Log ERROR ''otel_otlp''])
         else ((setup_logs logs service (setup_metrics metrics service (setup_traces traces service s)), False),
               [Log IMPORTANT ''otel_otlp'']))"

datatype sdk_call = ForceFlush provider | Shutdown provider

definition otel_on_unload :: "otel \<Rightarrow> otel \<times> sdk_call list" where
  "otel_on_unload s =
     (let (s, c1) = (case m_tracer_provider s of
            None \<Rightarrow> (s, [])
          | Some p \<Rightarrow> (s\<lparr>m_tracer_backend := None, m_tracer_provider := None\<rparr>, [ForceFlush p, Shutdown p]));
          (s, c2) = (case m_meter_provider s of
            None \<Rightarrow> (s, [])
          | Some p \<Rightarrow> (s\<lparr>m_meter_backend := None, m_meter_provider := None\<rparr>, [ForceFlush p, Shutdown p]));
          (s, c3) = (case m_logger_provider s of
            None \<Rightarrow> (s, [])
          | Some p \<Rightarrow> (s\<lparr>m_log_backend := None, m_logger_provider := None\<rparr>, [ForceFlush p, Shutdown p]))
      in (s, c1 @ c2 @ c3))"

definition otel_class :: "'a net \<Rightarrow> otel plugin_class" where
  "otel_class N = default_plugin
     \<lparr>c_name := (\<lambda>_. ''OtelOtlpPlugin''), c_version := (\<lambda>_. ''1.0.0''), c_unique_type := (\<lambda>_. ''otel''),
      c_capabilities := (\<lambda>_. cap_bit RUN_OTEL), c_on_load := (\<lambda>cfg s. fst (otel_on_load N cfg s)),
      c_get := (\<lambda>t _. if t = RUN_OTEL then 1 else 0)\<rparr>"

interpretation otel_caps: advertised "otel_class N"
  by unfold_locales (rename_tac t p, case_tac t; simp add: otel_class_def)

section \<open>The probe follows the URL\<close>

lemma probe_addresses_iff:
  "probe_addresses N parts as \<longleftrightarrow>
     (\<exists>a \<in> set as. n_socket N a \<and> connect_with_timeout N a \<and> (u_is_https parts \<or> http_ok N parts a))"
  by (induction as) auto

definition scheme_text :: "bool \<Rightarrow> string" where
  "scheme_text https = (if https then ''https'' else ''http'')"

definition url_text :: "bool \<Rightarrow> string \<Rightarrow> string \<Rightarrow> string \<Rightarrow> string" where
  "url_text https host port path =
     scheme_text https @ ''://'' @ host @ (if port = '''' then '''' else CHR '':'' # port) @ path"

text \<open>A path is empty or starts with a slash; a port has no separator.\<close>

definition url_ok :: "string \<Rightarrow> string \<Rightarrow> string \<Rightarrow> bool" where
  "url_ok host port path \<longleftrightarrow>
     CHR ''/'' \<notin> set host \<and> CHR ''/'' \<notin> set port \<and> CHR '':'' \<notin> set port \<and> (port = '''' \<longrightarrow> CHR '':'' \<notin> set host) \<and>
     take 1 path \<in> {[], ''/''}"

definition default_port :: "bool \<Rightarrow> string \<Rightarrow> string" where
  "default_port https port = (if port = '''' then (if https then ''443'' else ''80'') else port)"

lemma url_text_scheme:
  "take 8 (url_text https host port path) = ''https://'' \<longleftrightarrow> https"
  "after_scheme (url_text https host port path) = (host @ (if port = '''' then '''' else CHR '':'' # port)) @ path"
  by (simp_all add: url_text_def scheme_text_def after_scheme_def)

lemma split_path_append:
  assumes "CHR ''/'' \<notin> set authority" "take 1 path \<in> {[], ''/''}"
  shows "split_path (authority @ path) = (authority, if path = '''' then ''/'' else path)"
proof (cases path)
  case Nil
  then show ?thesis using assms find_char_None_iff [of "CHR ''/''" authority] by (simp add: split_path_def)
next
  case (Cons c t)
  then have "path = CHR ''/'' # t" using assms(2) by simp
  then show ?thesis using find_char_append [OF assms(1)] by (simp add: split_path_def)
qed

lemma split_port_append:
  "url_ok host port path \<Longrightarrow>
   split_port https (host @ (if port = '''' then '''' else CHR '':'' # port)) = (host, default_port https port)"
  by (simp add: url_ok_def split_port_def default_port_def rfind_char_None rfind_char_append)

lemma parse_url_text:
  assumes "url_ok host port path"
  shows "parse_url (url_text https host port path) =
    \<lparr>u_host = host, u_port = default_port https port, u_path = (if path = '''' then ''/'' else path), u_is_https = https\<rparr>"
proof -
  have "CHR ''/'' \<notin> set (host @ (if port = '''' then '''' else CHR '':'' # port))" "take 1 path \<in> {[], ''/''}"
    using assms by (simp_all add: url_ok_def)
  from split_path_append [OF this] show ?thesis
    unfolding parse_url_def url_text_scheme Let_def by (simp only: prod.case split_port_append [OF assms])
qed


definition sample_net :: "nat net" where
  "sample_net = \<lparr>n_getaddrinfo = (\<lambda>h p. if h = ''loki'' \<and> p = ''3100'' then Some [1, 2] else None),
     n_socket = (\<lambda>_. True), n_connect = (\<lambda>a. if a = 1 then Connect_failed else In_progress), n_select = (\<lambda>_. 1),
     n_so_error = (\<lambda>_. Some 0), n_send = (\<lambda>_ _. True), n_recv = (\<lambda>_ _. Some ''HTTP/1.1 400 Bad Request'')\<rparr>"


text \<open>
  A bracketed IPv6 literal is not recognised: the host keeps its brackets, and without a port the
  last group of the address is taken for one.
\<close>

lemma ipv6_literal_misparsed:
  "u_host (parse_url ''http://[::1]:4318/v1/logs'') = ''[::1]''"
  "u_host (parse_url ''http://[::1]/v1/logs'') = ''[:'' \<and> u_port (parse_url ''http://[::1]/v1/logs'') = ''1]''"
  by (simp_all add: parse_url_def after_scheme_def split_path_def split_port_def)

section \<open>The pipelines\<close>

text \<open>The providers that a configuration asks for, in the order traces, metrics, logs.\<close>

definition configured :: "config \<Rightarrow> provider list" where
  "configured cfg =
     map (\<lambda>(key, suffix). \<lparr>pv_url = signal_endpoint cfg key suffix, pv_service = config_or cfg ''service_name'' ''congelado''\<rparr>)
       [(''traces_endpoint'', ''/v1/traces''), (''metrics_endpoint'', ''/v1/metrics''), (''logs_endpoint'', ''/v1/logs'')]"

definition all_reachable :: "'a net \<Rightarrow> config \<Rightarrow> bool" where
  "all_reachable N cfg \<longleftrightarrow> list_all (\<lambda>p. reachable N (pv_url p)) (configured cfg)"

definition providers :: "otel \<Rightarrow> provider option list" where
  "providers s = [m_tracer_provider s, m_meter_provider s, m_logger_provider s]"

definition backends :: "otel \<Rightarrow> provider option list" where
  "backends s = [m_tracer_backend s, m_meter_backend s, m_log_backend s]"

lemma otel_load_throws: "snd (fst (otel_on_load N cfg s)) \<longleftrightarrow> \<not> all_reachable N cfg"
  by (simp add: otel_on_load_def all_reachable_def configured_def Let_def)

text \<open>
  The pipelines are built together or not at all, and unloading drains each of them. If the
  three configured endpoints are reachable, loading builds a provider and its backend for each
  signal with the configured URL and service name, and unloading then flushes every provider
  before it shuts it down, once, and leaves nothing behind, so a second unload does nothing. If one
  endpoint is not reachable, loading throws and the plugin is as it was before.
\<close>

lemma pipelines_built_together:
  "(let s' = fst (fst (otel_on_load N cfg s)) in
    if all_reachable N cfg
    then providers s' = map Some (configured cfg) \<and> backends s' = map Some (configured cfg) \<and>
         snd (otel_on_unload s') = concat (map (\<lambda>p. [ForceFlush p, Shutdown p]) (configured cfg)) \<and>
         fst (otel_on_unload s') = init_otel \<and> otel_on_unload (fst (otel_on_unload s')) = (init_otel, [])
    else snd (fst (otel_on_load N cfg s)) \<and> s' = s)"
proof (cases "all_reachable N cfg")
  case True
  then show ?thesis
    by (simp add: otel_on_load_def all_reachable_def configured_def otel_on_unload_def setup_traces_def setup_metrics_def
        setup_logs_def providers_def backends_def init_otel_def Let_def)
next
  case False
  then show ?thesis
    by (auto simp: otel_on_load_def all_reachable_def configured_def Let_def)
qed

section \<open>Labels and contexts\<close>

lemma fold_label: "fold (\<lambda>(k, v) m. m(k \<mapsto> f v)) attrs m = m ++ map_of (rev (map (\<lambda>(k, v). (k, f v)) attrs))"
  by (induction attrs arbitrary: m) (auto simp: map_add_def fun_eq_iff split: option.split)

text \<open>Of several attributes with one key the last one is exported.\<close>

lemma to_label_map_last:
  "to_label_map fmt attrs = map_of (rev (map (\<lambda>(k, v). (k, attribute_to_string fmt v)) attrs))"
  by (simp add: to_label_map_def fold_label)

end
