(* ===== verification/Values.thy ===== *)
theory Values
  imports Abi
begin

text \<open>
  The dynamic values that cross a language bridge, include/core/manager/value.cppm: \<open>Value\<close>,
  \<open>AnyConverter\<close> and \<open>HandleTable\<close>. Maps and arrays are shared objects, so they live in an
  explicit heap, and a \<open>shared_ptr\<close> is their address. An object stays in the heap when its last
  owner goes; no operation here follows a pointer that has no owner.
\<close>

section \<open>Values and objects\<close>

datatype cg_value =
    VNone
  | VInt "64 word"
  | VFloat "64 word"
  | VBool bool
  | VStr string
  | VMap ptr
  | VArray ptr
  | VPtr ptr

text \<open>The entries of a map in the order in which its iteration gives them.\<close>

datatype object = Map_object "(string \<times> cg_value) list" | Array_object "cg_value list"

definition CG_BOOL :: "32 word" where "CG_BOOL = 2"
definition CG_FLOAT :: "32 word" where "CG_FLOAT = 3"
definition CG_MAP :: "32 word" where "CG_MAP = 64"
definition CG_ARRAY :: "32 word" where "CG_ARRAY = 69"
definition CG_MAP_HANDLE :: "32 word" where "CG_MAP_HANDLE = 70"
definition CG_ARRAY_HANDLE :: "32 word" where "CG_ARRAY_HANDLE = 71"

lemmas tag_defs = CG_NONE_def CG_INT_def CG_BOOL_def CG_FLOAT_def CG_PTR_def CG_STR_def CG_MAP_def CG_ARRAY_def
  CG_MAP_HANDLE_def CG_ARRAY_HANDLE_def

definition any_of :: "32 word \<Rightarrow> any_union \<Rightarrow> CongeladoAny" where
  "any_of tag u = \<lparr>type_index = tag, zero_padding = 0, any_value = u\<rparr>"

lemma any_of_sel [simp]: "type_index (any_of tag u) = tag" "any_value (any_of tag u) = u"
  by (simp_all add: any_of_def)

text \<open>What an operation can end in besides its result: an exception or undefined behaviour.\<close>

datatype fail = Throws string | Undefined ub

type_synonym 'a outcome = "fail + 'a"

definition read_float64 :: "CongeladoAny \<Rightarrow> 64 word outcome" where
  "read_float64 a = (case any_value a of v_float64 d \<Rightarrow> Inr d | _ \<Rightarrow> Inl (Undefined Inactive_union_member))"

definition read_ptr :: "CongeladoAny \<Rightarrow> ptr outcome" where
  "read_ptr a = (case any_value a of v_ptr p \<Rightarrow> Inr p | _ \<Rightarrow> Inl (Undefined Inactive_union_member))"

section \<open>Conversion\<close>

definition from_any :: "CongeladoAny \<Rightarrow> cg_value outcome" where
  "from_any a =
     (if type_index a = CG_NONE then Inr VNone
      else if type_index a = CG_INT \<or> type_index a = CG_BOOL then map_sum Undefined VInt (read_int64 a)
      else if type_index a = CG_FLOAT then map_sum id VFloat (read_float64 a)
      else if type_index a = CG_STR then map_sum Undefined VStr (read_cstr a)
      else if type_index a = CG_MAP then map_sum id VMap (read_ptr a)
      else if type_index a = CG_ARRAY then map_sum id VArray (read_ptr a)
      else map_sum id VPtr (read_ptr a))"

text \<open>\<open>to_any\<close> and \<open>to_any_borrow\<close>, which have one body; a text is borrowed as a C string.\<close>

fun to_any :: "cg_value \<Rightarrow> CongeladoAny" where
  "to_any VNone = any_of CG_NONE (v_int64 0)"
| "to_any (VBool b) = any_of CG_BOOL (v_int64 (if b then 1 else 0))"
| "to_any (VInt i) = any_of CG_INT (v_int64 i)"
| "to_any (VFloat d) = any_of CG_FLOAT (v_float64 d)"
| "to_any (VStr s) = any_of CG_STR (v_cstr (c_str s))"
| "to_any (VMap p) = any_of CG_MAP (v_ptr p)"
| "to_any (VArray p) = any_of CG_ARRAY (v_ptr p)"
| "to_any (VPtr p) = any_of CG_PTR (v_ptr p)"

section \<open>The handle table\<close>

record handle_table =
  m_handles :: "64 word \<rightharpoonup> ptr"
  m_next_id :: "64 word"
  heap :: "ptr \<rightharpoonup> object"
  n_objects :: nat

definition init_table :: handle_table where
  "init_table = \<lparr>m_handles = Map.empty, m_next_id = 1, heap = Map.empty, n_objects = 0\<rparr>"

text \<open>\<open>insert\<close> of a \<open>make_shared\<close>; the null pointer is never an address.\<close>

definition insert_object :: "object \<Rightarrow> handle_table \<Rightarrow> 64 word \<times> handle_table" where
  "insert_object ob t =
     (let p = Suc (n_objects t); h = m_next_id t
      in (h, t\<lparr>m_handles := (m_handles t)(h \<mapsto> p), m_next_id := h + 1, heap := (heap t)(p \<mapsto> ob), n_objects := p\<rparr>))"

definition get_as_map :: "64 word \<Rightarrow> handle_table \<Rightarrow> (ptr \<times> (string \<times> cg_value) list) outcome" where
  "get_as_map h t =
     (case m_handles t h of
        None \<Rightarrow> Inl (Throws ''out_of_range'')
      | Some p \<Rightarrow> (case heap t p of Some (Map_object es) \<Rightarrow> Inr (p, es) | _ \<Rightarrow> Inl (Throws ''bad_any_cast'')))"

definition get_as_array :: "64 word \<Rightarrow> handle_table \<Rightarrow> (ptr \<times> cg_value list) outcome" where
  "get_as_array h t =
     (case m_handles t h of
        None \<Rightarrow> Inl (Throws ''out_of_range'')
      | Some p \<Rightarrow> (case heap t p of Some (Array_object xs) \<Rightarrow> Inr (p, xs) | _ \<Rightarrow> Inl (Throws ''bad_any_cast'')))"

definition map_create :: "handle_table \<Rightarrow> CongeladoAny \<times> handle_table" where
  "map_create t = (let (h, t) = insert_object (Map_object []) t in (any_of CG_MAP_HANDLE (v_int64 h), t))"

definition array_create :: "handle_table \<Rightarrow> CongeladoAny \<times> handle_table" where
  "array_create t = (let (h, t) = insert_object (Array_object []) t in (any_of CG_ARRAY_HANDLE (v_int64 h), t))"

text \<open>What \<open>map_set\<close> and \<open>array_push\<close> store: a nested handle is resolved to its object.\<close>

definition resolve_value :: "CongeladoAny \<Rightarrow> handle_table \<Rightarrow> cg_value outcome" where
  "resolve_value a t =
     (if type_index a = CG_MAP_HANDLE
      then bind_ub (map_sum Undefined id (read_int64 a)) (\<lambda>h. map_sum id (\<lambda>(p, _). VMap p) (get_as_map h t))
      else if type_index a = CG_ARRAY_HANDLE
      then bind_ub (map_sum Undefined id (read_int64 a)) (\<lambda>h. map_sum id (\<lambda>(p, _). VArray p) (get_as_array h t))
      else from_any a)"

definition map_set :: "64 word \<Rightarrow> string \<Rightarrow> CongeladoAny \<Rightarrow> handle_table \<Rightarrow> handle_table outcome" where
  "map_set h key a t =
     bind_ub (get_as_map h t) (\<lambda>(p, es).
     bind_ub (resolve_value a t) (\<lambda>v.
       Inr (t\<lparr>heap := (heap t)(p \<mapsto> Map_object (AList.update key v es))\<rparr>)))"

definition map_get :: "64 word \<Rightarrow> string \<Rightarrow> handle_table \<Rightarrow> CongeladoAny outcome" where
  "map_get h key t =
     map_sum id (\<lambda>(p, es). case map_of es key of None \<Rightarrow> any_none | Some v \<Rightarrow> to_any v) (get_as_map h t)"

definition get_map_size :: "64 word \<Rightarrow> handle_table \<Rightarrow> CongeladoAny outcome" where
  "get_map_size h t = map_sum id (\<lambda>(p, es). any_of CG_INT (v_int64 (of_nat (length es)))) (get_as_map h t)"

definition get_map_keys :: "64 word \<Rightarrow> handle_table \<Rightarrow> (CongeladoAny \<times> handle_table) outcome" where
  "get_map_keys h t =
     map_sum id (\<lambda>(p, es).
       let (k, t) = insert_object (Array_object (map (VStr \<circ> fst) es)) t in (any_of CG_ARRAY_HANDLE (v_int64 k), t))
     (get_as_map h t)"

definition handle_free :: "64 word \<Rightarrow> handle_table \<Rightarrow> handle_table" where
  "handle_free h t = t\<lparr>m_handles := (m_handles t)(h := None)\<rparr>"

definition array_push :: "64 word \<Rightarrow> CongeladoAny \<Rightarrow> handle_table \<Rightarrow> handle_table outcome" where
  "array_push h a t =
     bind_ub (get_as_array h t) (\<lambda>(p, xs).
     bind_ub (resolve_value a t) (\<lambda>v. Inr (t\<lparr>heap := (heap t)(p \<mapsto> Array_object (xs @ [v]))\<rparr>)))"

definition get_array_size :: "64 word \<Rightarrow> handle_table \<Rightarrow> CongeladoAny outcome" where
  "get_array_size h t = map_sum id (\<lambda>(p, xs). any_of CG_INT (v_int64 (of_nat (length xs)))) (get_as_array h t)"

definition array_get :: "64 word \<Rightarrow> 64 word \<Rightarrow> handle_table \<Rightarrow> CongeladoAny outcome" where
  "array_get h idx t =
     map_sum id (\<lambda>(p, xs).
       if sint idx < 0 \<or> unat idx \<ge> length xs then any_none else to_any (xs ! unat idx)) (get_as_array h t)"

section \<open>What the table promises\<close>

definition table_ok :: "handle_table \<Rightarrow> bool" where
  "table_ok t \<longleftrightarrow>
     (\<forall>h p. m_handles t h = Some p \<longrightarrow> unat h < unat (m_next_id t) \<and> heap t p \<noteq> None) \<and>
     (\<forall>p. heap t p \<noteq> None \<longrightarrow> 0 < p \<and> p \<le> n_objects t)"

lemma table_ok_init: "table_ok init_table"
  by (simp add: table_ok_def init_table_def)

lemma table_ok_fresh: "table_ok t \<Longrightarrow> m_handles t (m_next_id t) = None \<and> heap t (Suc (n_objects t)) = None"
  unfolding table_ok_def by (metis Suc_n_not_le_n less_irrefl not_None_eq)

lemma insert_object_ok:
  assumes "table_ok t" "unat (m_next_id t) + 1 < 2 ^ 64"
  shows "table_ok (snd (insert_object ob t))"
proof -
  have n: "unat (m_next_id t + 1) = unat (m_next_id t) + 1"
    using assms(2) by (intro unat_add_lem [THEN iffD1, THEN trans]) simp_all
  show ?thesis
    using assms(1) unfolding table_ok_def insert_object_def
    by (fastforce simp: n Let_def less_Suc_eq le_Suc_eq split: if_splits)
qed

text \<open>\<open>t'\<close> has every handle and every object of \<open>t\<close>, the objects unchanged.\<close>

definition extends :: "handle_table \<Rightarrow> handle_table \<Rightarrow> bool" where
  "extends t t' \<longleftrightarrow> m_handles t \<subseteq>\<^sub>m m_handles t' \<and> heap t \<subseteq>\<^sub>m heap t'"

lemma extends_refl [simp]: "extends t t"
  by (simp add: extends_def)

lemma extends_trans: "extends t u \<Longrightarrow> extends u v \<Longrightarrow> extends t v"
  unfolding extends_def by (blast intro: map_le_trans)

lemma insert_object_extends: "table_ok t \<Longrightarrow> extends t (snd (insert_object ob t))"
  using table_ok_fresh [of t] by (auto simp: extends_def insert_object_def Let_def map_le_def dom_def)

lemma get_as_map_eq:
  "get_as_map h t = Inr (p, es) \<longleftrightarrow> m_handles t h = Some p \<and> heap t p = Some (Map_object es)"
  by (auto simp: get_as_map_def split: option.split object.split)

text \<open>
  A map handle denotes a dictionary. After a value was set under a key, reading the key
  through any handle of the same map gives the value that was stored, reading another key or
  through a handle of another map gives what it gave before, and no handle appears, changes its
  object or goes away.
\<close>

lemma map_set_get:
  assumes "map_set h key a t = Inr t'"
  shows "\<exists>v. resolve_value a t = Inr v \<and>
    (\<forall>h' key'. map_get h' key' t' =
       (if m_handles t h' = m_handles t h \<and> key' = key then Inr (to_any v) else map_get h' key' t)) \<and>
    m_handles t' = m_handles t \<and> m_next_id t' = m_next_id t"
proof -
  from assms obtain p es v where
    p: "m_handles t h = Some p" "heap t p = Some (Map_object es)" and v: "resolve_value a t = Inr v"
    and t': "t' = t\<lparr>heap := (heap t)(p \<mapsto> Map_object (AList.update key v es))\<rparr>"
    by (auto simp: map_set_def bind_ub_Inr_iff get_as_map_eq)
  have "map_get h' key' t' = (if m_handles t h' = m_handles t h \<and> key' = key then Inr (to_any v) else map_get h' key' t)"
    for h' key'
    using p by (auto simp: t' map_get_def get_as_map_def update_conv' split: option.split)
  then show ?thesis using v by (simp add: t')
qed

lemma map_set_get_witness:
  "bind_ub (map_set 1 ''k'' (any_of CG_INT (v_int64 5)) (snd (map_create init_table))) (map_get 1 ''k'') =
   Inr (any_of CG_INT (v_int64 5))"
proof -
  let ?t = "snd (map_create init_table)" and ?a = "any_of CG_INT (v_int64 5)"
  have v: "resolve_value ?a ?t = Inr (VInt 5)" by (simp add: resolve_value_def from_any_def read_int64_def tag_defs)
  have g: "get_as_map 1 ?t = Inr (1, [])" by (simp add: get_as_map_def map_create_def insert_object_def init_table_def)
  obtain t' where t': "map_set 1 ''k'' ?a ?t = Inr t'" using v g by (simp add: map_set_def)
  from map_set_get [OF t'] v show ?thesis by (auto simp: t')
qed

lemma handle_free_keys:
  assumes "table_ok t"
  shows "m_handles (handle_free (m_next_id t) (snd (insert_object ob t))) = m_handles t"
  using table_ok_fresh [OF assms] by (auto simp: handle_free_def insert_object_def Let_def fun_eq_iff)

section \<open>Filling and reading a map\<close>

text \<open>
  What the bridges share: the content of a map after the entries of a foreign dictionary were set
  in it, and the keys that \<open>get_map_keys\<close> gives back.
\<close>

lemma unat_next_id:
  "unat (m_next_id t) + k < 2 ^ 63 \<Longrightarrow> unat (m_next_id t + of_nat k) = unat (m_next_id t) + k"
  by (subst unat_add_lem [THEN iffD1]) (simp_all add: unat_of_nat take_bit_nat_eq_self)

lemma map_set_update:
  assumes "table_ok t" "m_handles t h = Some p" "heap t p = Some (Map_object fs)" "resolve_value a t = Inr w"
  shows "map_set h key a t = Inr (t\<lparr>heap := (heap t)(p \<mapsto> Map_object (AList.update key w fs))\<rparr>)"
    and "table_ok (t\<lparr>heap := (heap t)(p \<mapsto> Map_object (AList.update key w fs))\<rparr>)"
proof -
  have "get_as_map h t = Inr (p, fs)" using assms(2,3) by (simp add: get_as_map_eq)
  then show "map_set h key a t = Inr (t\<lparr>heap := (heap t)(p \<mapsto> Map_object (AList.update key w fs))\<rparr>)"
    using assms(4) by (simp add: map_set_def)
  show "table_ok (t\<lparr>heap := (heap t)(p \<mapsto> Map_object (AList.update key w fs))\<rparr>)"
    using assms(1,3) by (auto simp: table_ok_def)
qed

text \<open>\<open>fs\<close> is the content of a map for the entries \<open>ds\<close>, each stored as \<open>R\<close> says.\<close>

definition mirrors :: "('v \<Rightarrow> cg_value \<Rightarrow> bool) \<Rightarrow> (string \<times> 'v) list \<Rightarrow> (string \<times> cg_value) list \<Rightarrow> bool" where
  "mirrors R ds fs \<longleftrightarrow>
     distinct (map fst fs) \<and> list_all (\<lambda>k. c_str k = k) (map fst fs) \<and>
     (\<forall>k. rel_option R (map_of (rev ds) k) (map_of fs k))"

lemma mirrors_Nil [simp]: "mirrors R [] []"
  by (simp add: mirrors_def)

lemma mirrors_update:
  assumes "mirrors R ds fs" "R v w"
  shows "mirrors R (ds @ [(c_str s, v)]) (AList.update (c_str s) w fs)"
proof -
  have "fst ` set (AList.update (c_str s) w fs) = insert (c_str s) (fst ` set fs)"
    by (simp add: dom_update)
  then have "list_all (\<lambda>k. c_str k = k) (map fst (AList.update (c_str s) w fs))"
    using assms(1) by (auto simp: mirrors_def list_all_iff)
  moreover have "distinct (map fst (AList.update (c_str s) w fs))"
    using assms(1) by (simp add: mirrors_def distinct_update)
  moreover have "rel_option R (map_of (rev (ds @ [(c_str s, v)])) k) (map_of (AList.update (c_str s) w fs) k)" for k
    using assms by (simp add: mirrors_def update_conv')
  ultimately show ?thesis by (simp add: mirrors_def)
qed

text \<open>\<open>t'\<close> differs from \<open>t\<close> in new handles and objects and in the object at \<open>p\<close>.\<close>

definition extends_but :: "ptr \<Rightarrow> handle_table \<Rightarrow> handle_table \<Rightarrow> bool" where
  "extends_but p t t' \<longleftrightarrow>
     m_handles t \<subseteq>\<^sub>m m_handles t' \<and> (\<forall>q. q \<noteq> p \<longrightarrow> heap t q \<noteq> None \<longrightarrow> heap t' q = heap t q)"

lemma extends_but_step:
  assumes "extends t t1" "heap t p = Some ob" "extends_but p (t1\<lparr>heap := (heap t1)(p \<mapsto> ob')\<rparr>) t2"
  shows "extends_but p t t2"
  using assms unfolding extends_def extends_but_def map_le_def dom_def
  by simp

lemma extends_created:
  assumes t: "table_ok t" and r: "extends_but (Suc (n_objects t)) (snd (insert_object ob t)) t'"
  shows "extends t t'"
proof -
  let ?t = "snd (insert_object ob t)" and ?p = "Suc (n_objects t)"
  have new: "heap t ?p = None" using table_ok_fresh [OF t] by blast
  have le: "m_handles t \<subseteq>\<^sub>m m_handles ?t" "heap t \<subseteq>\<^sub>m heap ?t"
    using insert_object_extends [OF t, of ob] by (simp_all add: extends_def)
  have "heap t' q = heap t q" if "q \<in> dom (heap t)" for q
  proof -
    have "q \<noteq> ?p" "heap ?t q = heap t q" using that new le(2) by (auto simp: map_le_def)
    then show ?thesis using r that by (auto simp: extends_but_def)
  qed
  then show ?thesis
    using map_le_trans [OF le(1)] r unfolding extends_def extends_but_def map_le_def [of "heap t"] by simp
qed

text \<open>The table in which a new map is to be filled.\<close>

lemma created_map:
  assumes "table_ok t" "unat (m_next_id t) + Suc k < 2 ^ 63"
  shows "table_ok (snd (insert_object (Map_object []) t))"
    "unat (m_next_id (snd (insert_object (Map_object []) t))) = unat (m_next_id t) + 1"
    "m_handles (snd (insert_object (Map_object []) t)) (m_next_id t) = Some (Suc (n_objects t))"
    "heap (snd (insert_object (Map_object []) t)) (Suc (n_objects t)) = Some (Map_object [])"
proof -
  show "table_ok (snd (insert_object (Map_object []) t))"
    by (rule insert_object_ok [OF assms(1)]) (use assms(2) in simp)
  show "unat (m_next_id (snd (insert_object (Map_object []) t))) = unat (m_next_id t) + 1"
    using unat_next_id [of t 1] assms(2) by (simp add: insert_object_def Let_def)
qed (simp_all add: insert_object_def Let_def)

lemma to_any_no_handle: "type_index (to_any w) \<noteq> CG_MAP_HANDLE" "type_index (to_any w) \<noteq> CG_ARRAY_HANDLE"
  by (cases w; simp add: tag_defs)+

lemma array_get_key:
  assumes "get_as_array kh t = Inr (q, map (VStr \<circ> fst) fs)" "i < length fs" "length fs < 2 ^ 63"
  shows "array_get kh (of_nat i) t = Inr (any_of CG_STR (v_cstr (c_str (fst (fs ! i)))))"
proof -
  have i: "i < 2 ^ 63" using assms(2,3) by simp
  then have "unat (of_nat i :: 64 word) = i" by (simp add: unat_of_nat take_bit_nat_eq_self)
  moreover have "sint (of_nat i :: 64 word) = int i"
    using i by (simp add: signed_of_nat signed_take_bit_int_eq_self)
  ultimately show ?thesis using assms(1,2) by (simp add: array_get_def)
qed

lemma mirrors_length:
  assumes "mirrors R ds fs"
  shows "length fs \<le> length ds"
proof -
  have "k \<in> fst ` set ds" if "k \<in> fst ` set fs" for k
  proof -
    have "map_of fs k \<noteq> None" using that by (simp add: map_of_eq_None_iff)
    moreover have "rel_option R (map_of (rev ds) k) (map_of fs k)" using assms by (simp add: mirrors_def)
    ultimately have "map_of (rev ds) k \<noteq> None" by (cases "map_of (rev ds) k") simp_all
    then show ?thesis by (simp add: map_of_eq_None_iff)
  qed
  then have "card (set (map fst fs)) \<le> card (set (map fst ds))" by (intro card_mono) auto
  also have "\<dots> \<le> length ds" using card_length [of "map fst ds"] by simp
  finally show ?thesis using assms distinct_card [of "map fst fs"] by (simp add: mirrors_def)
qed

end
