(* ===== verification/LuaBridge.thy ===== *)
theory LuaBridge
  imports Values
begin

text \<open>
  The Lua bridge, plugins/bridge/lua_bridge/bin/lua_bridge_plugin.cc: the conversion between Lua
  values and \<open>CongeladoAny\<close>, the call of an installed method and the life cycle of the state. A
  Lua value is a finite tree; a table is the list of its entries in the order of \<open>lua_next\<close>. The
  number that \<open>from_lua\<close> and \<open>to_lua\<close> take is the number of slots that the Lua stack can still
  grow by, which \<open>lua_checkstack\<close> compares with.
\<close>

section \<open>Lua values\<close>

text \<open>\<open>LOther\<close> is a value of another type, of which \<open>lua_touserdata\<close> gives the null pointer.\<close>

datatype lua =
    LNil
  | LBool bool
  | LInt "64 word"
  | LNum "64 word"
  | LStr string
  | LTable "(lua \<times> lua) list"
  | LUserdata ptr
  | LOther

definition lua_stack_error :: string where
  "lua_stack_error = ''table nested too deeply, out of Lua stack space''"

fun from_lua :: "nat \<Rightarrow> lua \<Rightarrow> handle_table \<Rightarrow> (CongeladoAny \<times> handle_table) outcome"
  and from_entries :: "nat \<Rightarrow> 64 word \<Rightarrow> (lua \<times> lua) list \<Rightarrow> handle_table \<Rightarrow> handle_table outcome" where
  "from_lua n LNil t = Inr (any_of CG_NONE (v_int64 0), t)"
| "from_lua n (LBool b) t = Inr (any_of CG_BOOL (v_int64 (if b then 1 else 0)), t)"
| "from_lua n (LInt i) t = Inr (any_of CG_INT (v_int64 i), t)"
| "from_lua n (LNum d) t = Inr (any_of CG_FLOAT (v_float64 d), t)"
| "from_lua n (LStr s) t = Inr (any_of CG_STR (v_cstr (c_str s)), t)"
| "from_lua n (LTable es) t =
     (if n < 3 then Inl (Throws lua_stack_error)
      else
        let (handle, t) = map_create t
        in bind_ub (map_sum Undefined id (read_int64 handle)) (\<lambda>h.
           bind_ub (from_entries (n - 2) h es t) (\<lambda>t. Inr (handle, t))))"
| "from_lua n (LUserdata p) t = Inr (any_of CG_PTR (v_ptr p), t)"
| "from_lua n LOther t = Inr (any_of CG_PTR (v_ptr 0), t)"
| "from_entries n h [] t = Inr t"
| "from_entries n h ((k, v) # es) t =
     (case k of
        LStr s \<Rightarrow>
          bind_ub (from_lua n v t) (\<lambda>(a, t).
          bind_ub (map_set h (c_str s) a t) (\<lambda>t. from_entries n h es t))
      | _ \<Rightarrow> from_entries n h es t)"

text \<open>\<open>lua_setfield\<close> on a table; the value nil removes the entry.\<close>

definition set_field :: "string \<Rightarrow> lua \<Rightarrow> (lua \<times> lua) list \<Rightarrow> (lua \<times> lua) list" where
  "set_field k v es = (if v = LNil then AList.delete (LStr k) es else AList.update (LStr k) v es)"

definition as_handle :: "CongeladoAny outcome \<Rightarrow> 64 word outcome" where
  "as_handle r = bind_ub r (\<lambda>a. map_sum Undefined id (read_int64 a))"

text \<open>
  \<open>to_lua\<close>, and its loop over the keys from \<open>idx\<close> on, \<open>k\<close> of which remain. The cases are in the
  order of the tags; any other tag is pushed as a light userdata.
\<close>

fun to_lua :: "nat \<Rightarrow> CongeladoAny \<Rightarrow> handle_table \<Rightarrow> (lua \<times> handle_table) outcome"
  and to_fields :: "nat \<Rightarrow> 64 word \<Rightarrow> 64 word \<Rightarrow> 64 word \<Rightarrow> nat \<Rightarrow> (lua \<times> lua) list \<Rightarrow> handle_table \<Rightarrow>
    ((lua \<times> lua) list \<times> handle_table) outcome" where
  "to_lua n a t =
     (if type_index a = CG_NONE then Inr (LNil, t)
      else if type_index a = CG_BOOL then map_sum Undefined (\<lambda>i. (LBool (i \<noteq> 0), t)) (read_int64 a)
      else if type_index a = CG_INT then map_sum Undefined (\<lambda>i. (LInt i, t)) (read_int64 a)
      else if type_index a = CG_FLOAT then map_sum id (\<lambda>d. (LNum d, t)) (read_float64 a)
      else if type_index a = CG_STR then map_sum Undefined (\<lambda>s. (LStr s, t)) (read_cstr a)
      else if type_index a = CG_MAP_HANDLE then
        (if n < 2 then Inl (Throws lua_stack_error)
         else
           bind_ub (as_handle (Inr a)) (\<lambda>h.
           bind_ub (as_handle (get_map_size h t)) (\<lambda>map_size.
           bind_ub (get_map_keys h t) (\<lambda>(keys, t).
           bind_ub (as_handle (Inr keys)) (\<lambda>keys_handle.
           bind_ub (to_fields (n - 1) h keys_handle 0 (nat (sint map_size)) [] t) (\<lambda>(es, t).
             Inr (LTable es, handle_free keys_handle t)))))))
      else map_sum id (\<lambda>p. (LUserdata p, t)) (read_ptr a))"
| "to_fields n h keys_handle idx 0 es t = Inr (es, t)"
| "to_fields n h keys_handle idx (Suc k) es t =
     (case array_get keys_handle idx t of
        Inl e \<Rightarrow> Inl e
      | Inr key \<Rightarrow>
          (case read_cstr key of
             Inl u \<Rightarrow> Inl (Undefined u)
           | Inr key_text \<Rightarrow>
               (case map_get h key_text t of
                  Inl e \<Rightarrow> Inl e
                | Inr map_value \<Rightarrow>
                    bind_ub (to_lua n map_value t) (\<lambda>(v, t).
                    let t = (if type_index map_value = CG_MAP_HANDLE \<or> type_index map_value = CG_ARRAY_HANDLE
                             then (case read_int64 map_value of Inr i \<Rightarrow> handle_free i t | Inl _ \<Rightarrow> t) else t)
                    in to_fields n h keys_handle (idx + 1) k (set_field key_text v es) t))))"

section \<open>Methods and the state\<close>

text \<open>The arguments of a call, each converted and then read as a native value.\<close>

fun from_args :: "nat \<Rightarrow> lua list \<Rightarrow> handle_table \<Rightarrow> (cg_value list \<times> handle_table) outcome" where
  "from_args n [] t = Inr ([], t)"
| "from_args n (v # vs) t =
     bind_ub (from_lua n v t) (\<lambda>(a, t).
     bind_ub (from_any a) (\<lambda>x.
     bind_ub (from_args n vs t) (\<lambda>(xs, t). Inr (x # xs, t))))"

text \<open>
  The closure that \<open>install_method\<close> binds: \<open>invoke\<close> is the host function or what it throws. An
  exception becomes a Lua error; the table it leaves behind is not modelled.
\<close>

definition call_method ::
  "(cg_value list \<Rightarrow> string + cg_value) \<Rightarrow> nat \<Rightarrow> lua list \<Rightarrow> handle_table \<Rightarrow>
   ((string + lua \<times> handle_table) \<times> effects) may_ub" where
  "call_method invoke n args t =
     (case bind_ub (from_args n args t) (\<lambda>(xs, t).
             case invoke xs of
               Inl msg \<Rightarrow> Inl (Throws msg)
             | Inr r \<Rightarrow> to_lua n (to_any r) t) of
        Inl (Undefined u) \<Rightarrow> Inl u
      | Inl (Throws msg) \<Rightarrow> Inr (Inl msg, [Publish ''lua_bridge.invoke_exception'' [(''error'', msg)]])
      | Inr r \<Rightarrow> Inr (Inr r, []))"

text \<open>
  The bridge: its state is the name of the global table with the methods bound in it, each the
  index of its context.
\<close>

record 'f lua_bridge =
  lb_handles :: handle_table
  lb_state :: "(string \<times> (string \<times> nat) list) option"
  m_table_index :: int
  m_fn_contexts :: "'f list"

definition init_lua :: "'f lua_bridge" where
  "init_lua = \<lparr>lb_handles = init_table, lb_state = None, m_table_index = 0, m_fn_contexts = []\<rparr>"

text \<open>\<open>newstate\<close> is whether \<open>luaL_newstate\<close> gives a state; the state is fresh, so it has no table.\<close>

definition lua_on_load :: "bool \<Rightarrow> config \<Rightarrow> 'f lua_bridge \<Rightarrow> 'f lua_bridge \<times> effects" where
  "lua_on_load newstate cfg s =
     (let table_name = (case config_get cfg ''table_name'' of None \<Rightarrow> ''congelado'' | Some v \<Rightarrow> v)
      in if \<not> newstate then (s, [Log WARNING ''lua_bridge'', Publish ''lua_bridge.state_create_failed'' []])
         else (s\<lparr>lb_state := Some (c_str table_name, []), m_table_index := 1\<rparr>, [Log DEBUG ''lua_bridge'']))"

definition install_method :: "'f \<Rightarrow> string \<Rightarrow> 'f lua_bridge \<Rightarrow> ('f lua_bridge \<times> effects) may_ub" where
  "install_method fn_context lang_name s =
     (case lb_state s of
        None \<Rightarrow> Inl Null_dereference
      | Some (table, methods) \<Rightarrow>
          Inr (s\<lparr>m_fn_contexts := m_fn_contexts s @ [fn_context],
                 lb_state := Some (table, AList.update (c_str lang_name) (length (m_fn_contexts s)) methods)\<rparr>,
               [Log DEBUG ''lua_bridge'']))"

text \<open>\<open>dofile\<close> is the error of running the file, if it has one.\<close>

definition run_script :: "(string \<Rightarrow> string option) \<Rightarrow> string \<Rightarrow> 'f lua_bridge \<Rightarrow> int \<times> effects" where
  "run_script dofile path s =
     (case lb_state s of
        None \<Rightarrow> (1, [Log WARNING ''lua_bridge'', Publish ''lua_bridge.no_state'' []])
      | Some _ \<Rightarrow>
          (case dofile (c_str path) of
             Some err \<Rightarrow>
               (1, [Log WARNING ''lua_bridge'', Publish ''lua_bridge.script_failed'' [(''path'', path), (''error'', err)]])
           | None \<Rightarrow> (0, [Log DEBUG ''lua_bridge''])))"

definition native_handle :: "'f lua_bridge \<Rightarrow> ptr" where
  "native_handle s = (if lb_state s = None then 0 else 1)"

definition lua_class :: "bool \<Rightarrow> 'f lua_bridge plugin_class" where
  "lua_class newstate = default_plugin
     \<lparr>c_name := (\<lambda>_. ''lua_bridge''), c_version := (\<lambda>_. ''0.1.0''), c_capabilities := (\<lambda>_. cap_bit RUN_BRIDGE),
      c_on_load := (\<lambda>cfg s. (fst (lua_on_load newstate cfg s), False)),
      c_get := (\<lambda>t _. if t = RUN_BRIDGE then 1 else 0), c_native_handle := native_handle\<rparr>"

interpretation lua_caps: advertised "lua_class newstate"
  by unfold_locales (rename_tac t p, case_tac t; simp add: lua_class_def)

section \<open>Tables across the bridge\<close>

text \<open>The entries of a table that have a string key, the key as the C string that crosses.\<close>

fun string_entries :: "(lua \<times> lua) list \<Rightarrow> (string \<times> lua) list" where
  "string_entries [] = []"
| "string_entries ((LStr s, v) # es) = (c_str s, v) # string_entries es"
| "string_entries (_ # es) = string_entries es"

text \<open>The stack that a value needs and the tables in it that are reached through string keys.\<close>

fun need :: "lua \<Rightarrow> nat" and need_entries :: "(lua \<times> lua) list \<Rightarrow> nat" where
  "need (LTable es) = max 3 (2 + need_entries es)"
| "need _ = 0"
| "need_entries [] = 0"
| "need_entries ((k, v) # es) = max (need v) (need_entries es)"

fun tables :: "lua \<Rightarrow> nat" and tables_in :: "(lua \<times> lua) list \<Rightarrow> nat" where
  "tables (LTable es) = Suc (tables_in es)"
| "tables _ = 0"
| "tables_in [] = 0"
| "tables_in ((k, v) # es) = tables v + tables_in es"

text \<open>What a map stores for a Lua value: a boolean as an integer, a table by reference.\<close>

fun stored :: "lua \<Rightarrow> cg_value \<Rightarrow> bool" where
  "stored LNil w = (w = VNone)"
| "stored (LBool b) w = (w = VInt (if b then 1 else 0))"
| "stored (LInt i) w = (w = VInt i)"
| "stored (LNum d) w = (w = VFloat d)"
| "stored (LStr s) w = (w = VStr (c_str s))"
| "stored (LTable es) w = (\<exists>p. w = VMap p \<and> p \<noteq> 0)"
| "stored (LUserdata p) w = (w = VPtr p)"
| "stored LOther w = (w = VPtr 0)"

definition table_of :: "lua \<Rightarrow> CongeladoAny \<Rightarrow> handle_table \<Rightarrow> bool" where
  "table_of v a t \<longleftrightarrow>
     (\<forall>es. v = LTable es \<longrightarrow>
        (\<exists>h p fs. a = any_of CG_MAP_HANDLE (v_int64 h) \<and> m_handles t h = Some p \<and>
           heap t p = Some (Map_object fs) \<and> mirrors stored (string_entries es) fs))"

definition converts :: "lua \<Rightarrow> bool" where
  "converts v \<longleftrightarrow>
     (\<forall>n t. need v \<le> n \<longrightarrow> table_ok t \<longrightarrow> unat (m_next_id t) + tables v < 2 ^ 63 \<longrightarrow>
        (\<exists>a t' w. from_lua n v t = Inr (a, t') \<and> table_ok t' \<and> extends t t' \<and>
           unat (m_next_id t') \<le> unat (m_next_id t) + tables v \<and>
           resolve_value a t' = Inr w \<and> stored v w \<and> table_of v a t'))"

definition converts_entries :: "(lua \<times> lua) list \<Rightarrow> bool" where
  "converts_entries es \<longleftrightarrow>
     (\<forall>n t h p fs ds. need_entries es \<le> n \<longrightarrow> table_ok t \<longrightarrow> unat (m_next_id t) + tables_in es < 2 ^ 63 \<longrightarrow>
        m_handles t h = Some p \<longrightarrow> heap t p = Some (Map_object fs) \<longrightarrow> mirrors stored ds fs \<longrightarrow>
        (\<exists>t' fs'. from_entries n h es t = Inr t' \<and> table_ok t' \<and> extends_but p t t' \<and>
           unat (m_next_id t') \<le> unat (m_next_id t) + tables_in es \<and>
           heap t' p = Some (Map_object fs') \<and> mirrors stored (ds @ string_entries es) fs'))"

lemma converts_entriesE:
  assumes "converts_entries es" "need_entries es \<le> n" "table_ok t" "unat (m_next_id t) + tables_in es < 2 ^ 63"
    "m_handles t h = Some p" "heap t p = Some (Map_object fs)" "mirrors stored ds fs"
  obtains t' fs' where "from_entries n h es t = Inr t'" "table_ok t'" "extends_but p t t'"
    "unat (m_next_id t') \<le> unat (m_next_id t) + tables_in es"
    "heap t' p = Some (Map_object fs')" "mirrors stored (ds @ string_entries es) fs'"
  using assms unfolding converts_entries_def by blast

lemma converts_scalar:
  assumes "\<And>es. v \<noteq> LTable es"
  shows "converts v"
proof -
  have "\<exists>a w. from_lua n v t = Inr (a, t) \<and> resolve_value a t = Inr w \<and> stored v w" for n t
  proof (cases v)
    case (LTable es)
    then show ?thesis using assms by blast
  qed (simp_all add: resolve_value_def from_any_def read_int64_def read_cstr_def read_float64_def read_ptr_def tag_defs)
  then show ?thesis using assms unfolding converts_def table_of_def by (metis extends_refl le_add1)
qed

lemma converts_entries_Cons:
  assumes "converts v" "converts_entries es"
  shows "converts_entries ((k, v) # es)"
  unfolding converts_entries_def
proof (intro allI impI)
  fix n t h p fs ds
  assume n: "need_entries ((k, v) # es) \<le> n" and t: "table_ok t"
    and room: "unat (m_next_id t) + tables_in ((k, v) # es) < 2 ^ 63"
    and h: "m_handles t h = Some p" and p: "heap t p = Some (Map_object fs)" and m: "mirrors stored ds fs"
  show "\<exists>t' fs'. from_entries n h ((k, v) # es) t = Inr t' \<and> table_ok t' \<and> extends_but p t t' \<and>
      unat (m_next_id t') \<le> unat (m_next_id t) + tables_in ((k, v) # es) \<and>
      heap t' p = Some (Map_object fs') \<and> mirrors stored (ds @ string_entries ((k, v) # es)) fs'"
  proof (cases "\<exists>s. k = LStr s")
    case False
    then have "from_entries n h ((k, v) # es) t = from_entries n h es t" "string_entries ((k, v) # es) = string_entries es"
      by (cases k; simp)+
    moreover have "need_entries es \<le> n" "unat (m_next_id t) + tables_in es < 2 ^ 63" using n room by simp_all
    then obtain t' fs' where "from_entries n h es t = Inr t'" "table_ok t'" "extends_but p t t'"
      "unat (m_next_id t') \<le> unat (m_next_id t) + tables_in es"
      "heap t' p = Some (Map_object fs')" "mirrors stored (ds @ string_entries es) fs'"
      using converts_entriesE [OF assms(2) _ t _ h p m] by blast
    ultimately show ?thesis by (intro exI [of _ t'] exI [of _ fs']) simp
  next
    case True
    then obtain s where s: "k = LStr s" ..
    obtain a t1 w where a: "from_lua n v t = Inr (a, t1)" "table_ok t1" "extends t t1"
      "unat (m_next_id t1) \<le> unat (m_next_id t) + tables v" "resolve_value a t1 = Inr w" "stored v w"
    proof -
      have "need v \<le> n" "unat (m_next_id t) + tables v < 2 ^ 63" using n room by simp_all
      then show ?thesis using assms(1) t that unfolding converts_def by blast
    qed
    have h1: "m_handles t1 h = Some p" "heap t1 p = Some (Map_object fs)"
      using a(3) h p by (auto simp: extends_def map_le_def dom_def)
    let ?t2 = "t1\<lparr>heap := (heap t1)(p \<mapsto> Map_object (AList.update (c_str s) w fs))\<rparr>"
    have pre: "need_entries es \<le> n" "unat (m_next_id ?t2) + tables_in es < 2 ^ 63" "m_handles ?t2 h = Some p"
      "heap ?t2 p = Some (Map_object (AList.update (c_str s) w fs))"
      using n room a(4) h1(1) by simp_all
    obtain t' fs' where r: "from_entries n h es ?t2 = Inr t'" "table_ok t'" "extends_but p ?t2 t'"
      "unat (m_next_id t') \<le> unat (m_next_id ?t2) + tables_in es"
      "heap t' p = Some (Map_object fs')" "mirrors stored ((ds @ [(c_str s, v)]) @ string_entries es) fs'"
      by (rule converts_entriesE [OF assms(2) pre(1) map_set_update(2) [OF a(2) h1 a(5)] pre(2-4) mirrors_update [OF m a(6)]])
    show ?thesis
    proof (intro exI conjI)
      show "from_entries n h ((k, v) # es) t = Inr t'"
        by (simp only: s from_entries.simps lua.case a(1) bind_ub_simps prod.case map_set_update(1) [OF a(2) h1 a(5)] r(1))
      show "extends_but p t t'" using extends_but_step [OF a(3) p r(3)] .
      have "unat (m_next_id t') \<le> unat (m_next_id t1) + tables_in es" using r(4) by simp
      then show "unat (m_next_id t') \<le> unat (m_next_id t) + tables_in ((k, v) # es)"
        using a(4) unfolding tables_in.simps by linarith
      show "mirrors stored (ds @ string_entries ((k, v) # es)) fs'" using r(6) by (simp add: s)
    qed (rule r(2), rule r(5))
  qed
qed

lemma converts_table:
  assumes "converts_entries es"
  shows "converts (LTable es)"
  unfolding converts_def
proof (intro allI impI)
  fix n t
  assume n: "need (LTable es) \<le> n" and t: "table_ok t" and room: "unat (m_next_id t) + tables (LTable es) < 2 ^ 63"
  let ?h = "m_next_id t" and ?p = "Suc (n_objects t)" and ?t = "snd (insert_object (Map_object []) t)"
  note c = created_map [OF t room [unfolded tables.simps]]
  have pre: "need_entries es \<le> n - 2" "unat (m_next_id ?t) + tables_in es < 2 ^ 63"
    using n room c(2) unfolding need.simps tables.simps by linarith+
  obtain t' fs where r: "from_entries (n - 2) ?h es ?t = Inr t'" "table_ok t'" "extends_but ?p ?t t'"
    "unat (m_next_id t') \<le> unat (m_next_id ?t) + tables_in es"
    "heap t' ?p = Some (Map_object fs)" "mirrors stored ([] @ string_entries es) fs"
    by (rule converts_entriesE [OF assms pre(1) c(1) pre(2) c(3,4) mirrors_Nil])
  have h: "m_handles t' ?h = Some ?p" using r(3) c(3) by (auto simp: extends_but_def map_le_def dom_def)
  have ext: "extends t t'" by (rule extends_created [OF t r(3)])
  let ?a = "any_of CG_MAP_HANDLE (v_int64 ?h)"
  have "from_lua n (LTable es) t = Inr (?a, t')"
    using n r(1) by (simp add: map_create_def case_prod_beta read_int64_def)
      (simp add: insert_object_def Let_def)
  moreover have "resolve_value ?a t' = Inr (VMap ?p)"
    using h r(5) by (simp add: resolve_value_def read_int64_def get_as_map_def)
  moreover have "table_of (LTable es) ?a t'" using h r(5,6) by (auto simp: table_of_def)
  moreover have "unat (m_next_id t') \<le> unat (m_next_id t) + tables (LTable es)" using r(4) c(2) by simp
  ultimately show "\<exists>a t' w. from_lua n (LTable es) t = Inr (a, t') \<and> table_ok t' \<and> extends t t' \<and>
      unat (m_next_id t') \<le> unat (m_next_id t) + tables (LTable es) \<and>
      resolve_value a t' = Inr w \<and> stored (LTable es) w \<and> table_of (LTable es) a t'"
    using r(2) ext by (intro exI [of _ ?a] exI [of _ t'] exI [of _ "VMap ?p"]) simp
qed

lemma converts_all: "converts v" "converts_entries es"
proof (induction v and es rule: need_need_entries.induct)
  case 3
  then show ?case by (auto simp: converts_entries_def extends_but_def)
qed (simp_all add: converts_table converts_scalar converts_entries_Cons)

fun lua_of :: "cg_value \<Rightarrow> lua" where
  "lua_of VNone = LNil"
| "lua_of (VInt i) = LInt i"
| "lua_of (VFloat d) = LNum d"
| "lua_of (VBool b) = LBool b"
| "lua_of (VStr s) = LStr (c_str s)"
| "lua_of (VMap p) = LUserdata p"
| "lua_of (VArray p) = LUserdata p"
| "lua_of (VPtr p) = LUserdata p"

lemma to_lua_value: "to_lua n (to_any w) t = Inr (lua_of w, t)"
  by (cases w) (simp_all add: tag_defs read_int64_def read_cstr_def read_float64_def read_ptr_def)

declare to_lua.simps [simp del]

lemma to_fields_run:
  assumes "get_as_map h t = Inr (p, fs)" "get_as_array kh t = Inr (q, map (VStr \<circ> fst) fs)" "length fs < 2 ^ 63"
    "distinct (map fst fs)" "list_all (\<lambda>k. c_str k = k) (map fst fs)"
  shows "i + k = length fs \<Longrightarrow> to_fields n h kh (of_nat i) k es t =
    Inr (fold (\<lambda>(key, w). set_field key (lua_of w)) (drop i fs) es, t)"
proof (induction k arbitrary: i es)
  case (Suc k)
  obtain key w where f: "fs ! i = (key, w)" by (cases "fs ! i")
  have i: "i < length fs" using Suc.prems by simp
  have "c_str (fst (fs ! i)) = fst (fs ! i)" using assms(5) i by (simp add: list_all_length)
  then have "c_str key = key" using f by simp
  moreover have "map_of fs key = Some w"
    by (rule map_of_is_SomeI [OF assms(4)]) (use nth_mem [OF i] f in simp)
  then have "map_get h key t = Inr (to_any w)" using assms(1) by (simp add: map_get_def)
  ultimately have "to_fields n h kh (of_nat i) (Suc k) es t =
      to_fields n h kh (of_nat (Suc i)) k (set_field key (lua_of w) es) t"
    using array_get_key [OF assms(2) i assms(3)]
    by (simp add: f read_cstr_def to_lua_value to_any_no_handle of_nat_Suc add.commute [of 1])
  also have "\<dots> = Inr (fold (\<lambda>(key, w). set_field key (lua_of w)) (drop (Suc i) fs) (set_field key (lua_of w) es), t)"
    using Suc.IH [of "Suc i"] Suc.prems by simp
  also have "\<dots> = Inr (fold (\<lambda>(key, w). set_field key (lua_of w)) (drop i fs) es, t)"
    using Cons_nth_drop_Suc [OF i, symmetric] f by simp
  finally show ?case .
qed simp

lemma fold_set_field:
  "distinct (map fst fs) \<Longrightarrow> map_of (fold (\<lambda>(key, w). set_field key (lua_of w)) fs es) (LStr k) =
     (case map_of fs k of None \<Rightarrow> map_of es (LStr k) | Some w \<Rightarrow> if lua_of w = LNil then None else Some (lua_of w))"
proof (induction fs arbitrary: es)
  case (Cons f fs)
  obtain key w where f: "f = (key, w)" by (cases f)
  let ?E = "set_field key (lua_of w) es"
  have d: "distinct (map fst fs)" "key \<notin> fst ` set fs" using Cons.prems by (simp_all add: f)
  have E: "map_of ?E (LStr k) =
      (if key = k then (if lua_of w = LNil then None else Some (lua_of w)) else map_of es (LStr k))"
    by (simp add: set_field_def update_conv' delete_conv')
  show ?case
  proof (cases "key = k")
    case True
    then have "map_of fs k = None" using d(2) by (simp add: map_of_eq_None_iff)
    then show ?thesis using Cons.IH [OF d(1), of ?E] E True by (simp add: f)
  next
    case False
    then show ?thesis using Cons.IH [OF d(1), of ?E] unfolding E by (simp add: f)
  qed
qed simp

lemma to_lua_map:
  assumes t: "table_ok t" and m: "m_handles t h = Some p" "heap t p = Some (Map_object fs)" and fs: "mirrors stored ds fs"
    and len: "length fs < 2 ^ 63" and n: "2 \<le> n"
  shows "\<exists>t'. to_lua n (any_of CG_MAP_HANDLE (v_int64 h)) t =
      Inr (LTable (fold (\<lambda>(key, w). set_field key (lua_of w)) fs []), t') \<and> m_handles t' = m_handles t"
proof -
  let ?keys = "Array_object (map (VStr \<circ> fst) fs)" and ?kh = "m_next_id t"
  let ?t = "snd (insert_object ?keys t)"
  have fresh: "m_handles t ?kh = None" "heap t (Suc (n_objects t)) = None" using table_ok_fresh [OF t] by simp_all
  have g: "get_as_map h t = Inr (p, fs)" "get_as_map h ?t = Inr (p, fs)"
    "get_as_array ?kh ?t = Inr (Suc (n_objects t), map (VStr \<circ> fst) fs)"
    using m fresh by (auto simp: get_as_map_def get_as_array_def insert_object_def Let_def)
  have size: "nat (sint (of_nat (length fs) :: 64 word)) = length fs"
    using len by (simp add: signed_of_nat signed_take_bit_int_eq_self)
  have "to_fields (n - 1) h ?kh (of_nat 0) (length fs) [] ?t =
      Inr (fold (\<lambda>(key, w). set_field key (lua_of w)) (drop 0 fs) [], ?t)"
    using fs by (intro to_fields_run [OF g(2,3) len]) (simp_all add: mirrors_def)
  then have "to_lua n (any_of CG_MAP_HANDLE (v_int64 h)) t =
      Inr (LTable (fold (\<lambda>(key, w). set_field key (lua_of w)) fs []), handle_free ?kh ?t)"
    using n g(1) size
    by (simp add: to_lua.simps tag_defs as_handle_def read_int64_def get_map_size_def get_map_keys_def case_prod_beta)
      (simp add: insert_object_def Let_def)
  then show ?thesis using handle_free_keys [OF t] by blast
qed

text \<open>What is left of a value after it crossed twice inside a table.\<close>

fun carried :: "lua \<Rightarrow> lua \<Rightarrow> bool" where
  "carried (LBool b) l = (l = LInt (if b then 1 else 0))"
| "carried (LStr s) l = (l = LStr (c_str s))"
| "carried (LTable es) l = (\<exists>p. l = LUserdata p \<and> p \<noteq> 0)"
| "carried LOther l = (l = LUserdata 0)"
| "carried v l = (l = v)"

lemma stored_carried: "stored v w \<Longrightarrow> v \<noteq> LNil \<Longrightarrow> lua_of w \<noteq> LNil \<and> carried v (lua_of w)"
  by (cases v) auto

lemma string_entries_sub: "set (map snd (string_entries es)) \<subseteq> set (map snd es)" "length (string_entries es) \<le> length es"
  by (induction es rule: string_entries.induct) auto



text \<open>
  Nested tables are lost: \<open>map_get\<close> tags a nested map as \<open>CG_MAP\<close>, for which \<open>to_lua\<close> has no
  case. An argument that is a table reaches the method as a union member that was not written.
\<close>

lemma nested_table_is_userdata: "to_lua n (to_any (VMap p)) t = Inr (LUserdata p, t)"
  by (simp add: to_lua_value del: to_any.simps)

lemma table_argument_undefined: "3 \<le> n \<Longrightarrow> call_method invoke n [LTable []] t = Inl Inactive_union_member"
  by (simp add: call_method_def map_create_def case_prod_beta read_int64_def from_any_def tag_defs read_ptr_def)

text \<open>Every table argument that is converted leaves its handle in the table.\<close>

lemma table_handle_stays:
  "3 \<le> n \<Longrightarrow> from_lua n (LTable []) t = Inr (a, t') \<Longrightarrow> m_handles t' (m_next_id t) \<noteq> None"
  by (auto simp: map_create_def insert_object_def Let_def read_int64_def)

end
