(* ===== verification/PythonBridge.thy ===== *)
theory PythonBridge
  imports Values
begin

text \<open>
  The Python bridge, plugins/bridge/python_bridge/bin/python_bridge_plugin.cc: the conversion
  between Python objects and \<open>CongeladoAny\<close>, the call of an installed method and the life cycle
  of the interpreter. A Python object is a finite tree, its texts are their UTF-8 bytes, and a
  dictionary is the list of its items in the order of \<open>PyDict_Next\<close>. CPython's allocations are
  taken to succeed.
\<close>

section \<open>Python objects\<close>

text \<open>\<open>PObject\<close> is an object of another type, by its address.\<close>

datatype py =
    PNone
  | PBool bool
  | PInt int
  | PFloat "64 word"
  | PStr string
  | PDict "(py \<times> py) list"
  | PObject ptr

text \<open>\<open>PyLong_AsLongLong\<close>: out of range it gives -1 and sets an exception.\<close>

definition as_long_long :: "int \<Rightarrow> 64 word" where
  "as_long_long i = (if - (2 ^ 63) \<le> i \<and> i < 2 ^ 63 then word_of_int i else -1)"

text \<open>\<open>PyUnicode_AsUTF8\<close> of a key: of an object that is no text it is null, which \<open>map_set\<close> reads as empty.\<close>

fun key_text :: "py \<Rightarrow> string" where
  "key_text (PStr s) = c_str s"
| "key_text _ = ''''"

fun from_py :: "py \<Rightarrow> handle_table \<Rightarrow> (CongeladoAny \<times> handle_table) outcome"
  and from_items :: "64 word \<Rightarrow> (py \<times> py) list \<Rightarrow> handle_table \<Rightarrow> handle_table outcome" where
  "from_py PNone t = Inr (any_of CG_NONE (v_int64 0), t)"
| "from_py (PBool b) t = Inr (any_of CG_BOOL (v_int64 (if b then 1 else 0)), t)"
| "from_py (PInt i) t = Inr (any_of CG_INT (v_int64 (as_long_long i)), t)"
| "from_py (PFloat d) t = Inr (any_of CG_FLOAT (v_float64 d), t)"
| "from_py (PStr s) t = Inr (any_of CG_STR (v_cstr (c_str s)), t)"
| "from_py (PDict items) t =
     (let (handle, t) = map_create t
      in bind_ub (map_sum Undefined id (read_int64 handle)) (\<lambda>h.
         bind_ub (from_items h items t) (\<lambda>t. Inr (handle, t))))"
| "from_py (PObject p) t = Inr (any_of CG_PTR (v_ptr p), t)"
| "from_items h [] t = Inr t"
| "from_items h ((k, v) # items) t =
     bind_ub (from_py v t) (\<lambda>(a, t).
     bind_ub (map_set h (key_text k) a t) (\<lambda>t. from_items h items t))"

lemma map_get_no_handle: "map_get h key t = Inr a \<Longrightarrow> type_index a \<noteq> CG_MAP_HANDLE"
  by (auto simp: map_get_def map_sum_eq_Inr to_any_no_handle [unfolded CG_MAP_HANDLE_def] any_none_def CG_MAP_HANDLE_def
      split: option.splits)

text \<open>
  \<open>to_py\<close>, and its loop over the keys from \<open>idx\<close> on, \<open>k\<close> of which remain. A value that
  \<open>map_get\<close> gives has no handle tag, so the recursion ends.
\<close>

function to_py :: "CongeladoAny \<Rightarrow> handle_table \<Rightarrow> (py \<times> handle_table) outcome"
  and to_items :: "64 word \<Rightarrow> 64 word \<Rightarrow> 64 word \<Rightarrow> nat \<Rightarrow> (py \<times> py) list \<Rightarrow> handle_table \<Rightarrow>
    ((py \<times> py) list \<times> handle_table) outcome" where
  "to_py a t =
     (if type_index a = CG_NONE then Inr (PNone, t)
      else if type_index a = CG_BOOL then map_sum Undefined (\<lambda>i. (PBool (i \<noteq> 0), t)) (read_int64 a)
      else if type_index a = CG_INT then map_sum Undefined (\<lambda>i. (PInt (sint i), t)) (read_int64 a)
      else if type_index a = CG_FLOAT then map_sum id (\<lambda>d. (PFloat d, t)) (read_float64 a)
      else if type_index a = CG_STR then map_sum Undefined (\<lambda>s. (PStr s, t)) (read_cstr a)
      else if type_index a = CG_MAP_HANDLE then
        (case read_int64 a of
           Inl u \<Rightarrow> Inl (Undefined u)
         | Inr h \<Rightarrow>
             (case bind_ub (get_map_size h t) (\<lambda>n. map_sum Undefined id (read_int64 n)) of
                Inl e \<Rightarrow> Inl e
              | Inr map_size \<Rightarrow>
                  (case get_map_keys h t of
                     Inl e \<Rightarrow> Inl e
                   | Inr (keys, t) \<Rightarrow>
                       (case read_int64 keys of
                          Inl u \<Rightarrow> Inl (Undefined u)
                        | Inr keys_handle \<Rightarrow>
                            (case to_items h keys_handle 0 (nat (sint map_size)) [] t of
                               Inl e \<Rightarrow> Inl e
                             | Inr (items, t) \<Rightarrow> Inr (PDict items, handle_free keys_handle t))))))
      else map_sum id (\<lambda>p. (PInt (int p), t)) (read_ptr a))"
| "to_items h keys_handle idx 0 items t = Inr (items, t)"
| "to_items h keys_handle idx (Suc k) items t =
     (case array_get keys_handle idx t of
        Inl e \<Rightarrow> Inl e
      | Inr key \<Rightarrow>
          (case read_cstr key of
             Inl u \<Rightarrow> Inl (Undefined u)
           | Inr ks \<Rightarrow>
               (case map_get h ks t of
                  Inl e \<Rightarrow> Inl e
                | Inr map_value \<Rightarrow>
                    (case to_py map_value t of
                       Inl e \<Rightarrow> Inl e
                     | Inr (v, t) \<Rightarrow> to_items h keys_handle (idx + 1) k (AList.update (PStr ks) v items) t))))"
  by pat_completeness auto
termination
  by (relation "inv_image (less_than <*lex*> less_than)
      (\<lambda>x. case x of Inl (a, t) \<Rightarrow> (if type_index a = CG_MAP_HANDLE then 2 else 0, 0) | Inr (h, kh, idx, k, items, t) \<Rightarrow> (1, k))")
    (auto simp: map_get_no_handle)

declare to_py.simps [simp del]

section \<open>Methods and the interpreter\<close>

fun from_tuple :: "py list \<Rightarrow> handle_table \<Rightarrow> (cg_value list \<times> handle_table) outcome" where
  "from_tuple [] t = Inr ([], t)"
| "from_tuple (v # vs) t =
     bind_ub (from_py v t) (\<lambda>(a, t).
     bind_ub (from_any a) (\<lambda>x.
     bind_ub (from_tuple vs t) (\<lambda>(xs, t). Inr (x # xs, t))))"

text \<open>The callable that \<open>install_method\<close> adds; an exception of the host becomes a \<open>RuntimeError\<close>.\<close>

definition call_py_method ::
  "(cg_value list \<Rightarrow> string + cg_value) \<Rightarrow> py list \<Rightarrow> handle_table \<Rightarrow>
   ((string + py \<times> handle_table) \<times> effects) may_ub" where
  "call_py_method invoke args t =
     (case bind_ub (from_tuple args t) (\<lambda>(xs, t).
             case invoke xs of
               Inl msg \<Rightarrow> Inl (Throws msg)
             | Inr r \<Rightarrow> to_py (to_any r) t) of
        Inl (Undefined u) \<Rightarrow> Inl u
      | Inl (Throws msg) \<Rightarrow> Inr (Inl msg, [Publish ''python_bridge.invoke_exception'' [(''error'', msg)]])
      | Inr r \<Rightarrow> Inr (Inr r, []))"

text \<open>The module with the methods in it; the names are kept for the life of the plugin.\<close>

record 'f python_bridge =
  pb_handles :: handle_table
  m_module :: "(string \<times> (string \<times> 'f) list) option"
  m_method_names :: "string list"

definition init_python :: "'f python_bridge" where
  "init_python = \<lparr>pb_handles = init_table, m_module = None, m_method_names = []\<rparr>"

text \<open>
  \<open>on_load\<close> and \<open>on_unload\<close> with the state of the process-wide interpreter, whether it is
  initialised; \<open>add_module\<close> is whether \<open>PyImport_AddModule\<close> gives a module.
\<close>

definition python_on_load ::
  "(string \<Rightarrow> bool) \<Rightarrow> config \<Rightarrow> bool \<Rightarrow> 'f python_bridge \<Rightarrow> ('f python_bridge \<times> bool) \<times> effects" where
  "python_on_load add_module cfg initialized s =
     (let module_name = (case config_get cfg ''module_name'' of None \<Rightarrow> ''congelado'' | Some v \<Rightarrow> v)
      in if add_module (c_str module_name)
         then ((s\<lparr>m_module := Some (c_str module_name, [])\<rparr>, True), [Log DEBUG ''python_bridge''])
         else ((s, True), [Log WARNING ''python_bridge'', Publish ''python_bridge.module_resolve_failed'' [(''module'', module_name)]]))"

definition python_on_unload :: "bool \<Rightarrow> 'f python_bridge \<Rightarrow> 'f python_bridge \<times> bool" where
  "python_on_unload initialized s = (s\<lparr>m_module := None\<rparr>, False)"

definition install_method :: "'f \<Rightarrow> string \<Rightarrow> 'f python_bridge \<Rightarrow> ('f python_bridge \<times> effects) may_ub" where
  "install_method fn_context lang_name s =
     (case m_module s of
        None \<Rightarrow> Inl Null_dereference
      | Some (name, methods) \<Rightarrow>
          Inr (s\<lparr>m_method_names := m_method_names s @ [lang_name],
                 m_module := Some (name, AList.update (c_str lang_name) fn_context methods)\<rparr>,
               [Log DEBUG ''python_bridge'']))"

text \<open>\<open>run\<close> is the exit code of the file, None if it cannot be opened.\<close>

definition run_script :: "(string \<Rightarrow> int option) \<Rightarrow> string \<Rightarrow> int \<times> effects" where
  "run_script run path =
     (case run (c_str path) of
        None \<Rightarrow> (1, [Log WARNING ''python_bridge'', Publish ''python_bridge.script_not_found'' [(''path'', path)]])
      | Some rc \<Rightarrow> (rc, [Log DEBUG ''python_bridge'']))"

definition python_class :: "(string \<Rightarrow> bool) \<Rightarrow> ('f python_bridge \<times> bool) plugin_class" where
  "python_class add_module = default_plugin
     \<lparr>c_name := (\<lambda>_. ''python_bridge''), c_version := (\<lambda>_. ''0.1.0''), c_capabilities := (\<lambda>_. cap_bit RUN_BRIDGE),
      c_on_load := (\<lambda>cfg (s, initialized). (fst (python_on_load add_module cfg initialized s), False)),
      c_get := (\<lambda>t _. if t = RUN_BRIDGE then 1 else 0)\<rparr>"

interpretation python_caps: advertised "python_class add_module"
  by unfold_locales (rename_tac t p, case_tac t; simp add: python_class_def)

section \<open>Dictionaries across the bridge\<close>

fun dicts :: "py \<Rightarrow> nat" and dicts_in :: "(py \<times> py) list \<Rightarrow> nat" where
  "dicts (PDict items) = Suc (dicts_in items)"
| "dicts _ = 0"
| "dicts_in [] = 0"
| "dicts_in ((k, v) # items) = dicts v + dicts_in items"

fun py_stored :: "py \<Rightarrow> cg_value \<Rightarrow> bool" where
  "py_stored PNone w = (w = VNone)"
| "py_stored (PBool b) w = (w = VInt (if b then 1 else 0))"
| "py_stored (PInt i) w = (w = VInt (as_long_long i))"
| "py_stored (PFloat d) w = (w = VFloat d)"
| "py_stored (PStr s) w = (w = VStr (c_str s))"
| "py_stored (PDict items) w = (\<exists>p. w = VMap p \<and> p \<noteq> 0)"
| "py_stored (PObject p) w = (w = VPtr p)"

definition keyed :: "(py \<times> py) list \<Rightarrow> (string \<times> py) list" where
  "keyed items = map (\<lambda>(k, v). (key_text k, v)) items"

definition dict_of :: "py \<Rightarrow> CongeladoAny \<Rightarrow> handle_table \<Rightarrow> bool" where
  "dict_of v a t \<longleftrightarrow>
     (\<forall>items. v = PDict items \<longrightarrow>
        (\<exists>h p fs. a = any_of CG_MAP_HANDLE (v_int64 h) \<and> m_handles t h = Some p \<and>
           heap t p = Some (Map_object fs) \<and> mirrors py_stored (keyed items) fs))"

definition py_converts :: "py \<Rightarrow> bool" where
  "py_converts v \<longleftrightarrow>
     (\<forall>t. table_ok t \<longrightarrow> unat (m_next_id t) + dicts v < 2 ^ 63 \<longrightarrow>
        (\<exists>a t' w. from_py v t = Inr (a, t') \<and> table_ok t' \<and> extends t t' \<and>
           unat (m_next_id t') \<le> unat (m_next_id t) + dicts v \<and>
           resolve_value a t' = Inr w \<and> py_stored v w \<and> dict_of v a t'))"

definition items_convert :: "(py \<times> py) list \<Rightarrow> bool" where
  "items_convert items \<longleftrightarrow>
     (\<forall>t h p fs ds. table_ok t \<longrightarrow> unat (m_next_id t) + dicts_in items < 2 ^ 63 \<longrightarrow>
        m_handles t h = Some p \<longrightarrow> heap t p = Some (Map_object fs) \<longrightarrow> mirrors py_stored ds fs \<longrightarrow>
        (\<exists>t' fs'. from_items h items t = Inr t' \<and> table_ok t' \<and> extends_but p t t' \<and>
           unat (m_next_id t') \<le> unat (m_next_id t) + dicts_in items \<and>
           heap t' p = Some (Map_object fs') \<and> mirrors py_stored (ds @ keyed items) fs'))"

lemma items_convertE:
  assumes "items_convert items" "table_ok t" "unat (m_next_id t) + dicts_in items < 2 ^ 63"
    "m_handles t h = Some p" "heap t p = Some (Map_object fs)" "mirrors py_stored ds fs"
  obtains t' fs' where "from_items h items t = Inr t'" "table_ok t'" "extends_but p t t'"
    "unat (m_next_id t') \<le> unat (m_next_id t) + dicts_in items"
    "heap t' p = Some (Map_object fs')" "mirrors py_stored (ds @ keyed items) fs'"
  using assms unfolding items_convert_def by blast

lemma py_convertsE:
  assumes "py_converts v" "table_ok t" "unat (m_next_id t) + dicts v < 2 ^ 63"
  obtains a t' w where "from_py v t = Inr (a, t')" "table_ok t'" "extends t t'"
    "unat (m_next_id t') \<le> unat (m_next_id t) + dicts v" "resolve_value a t' = Inr w" "py_stored v w" "dict_of v a t'"
  using assms unfolding py_converts_def by blast

lemma py_converts_scalar:
  assumes "\<And>items. v \<noteq> PDict items"
  shows "py_converts v"
proof -
  have "\<exists>a w. from_py v t = Inr (a, t) \<and> resolve_value a t = Inr w \<and> py_stored v w" for t
  proof (cases v)
    case (PDict items)
    then show ?thesis using assms by blast
  qed (simp_all add: resolve_value_def from_any_def read_int64_def read_cstr_def read_float64_def read_ptr_def tag_defs)
  then show ?thesis using assms unfolding py_converts_def dict_of_def by (metis extends_refl le_add1)
qed

lemma key_text_c_str: "\<exists>s. key_text k = c_str s"
  by (cases k) (auto intro: exI [of _ "''''"] simp: c_str_def)

lemma items_convert_Cons:
  assumes "py_converts v" "items_convert items"
  shows "items_convert ((k, v) # items)"
  unfolding items_convert_def
proof (intro allI impI)
  fix t h p fs ds
  assume t: "table_ok t" and room: "unat (m_next_id t) + dicts_in ((k, v) # items) < 2 ^ 63"
    and h: "m_handles t h = Some p" and p: "heap t p = Some (Map_object fs)" and m: "mirrors py_stored ds fs"
  obtain s where s: "key_text k = c_str s" using key_text_c_str by blast
  have "unat (m_next_id t) + dicts v < 2 ^ 63" using room by simp
  then obtain a t1 w where a: "from_py v t = Inr (a, t1)" "table_ok t1" "extends t t1"
    "unat (m_next_id t1) \<le> unat (m_next_id t) + dicts v" "resolve_value a t1 = Inr w" "py_stored v w"
    by (rule py_convertsE [OF assms(1) t])
  have h1: "m_handles t1 h = Some p" "heap t1 p = Some (Map_object fs)"
    using a(3) h p by (auto simp: extends_def map_le_def dom_def)
  let ?t2 = "t1\<lparr>heap := (heap t1)(p \<mapsto> Map_object (AList.update (c_str s) w fs))\<rparr>"
  have pre: "unat (m_next_id ?t2) + dicts_in items < 2 ^ 63" "m_handles ?t2 h = Some p"
    "heap ?t2 p = Some (Map_object (AList.update (c_str s) w fs))"
    using room a(4) h1(1) by simp_all
  obtain t' fs' where r: "from_items h items ?t2 = Inr t'" "table_ok t'" "extends_but p ?t2 t'"
    "unat (m_next_id t') \<le> unat (m_next_id ?t2) + dicts_in items"
    "heap t' p = Some (Map_object fs')" "mirrors py_stored ((ds @ [(c_str s, v)]) @ keyed items) fs'"
    by (rule items_convertE [OF assms(2) map_set_update(2) [OF a(2) h1 a(5)] pre mirrors_update [OF m a(6)]])
  show "\<exists>t' fs'. from_items h ((k, v) # items) t = Inr t' \<and> table_ok t' \<and> extends_but p t t' \<and>
      unat (m_next_id t') \<le> unat (m_next_id t) + dicts_in ((k, v) # items) \<and>
      heap t' p = Some (Map_object fs') \<and> mirrors py_stored (ds @ keyed ((k, v) # items)) fs'"
  proof (intro exI conjI)
    show "from_items h ((k, v) # items) t = Inr t'"
      by (simp only: s from_items.simps a(1) bind_ub_simps prod.case map_set_update(1) [OF a(2) h1 a(5)] r(1))
    show "extends_but p t t'" by (rule extends_but_step [OF a(3) p r(3)])
    have "unat (m_next_id t') \<le> unat (m_next_id t1) + dicts_in items" using r(4) by simp
    then show "unat (m_next_id t') \<le> unat (m_next_id t) + dicts_in ((k, v) # items)"
      using a(4) unfolding dicts_in.simps by linarith
    show "mirrors py_stored (ds @ keyed ((k, v) # items)) fs'" using r(6) by (simp add: keyed_def s)
  qed (rule r(2), rule r(5))
qed

lemma py_converts_dict:
  assumes "items_convert items"
  shows "py_converts (PDict items)"
  unfolding py_converts_def
proof (intro allI impI)
  fix t
  assume t: "table_ok t" and room: "unat (m_next_id t) + dicts (PDict items) < 2 ^ 63"
  let ?h = "m_next_id t" and ?p = "Suc (n_objects t)" and ?t = "snd (insert_object (Map_object []) t)"
  note c = created_map [OF t room [unfolded dicts.simps]]
  have "unat (m_next_id ?t) + dicts_in items < 2 ^ 63" using room c(2) by simp
  then obtain t' fs where r: "from_items ?h items ?t = Inr t'" "table_ok t'" "extends_but ?p ?t t'"
    "unat (m_next_id t') \<le> unat (m_next_id ?t) + dicts_in items"
    "heap t' ?p = Some (Map_object fs)" "mirrors py_stored ([] @ keyed items) fs"
    by (rule items_convertE [OF assms c(1) _ c(3,4) mirrors_Nil])
  have h: "m_handles t' ?h = Some ?p" using r(3) c(3) by (auto simp: extends_but_def map_le_def dom_def)
  let ?a = "any_of CG_MAP_HANDLE (v_int64 ?h)"
  have "from_py (PDict items) t = Inr (?a, t')"
    using r(1) by (simp add: map_create_def case_prod_beta read_int64_def) (simp add: insert_object_def Let_def)
  moreover have "resolve_value ?a t' = Inr (VMap ?p)"
    using h r(5) by (simp add: resolve_value_def read_int64_def get_as_map_def)
  moreover have "dict_of (PDict items) ?a t'" using h r(5,6) by (auto simp: dict_of_def)
  moreover have "unat (m_next_id t') \<le> unat (m_next_id t) + dicts (PDict items)" using r(4) c(2) by simp
  ultimately show "\<exists>a t' w. from_py (PDict items) t = Inr (a, t') \<and> table_ok t' \<and> extends t t' \<and>
      unat (m_next_id t') \<le> unat (m_next_id t) + dicts (PDict items) \<and>
      resolve_value a t' = Inr w \<and> py_stored (PDict items) w \<and> dict_of (PDict items) a t'"
    using r(2) extends_created [OF t r(3)] by (intro exI [of _ ?a] exI [of _ t'] exI [of _ "VMap ?p"]) simp
qed

lemma py_converts_all: "py_converts v" "items_convert items"
proof (induction v and items rule: dicts_dicts_in.induct)
  case 3
  then show ?case by (auto simp: items_convert_def extends_but_def keyed_def)
qed (simp_all add: py_converts_dict py_converts_scalar items_convert_Cons)

fun py_of :: "cg_value \<Rightarrow> py" where
  "py_of VNone = PNone"
| "py_of (VInt i) = PInt (sint i)"
| "py_of (VFloat d) = PFloat d"
| "py_of (VBool b) = PBool b"
| "py_of (VStr s) = PStr (c_str s)"
| "py_of (VMap p) = PInt (int p)"
| "py_of (VArray p) = PInt (int p)"
| "py_of (VPtr p) = PInt (int p)"

lemma to_py_value: "to_py (to_any w) t = Inr (py_of w, t)"
  by (cases w) (simp_all add: to_py.simps tag_defs read_int64_def read_cstr_def read_float64_def read_ptr_def)

lemma to_items_run:
  assumes "get_as_map h t = Inr (p, fs)" "get_as_array kh t = Inr (q, map (VStr \<circ> fst) fs)" "length fs < 2 ^ 63"
    "distinct (map fst fs)" "list_all (\<lambda>k. c_str k = k) (map fst fs)"
  shows "i + k = length fs \<Longrightarrow> to_items h kh (of_nat i) k items t =
    Inr (fold (\<lambda>(key, w). AList.update (PStr key) (py_of w)) (drop i fs) items, t)"
proof (induction k arbitrary: i items)
  case (Suc k)
  obtain key w where f: "fs ! i = (key, w)" by (cases "fs ! i")
  have i: "i < length fs" using Suc.prems by simp
  have "c_str (fst (fs ! i)) = fst (fs ! i)" using assms(5) i by (simp add: list_all_length)
  then have "c_str key = key" using f by simp
  moreover have "map_of fs key = Some w"
    by (rule map_of_is_SomeI [OF assms(4)]) (use nth_mem [OF i] f in simp)
  then have "map_get h key t = Inr (to_any w)" using assms(1) by (simp add: map_get_def)
  ultimately have "to_items h kh (of_nat i) (Suc k) items t =
      to_items h kh (of_nat (Suc i)) k (AList.update (PStr key) (py_of w) items) t"
    using array_get_key [OF assms(2) i assms(3)]
    by (simp add: f read_cstr_def to_py_value of_nat_Suc add.commute [of 1])
  also have "\<dots> = Inr (fold (\<lambda>(key, w). AList.update (PStr key) (py_of w)) (drop (Suc i) fs)
      (AList.update (PStr key) (py_of w) items), t)"
    using Suc.IH [of "Suc i"] Suc.prems by simp
  also have "\<dots> = Inr (fold (\<lambda>(key, w). AList.update (PStr key) (py_of w)) (drop i fs) items, t)"
    using Cons_nth_drop_Suc [OF i, symmetric] f by simp
  finally show ?case .
qed simp

lemma fold_set_item:
  "distinct (map fst fs) \<Longrightarrow> map_of (fold (\<lambda>(key, w). AList.update (PStr key) (py_of w)) fs items) (PStr k) =
     (case map_of fs k of None \<Rightarrow> map_of items (PStr k) | Some w \<Rightarrow> Some (py_of w))"
proof (induction fs arbitrary: items)
  case (Cons f fs)
  obtain key w where f: "f = (key, w)" by (cases f)
  let ?E = "AList.update (PStr key) (py_of w) items"
  have d: "distinct (map fst fs)" "key \<notin> fst ` set fs" using Cons.prems by (simp_all add: f)
  have E: "map_of ?E (PStr k) = (if key = k then Some (py_of w) else map_of items (PStr k))"
    by (simp add: update_conv')
  show ?case
  proof (cases "key = k")
    case True
    then have "map_of fs k = None" using d(2) by (simp add: map_of_eq_None_iff)
    then show ?thesis using Cons.IH [OF d(1), of ?E] E True by (simp add: f)
  next
    case False
    then show ?thesis using Cons.IH [OF d(1), of ?E] unfolding E by (simp add: f)
  qed
qed simp

lemma to_py_map:
  assumes t: "table_ok t" and m: "m_handles t h = Some p" "heap t p = Some (Map_object fs)" and fs: "mirrors py_stored ds fs"
    and len: "length fs < 2 ^ 63"
  shows "\<exists>t'. to_py (any_of CG_MAP_HANDLE (v_int64 h)) t =
      Inr (PDict (fold (\<lambda>(key, w). AList.update (PStr key) (py_of w)) fs []), t') \<and> m_handles t' = m_handles t"
proof -
  let ?keys = "Array_object (map (VStr \<circ> fst) fs)" and ?kh = "m_next_id t"
  let ?t = "snd (insert_object ?keys t)"
  have fresh: "m_handles t ?kh = None" "heap t (Suc (n_objects t)) = None" using table_ok_fresh [OF t] by simp_all
  have g: "get_as_map h t = Inr (p, fs)" "get_as_map h ?t = Inr (p, fs)"
    "get_as_array ?kh ?t = Inr (Suc (n_objects t), map (VStr \<circ> fst) fs)"
    using m fresh by (auto simp: get_as_map_def get_as_array_def insert_object_def Let_def)
  have size: "nat (sint (of_nat (length fs) :: 64 word)) = length fs"
    using len by (simp add: signed_of_nat signed_take_bit_int_eq_self)
  have "to_items h ?kh (of_nat 0) (length fs) [] ?t =
      Inr (fold (\<lambda>(key, w). AList.update (PStr key) (py_of w)) (drop 0 fs) [], ?t)"
    using fs by (intro to_items_run [OF g(2,3) len]) (simp_all add: mirrors_def)
  then have "to_py (any_of CG_MAP_HANDLE (v_int64 h)) t =
      Inr (PDict (fold (\<lambda>(key, w). AList.update (PStr key) (py_of w)) fs []), handle_free ?kh ?t)"
    using g(1) size
    by (subst to_py.simps)
      (simp add: tag_defs read_int64_def get_map_size_def get_map_keys_def case_prod_beta, simp add: insert_object_def Let_def)
  then show ?thesis using handle_free_keys [OF t] by blast
qed

text \<open>What is left of an object after it crossed twice inside a dictionary.\<close>

fun py_carried :: "py \<Rightarrow> py \<Rightarrow> bool" where
  "py_carried (PBool b) l = (l = PInt (if b then 1 else 0))"
| "py_carried (PInt i) l = (l = PInt (if - (2 ^ 63) \<le> i \<and> i < 2 ^ 63 then i else -1))"
| "py_carried (PStr s) l = (l = PStr (c_str s))"
| "py_carried (PDict items) l = (\<exists>p. l = PInt (int p) \<and> p \<noteq> 0)"
| "py_carried (PObject p) l = (l = PInt (int p))"
| "py_carried v l = (l = v)"

lemma sint_as_long_long: "sint (as_long_long i) = (if - (2 ^ 63) \<le> i \<and> i < 2 ^ 63 then i else -1)"
  by (simp add: as_long_long_def signed_of_int signed_take_bit_int_eq_self)

lemma py_stored_carried: "py_stored v w \<Longrightarrow> py_carried v (py_of w)"
  by (cases v) (auto simp: sint_as_long_long)

text \<open>
  C36: a Python dictionary that goes to the host and back keeps its keys and their scalars. Both
  conversions succeed, a key is there afterwards exactly if it was there before, with the value of
  its last item, where every key that is no text counts as the empty text; None, floats, texts up
  to their first null byte and integers of 64 bits come back as they were, a larger integer as -1, a
  boolean as 0 or 1 and a nested dictionary as the number of an address. The way back leaves no
  handle behind.
\<close>

theorem py_dict_crosses:
  assumes "table_ok t" "unat (m_next_id t) + dicts (PDict items) < 2 ^ 63" "length items < 2 ^ 63"
  shows "\<exists>a t1 items' t2. from_py (PDict items) t = Inr (a, t1) \<and> to_py a t1 = Inr (PDict items', t2) \<and>
    m_handles t2 = m_handles t1 \<and>
    (\<forall>k. rel_option py_carried (map_of (rev (keyed items)) k) (map_of items' (PStr k)))"
proof -
  obtain a t1 where a: "from_py (PDict items) t = Inr (a, t1)" "table_ok t1" "dict_of (PDict items) a t1"
    by (rule py_convertsE [OF py_converts_all(1) assms(1,2)]) blast
  from a(3) obtain h p fs where h: "a = any_of CG_MAP_HANDLE (v_int64 h)" "m_handles t1 h = Some p"
    "heap t1 p = Some (Map_object fs)" and fs: "mirrors py_stored (keyed items) fs"
    by (auto simp: dict_of_def)
  have "length fs < 2 ^ 63" using mirrors_length [OF fs] assms(3) by (simp add: keyed_def)
  from to_py_map [OF a(2) h(2,3) fs this] obtain t2 where
    t2: "to_py a t1 = Inr (PDict (fold (\<lambda>(key, w). AList.update (PStr key) (py_of w)) fs []), t2)" "m_handles t2 = m_handles t1"
    using h(1) by blast
  have "rel_option py_carried (map_of (rev (keyed items)) k)
      (map_of (fold (\<lambda>(key, w). AList.update (PStr key) (py_of w)) fs []) (PStr k))" for k
  proof -
    have r: "rel_option py_stored (map_of (rev (keyed items)) k) (map_of fs k)" and d: "distinct (map fst fs)"
      using fs by (simp_all add: mirrors_def)
    from r show ?thesis
      using py_stored_carried by (cases "map_of (rev (keyed items)) k"; cases "map_of fs k") (auto simp: fold_set_item [OF d])
  qed
  then show ?thesis using a(1) t2 by blast
qed

theorem py_dict_crosses_witness:
  "\<exists>a t1 items t2. from_py (PDict [(PStr ''n'', PInt 7), (PInt 1, PNone)]) init_table = Inr (a, t1) \<and>
     to_py a t1 = Inr (PDict items, t2) \<and> map_of items (PStr ''n'') = Some (PInt 7)"
proof -
  let ?is = "[(PStr ''n'', PInt 7), (PInt 1, PNone)]"
  obtain a t1 items t2 where r: "from_py (PDict ?is) init_table = Inr (a, t1)" "to_py a t1 = Inr (PDict items, t2)"
    "\<forall>k. rel_option py_carried (map_of (rev (keyed ?is)) k) (map_of items (PStr k))"
    using py_dict_crosses [OF table_ok_init, of ?is] by (auto simp: init_table_def)
  from spec [OF r(3), of "''n''"] have "rel_option py_carried (Some (PInt 7)) (map_of items (PStr ''n''))"
    by (simp add: keyed_def c_str_def)
  then have "map_of items (PStr ''n'') = Some (PInt 7)" by (cases "map_of items (PStr ''n'')") simp_all
  then show ?thesis using r by blast
qed

text \<open>Dictionaries with several keys that are no texts keep one of their values.\<close>

lemma non_text_keys_collapse: "keyed [(PInt 1, v), (PInt 2, w)] = [('''', v), ('''', w)]"
  by (simp add: keyed_def)

lemma large_int_is_minus_one: "from_py (PInt (2 ^ 63)) t = Inr (any_of CG_INT (v_int64 (-1)), t)"
  by (simp add: as_long_long_def)

end
