(* ===== verification/WorkerManager.thy ===== *)
theory WorkerManager
  imports Abi
begin

text \<open>
  The external worker manager: \<open>WorkerContext\<close> of plugins/manager/worker_external/src/context.cppm
  and \<open>ExternalWorkerManager\<close> of plugins/manager/worker_external/bin/external_worker_manager.cc.
  The engine at the other end of the connection, the workers and the JSON codec are parameters:
  \<open>engine\<close> answers a call with a status and a body or with the text of an exception, \<open>execute\<close>
  is a worker's own code, \<open>parse_task\<close> and \<open>encode_submit\<close> are the codec of the task instance
  and of the submitted result.
\<close>

section \<open>The worker registry\<close>

type_synonym worker_output = "(string \<times> string) list"

datatype outcome = Returned "string + worker_output" | Threw_exception string | Threw_other

record 'w worker_context =
  m_worker_id :: string
  m_workers :: "(string \<times> 'w) list"

definition init_context :: "'w worker_context" where
  "init_context = \<lparr>m_worker_id = '''', m_workers = []\<rparr>"

definition set_worker_id :: "string \<Rightarrow> 'w worker_context \<Rightarrow> 'w worker_context" where
  "set_worker_id i c = c\<lparr>m_worker_id := i\<rparr>"

definition add_worker :: "('w \<Rightarrow> string) \<Rightarrow> 'w \<Rightarrow> 'w worker_context \<Rightarrow> 'w worker_context" where
  "add_worker task_type w c = c\<lparr>m_workers := AList.update (task_type w) w (m_workers c)\<rparr>"

definition get_task_worker :: "string \<Rightarrow> 'w worker_context \<Rightarrow> 'w option" where
  "get_task_worker t c = map_of (m_workers c) t"

definition get_task_types :: "'w worker_context \<Rightarrow> string list" where
  "get_task_types c = map fst (m_workers c)"

text \<open>The hooks that a run calls on its worker, in order, and the result.\<close>

datatype hook = On_error string | On_released

definition run_task ::
  "('w \<Rightarrow> 'i \<Rightarrow> outcome) \<Rightarrow> string \<Rightarrow> 'i \<Rightarrow> 'w worker_context \<Rightarrow> (string + worker_output) \<times> hook list" where
  "run_task execute t input c =
     (case get_task_worker t c of
        None \<Rightarrow> (Inl ''unregistered worker type'', [])
      | Some w \<Rightarrow>
          (case execute w input of
             Returned r \<Rightarrow> (r, [On_released])
           | Threw_exception msg \<Rightarrow> (Inl msg, [On_error msg, On_released])
           | Threw_other \<Rightarrow> (Inl ''unknown error'', [On_error ''unknown error'', On_released])))"

text \<open>
  \<open>run_task_async\<close>: the completion is wrapped in \<open>finish\<close>, which a worker may call any number of
  times, at any time, and which acts on its first call only; an exception of \<open>execute_async\<close>
  finishes the run unless it is finished.
\<close>

record async_run =
  finished :: bool
  hooks :: "hook list"
  delivered :: "(string + worker_output) list"

definition init_run :: async_run where
  "init_run = \<lparr>finished = False, hooks = [], delivered = []\<rparr>"

definition finish :: "string + worker_output \<Rightarrow> async_run \<Rightarrow> async_run" where
  "finish r a =
     (if finished a then a
      else a\<lparr>finished := True, hooks := hooks a @ [On_released], delivered := delivered a @ [r]\<rparr>)"

definition async_throws :: "string \<Rightarrow> async_run \<Rightarrow> async_run" where
  "async_throws msg a = finish (Inl msg) (a\<lparr>hooks := hooks a @ [On_error msg]\<rparr>)"

datatype async_event = Finishes "string + worker_output" | Throws string

fun async_step :: "async_event \<Rightarrow> async_run \<Rightarrow> async_run" where
  "async_step (Finishes r) a = finish r a"
| "async_step (Throws msg) a = async_throws msg a"

section \<open>The manager\<close>

record worker_info =
  wi_id :: string
  wi_type :: string
  wi_alive :: bool

type_synonym 'e engine = "'e \<Rightarrow> string \<Rightarrow> string \<Rightarrow> string \<Rightarrow> 'e \<times> (string + (int \<times> string))"

definition log_error :: effects where
  "log_error = [Log ERROR ''worker_manager.external'']"

definition submit_result ::
  "'e engine \<Rightarrow> (bool \<Rightarrow> worker_output \<Rightarrow> string) \<Rightarrow> string \<Rightarrow> bool \<Rightarrow> worker_output \<Rightarrow> 'e \<Rightarrow> 'e \<times> effects" where
  "submit_result engine encode_submit task_id success out e =
     (case engine e ''POST'' (''/api/v1/tasks/'' @ task_id @ ''/result'') (encode_submit success out) of
        (e', Inl _) \<Rightarrow> (e', log_error)
      | (e', Inr _) \<Rightarrow> (e', []))"

text \<open>One poll of the queue of a task type: the task, if there is one.\<close>

definition poll_queue ::
  "'e engine \<Rightarrow> (string \<Rightarrow> string + (string \<times> 'i)) \<Rightarrow> string \<Rightarrow> 'e \<Rightarrow> 'e \<times> (string \<times> 'i) option \<times> effects" where
  "poll_queue engine parse_task t e =
     (case engine e ''GET'' (''/api/v1/tasks/queue/'' @ t) '''' of
        (e', Inl _) \<Rightarrow> (e', None, log_error)
      | (e', Inr (status, body)) \<Rightarrow>
          if status = 204 then (e', None, [])
          else if status \<noteq> 200 then (e', None, log_error)
          else (case parse_task body of Inl _ \<Rightarrow> (e', None, log_error) | Inr task \<Rightarrow> (e', Some task, [])))"

definition result_output :: "string + worker_output \<Rightarrow> worker_output" where
  "result_output r = (case r of Inl msg \<Rightarrow> [(''error'', msg)] | Inr out \<Rightarrow> out)"

definition is_success :: "string + worker_output \<Rightarrow> bool" where
  "is_success r = (case r of Inl _ \<Rightarrow> False | Inr _ \<Rightarrow> True)"

fun poll_types ::
  "'e engine \<Rightarrow> (string \<Rightarrow> string + (string \<times> 'i)) \<Rightarrow> (bool \<Rightarrow> worker_output \<Rightarrow> string) \<Rightarrow> ('w \<Rightarrow> 'i \<Rightarrow> outcome) \<Rightarrow>
   'w worker_context \<Rightarrow> string list \<Rightarrow> 'e \<Rightarrow> 'e \<times> effects" where
  "poll_types engine parse_task encode_submit execute c [] e = (e, [])"
| "poll_types engine parse_task encode_submit execute c (t # ts) e =
     (case poll_queue engine parse_task t e of
        (e1, None, es) \<Rightarrow>
          (let (e', es') = poll_types engine parse_task encode_submit execute c ts e1 in (e', es @ es'))
      | (e1, Some (task_id, input), es) \<Rightarrow>
          (let r = fst (run_task execute t input c);
               (e2, es2) = submit_result engine encode_submit task_id (is_success r) (result_output r) e1;
               (e', es') = poll_types engine parse_task encode_submit execute c ts e2
           in (e', es @ es2 @ es')))"

definition poll_once ::
  "'e engine \<Rightarrow> (string \<Rightarrow> string + (string \<times> 'i)) \<Rightarrow> (bool \<Rightarrow> worker_output \<Rightarrow> string) \<Rightarrow> ('w \<Rightarrow> 'i \<Rightarrow> outcome) \<Rightarrow>
   'w worker_context \<Rightarrow> 'e \<Rightarrow> 'e \<times> effects" where
  "poll_once engine parse_task encode_submit execute c e =
     poll_types engine parse_task encode_submit execute c (get_task_types c) e"

definition list_workers :: "'w worker_context \<Rightarrow> worker_info list" where
  "list_workers c = map (\<lambda>t. \<lparr>wi_id = t, wi_type = t, wi_alive = True\<rparr>) (get_task_types c)"

definition status :: "string \<Rightarrow> 'w worker_context \<Rightarrow> worker_info option" where
  "status worker_id c =
     (case get_task_worker worker_id c of
        None \<Rightarrow> None
      | Some _ \<Rightarrow> Some \<lparr>wi_id = worker_id, wi_type = worker_id, wi_alive = True\<rparr>)"

fun register_defs :: "'e engine \<Rightarrow> string \<Rightarrow> string list \<Rightarrow> 'e \<Rightarrow> 'e \<times> effects" where
  "register_defs engine path [] e = (e, [])"
| "register_defs engine path (d # ds) e =
     (let (e1, es) =
            (case engine e ''POST'' path d of
               (e1, Inl _) \<Rightarrow> (e1, log_error)
             | (e1, Inr (st, body)) \<Rightarrow>
                 (e1, if st < 200 \<or> st \<ge> 300 then log_error else [Log INFO ''worker_manager.external'']));
          (e', es') = register_defs engine path ds e1
      in (e', es @ es'))"

definition register_task_defs :: "'e engine \<Rightarrow> string list \<Rightarrow> 'e \<Rightarrow> 'e \<times> effects" where
  "register_task_defs engine ds e = register_defs engine ''/api/v1/tasks'' ds e"

definition register_workflow_defs :: "'e engine \<Rightarrow> string list \<Rightarrow> 'e \<Rightarrow> 'e \<times> effects" where
  "register_workflow_defs engine ds e = register_defs engine ''/api/v1/workflows'' ds e"

text \<open>The life cycle of workers is not managed here.\<close>

definition spawn :: "'spec \<Rightarrow> string option" where "spawn spec = None"
definition start :: "string \<Rightarrow> bool" where "start worker_id = True"
definition stop :: "string \<Rightarrow> bool" where "stop worker_id = True"
definition restart :: "string \<Rightarrow> bool" where "restart worker_id = True"

section \<open>The inbound server\<close>

record worker_config =
  cfg_worker_id :: string
  cfg_bind_host :: string
  cfg_bind_port :: "32 word"
  cfg_cert :: string
  cfg_key :: string

record server =
  sv_fields :: "(string \<times> string) list"
  sv_host :: string
  sv_port :: "16 word"
  sv_listening :: bool

text \<open>
  \<open>start_server\<close>: \<open>wired\<close> says whether the host passed a contract group and a leverager, \<open>cfg\<close>
  is the worker's configuration file or the error, and \<open>binds\<close> whether the socket can be bound.
\<close>

definition start_server ::
  "bool \<Rightarrow> (string + worker_config) \<Rightarrow> (string \<Rightarrow> 16 word \<Rightarrow> bool) \<Rightarrow> 'w worker_context \<Rightarrow>
   ('w worker_context \<times> server option) \<times> effects" where
  "start_server wired cfg binds c =
     (if \<not> wired then ((c, None), log_error)
      else
        let (c', host, port, cert, key, es) =
              (case cfg of
                 Inl _ \<Rightarrow> (c, ''0.0.0.0'', 9091 :: 32 word, ''server.crt'', ''server.key'', log_error)
               | Inr w \<Rightarrow>
                   (set_worker_id (cfg_worker_id w) c, cfg_bind_host w, cfg_bind_port w,
                    if cfg_cert w = '''' then ''server.crt'' else cfg_cert w,
                    if cfg_key w = '''' then ''server.key'' else cfg_key w, []));
            up = binds host (ucast port)
        in ((c', Some \<lparr>sv_fields = [(''host'', host), (''port'', show_nat (unat port)), (''cert'', cert), (''key'', key)],
                sv_host = host, sv_port = ucast port, sv_listening = up\<rparr>),
            es @ (if up then [Log IMPORTANT ''worker_manager.external''] else log_error)))"

definition manager_on_load :: "config \<Rightarrow> string" where
  "manager_on_load cfg = (case config_get cfg ''config_path'' of None \<Rightarrow> ''worker.toml'' | Some v \<Rightarrow> v)"

definition manager_class :: "string plugin_class" where
  "manager_class = default_plugin
     \<lparr>c_name := (\<lambda>_. ''worker_manager_external''), c_version := (\<lambda>_. ''1.0.0''),
      c_unique_type := (\<lambda>_. ''worker_manager''), c_capabilities := (\<lambda>_. cap_bit RUN_WORKER_MANAGER),
      c_on_load := (\<lambda>cfg _. (manager_on_load cfg, False)),
      c_get := (\<lambda>t _. if t = RUN_WORKER_MANAGER then 1 else 0)\<rparr>"

interpretation manager_caps: advertised manager_class
  by unfold_locales (rename_tac t p, case_tac t; simp add: manager_class_def)

section \<open>Completions and answers\<close>

definition event_result :: "async_event \<Rightarrow> string + worker_output" where
  "event_result ev = (case ev of Finishes r \<Rightarrow> r | Throws msg \<Rightarrow> Inl msg)"

lemma async_finished_stays:
  "finished a \<Longrightarrow> finished (fold async_step evs a) \<and> delivered (fold async_step evs a) = delivered a \<and>
   filter (\<lambda>h. h = On_released) (hooks (fold async_step evs a)) = filter (\<lambda>h. h = On_released) (hooks a)"
proof (induction evs arbitrary: a)
  case (Cons ev evs)
  then show ?case by (cases ev) (simp_all add: finish_def async_throws_def)
qed simp

text \<open>
  The completion fires exactly once, with the first outcome, and the worker is released exactly
  once, however often the worker finishes and whether or not it throws as well.
\<close>

lemma async_delivers_once:
  "delivered (fold async_step (ev # evs) init_run) = [event_result ev]"
  "filter (\<lambda>h. h = On_released) (hooks (fold async_step (ev # evs) init_run)) = [On_released]"
  using async_finished_stays [of "async_step ev init_run" evs]
  by (cases ev; simp add: finish_def async_throws_def init_run_def event_result_def)+

lemma run_task_released:
  "get_task_worker t c = Some w \<Longrightarrow> last (snd (run_task execute t input c)) = On_released"
  by (simp add: run_task_def split: outcome.split)

lemma status_lists: "status i c = Some info \<longleftrightarrow> info \<in> set (list_workers c) \<and> wi_id info = i"
proof -
  have "get_task_worker i c = None \<longleftrightarrow> i \<notin> set (get_task_types c)"
    by (simp add: get_task_worker_def get_task_types_def map_of_eq_None_iff)
  then show ?thesis by (auto simp: status_def list_workers_def split: option.splits)
qed

text \<open>The endpoint of the inbound server keeps the low 16 bits of the configured port.\<close>

lemma server_port_truncated:
  "sv_port (the (snd (fst (start_server True
      (Inr \<lparr>cfg_worker_id = '''', cfg_bind_host = ''h'', cfg_bind_port = 65616, cfg_cert = '''', cfg_key = ''''\<rparr>)
      (\<lambda>_ _. True) c)))) = 80"
  by (simp add: start_server_def)

end
