(* ===== verification/TaskQueue.thy ===== *)
theory TaskQueue
  imports WorkerManager
begin

text \<open>
  The queue of a worker, include/shared/task_queue.cppm, with \<open>execute_async\<close> and the default
  \<open>run\<close> of \<open>IWorker\<close> in include/interfaces/worker.cppm. Jobs are pushed from any thread and run
  one at a time on the contract of the queue; \<open>push\<close> and \<open>on_execute\<close> are split at their critical
  sections, and the runs are all interleavings of them with the wake-ups.
\<close>

section \<open>The queue\<close>

record 'j task_queue =
  m_jobs :: "'j list"
  m_running :: bool

definition init_queue :: "'j task_queue" where
  "init_queue = \<lparr>m_jobs = [], m_running = False\<rparr>"

text \<open>The critical section of \<open>push\<close>; the flag says whether the contract has to be woken.\<close>

definition push_job :: "'j \<Rightarrow> 'j task_queue \<Rightarrow> 'j task_queue \<times> bool" where
  "push_job j q = (q\<lparr>m_jobs := m_jobs q @ [j]\<rparr>, \<not> m_running q)"

text \<open>The critical section of \<open>on_execute\<close>: the oldest job, or None to park.\<close>

definition pop_job :: "'j task_queue \<Rightarrow> 'j option \<times> 'j task_queue" where
  "pop_job q =
     (case m_jobs q of
        [] \<Rightarrow> (None, q\<lparr>m_running := False\<rparr>)
      | j # js \<Rightarrow> (Some j, q\<lparr>m_jobs := js, m_running := True\<rparr>))"

section \<open>Runs of the queue\<close>

text \<open>
  \<open>tq_sched\<close> says that the contract is scheduled, \<open>tq_wakes\<close> counts the wake-ups on their way,
  \<open>tq_job\<close> is the job that the contract runs. The histories are the pushed and the started jobs;
  \<open>tq_clash\<close> counts calls of \<open>schedule\<close> on a scheduled contract.
\<close>

record 'j queue_sys =
  tq_queue :: "'j task_queue"
  tq_job :: "'j option"
  tq_sched :: bool
  tq_wakes :: nat
  tq_pushed :: "'j list"
  tq_started :: "'j list"
  tq_clash :: nat

definition init_queue_sys :: "'j queue_sys" where
  "init_queue_sys = \<lparr>tq_queue = init_queue, tq_job = None, tq_sched = False, tq_wakes = 0, tq_pushed = [],
     tq_started = [], tq_clash = 0\<rparr>"

definition schedule_queue :: "'j queue_sys \<Rightarrow> 'j queue_sys" where
  "schedule_queue s = (if tq_sched s then s\<lparr>tq_clash := Suc (tq_clash s)\<rparr> else s\<lparr>tq_sched := True\<rparr>)"

definition push_step :: "'j \<Rightarrow> 'j queue_sys \<Rightarrow> 'j queue_sys" where
  "push_step j s =
     (let (q, need_wake) = push_job j (tq_queue s)
      in s\<lparr>tq_queue := q, tq_pushed := tq_pushed s @ [j], tq_wakes := tq_wakes s + (if need_wake then 1 else 0)\<rparr>)"

definition execute_step :: "'j queue_sys \<Rightarrow> 'j queue_sys" where
  "execute_step s =
     (case pop_job (tq_queue s) of
        (None, q) \<Rightarrow> s\<lparr>tq_queue := q, tq_sched := False\<rparr>
      | (Some j, q) \<Rightarrow> s\<lparr>tq_queue := q, tq_sched := False, tq_job := Some j, tq_started := tq_started s @ [j]\<rparr>)"

text \<open>A job that returns and a job that throws end alike: the exception is dropped.\<close>

inductive queue_step :: "'j queue_sys \<Rightarrow> 'j queue_sys \<Rightarrow> bool" where
  push: "queue_step s (push_step j s)"
| wake: "tq_wakes s > 0 \<Longrightarrow> queue_step s (schedule_queue (s\<lparr>tq_wakes := tq_wakes s - 1\<rparr>))"
| execute: "tq_sched s \<Longrightarrow> tq_job s = None \<Longrightarrow> queue_step s (execute_step s)"
| job_ends: "tq_job s = Some j \<Longrightarrow> queue_step s (schedule_queue (s\<lparr>tq_job := None\<rparr>))"

inductive_cases queue_stepE: "queue_step s s'"

inductive queue_reach :: "'j queue_sys \<Rightarrow> bool" where
  start: "queue_reach init_queue_sys"
| step: "queue_reach s \<Longrightarrow> queue_step s s' \<Longrightarrow> queue_reach s'"

definition queue_inv :: "'j queue_sys \<Rightarrow> bool" where
  "queue_inv s \<longleftrightarrow>
     tq_pushed s = tq_started s @ m_jobs (tq_queue s) \<and>
     (m_running (tq_queue s) \<longrightarrow> tq_job s \<noteq> None \<or> tq_sched s) \<and>
     (m_jobs (tq_queue s) \<noteq> [] \<longrightarrow> tq_job s \<noteq> None \<or> tq_sched s \<or> tq_wakes s > 0)"

lemma queue_inv_step: "queue_step s s' \<Longrightarrow> queue_inv s \<Longrightarrow> queue_inv s'"
  by (erule queue_stepE)
    (auto simp: queue_inv_def push_step_def push_job_def schedule_queue_def execute_step_def pop_job_def split: list.splits)

lemma queue_inv_reach: "queue_reach s \<Longrightarrow> queue_inv s"
  by (induction rule: queue_reach.induct) (simp add: queue_inv_def init_queue_sys_def init_queue_def, rule queue_inv_step)

text \<open>
  C31: a worker's queue runs every job, in the order of the pushes. Whatever the interleaving of
  pushes, wake-ups and the contract, the started jobs are exactly the first ones that were pushed,
  and as long as a job waits, the contract runs a job, is scheduled or is about to be woken.
\<close>

theorem queued_jobs_run_in_order:
  assumes "queue_reach s"
  shows "tq_pushed s = tq_started s @ m_jobs (tq_queue s) \<and>
    (m_jobs (tq_queue s) = [] \<or> tq_job s \<noteq> None \<or> tq_sched s \<or> tq_wakes s > 0)"
  using queue_inv_reach [OF assms] by (auto simp: queue_inv_def)

theorem queued_jobs_run_in_order_witness:
  "tq_pushed (push_step ''a'' init_queue_sys) = [''a''] \<and> tq_wakes (push_step ''a'' init_queue_sys) > 0"
  using queued_jobs_run_in_order [OF queue_reach.step [OF queue_reach.start queue_step.push [of _ "''a''"]]]
  by (simp add: push_step_def push_job_def init_queue_sys_def init_queue_def)

text \<open>
  A second push before the contract has run wakes it again, and the wake-up finds it scheduled,
  which \<open>ContractGroup::schedule\<close> reports as fatal.
\<close>

lemma second_push_schedules_twice: "\<exists>s :: nat queue_sys. queue_reach s \<and> tq_clash s = 1"
proof -
  have "queue_reach (push_step 2 (push_step 1 (init_queue_sys :: nat queue_sys)))" (is "queue_reach ?s")
    by (rule queue_reach.step [OF queue_reach.step [OF queue_reach.start queue_step.push] queue_step.push])
  moreover have w: "tq_wakes ?s = 2" "\<not> tq_sched ?s" "tq_clash ?s = 0"
    by (simp_all add: push_step_def push_job_def init_queue_sys_def init_queue_def)
  ultimately have "queue_reach (schedule_queue (?s\<lparr>tq_wakes := 1\<rparr>))" (is "queue_reach ?s1")
    using queue_reach.step [OF _ queue_step.wake [of ?s]] by simp
  then have "queue_reach (schedule_queue (?s1\<lparr>tq_wakes := 0\<rparr>))"
    using queue_reach.step [OF _ queue_step.wake [of ?s1]] w by (simp add: schedule_queue_def)
  then show ?thesis using w by (force simp: schedule_queue_def)
qed

section \<open>Synchronous and asynchronous runs\<close>

text \<open>
  What the completion gets from a worker that only overrides \<open>execute\<close>: the default \<open>run\<close> passes
  the result on; an exception leaves the job, where it is dropped.
\<close>

definition default_run :: "outcome \<Rightarrow> async_event list" where
  "default_run oc = (case oc of Returned r \<Rightarrow> [Finishes r] | _ \<Rightarrow> [])"

text \<open>\<open>run_task_async\<close> on such a worker, once its job has run: the completions and the hooks.\<close>

definition run_task_async ::
  "('w \<Rightarrow> 'i \<Rightarrow> outcome) \<Rightarrow> string \<Rightarrow> 'i \<Rightarrow> 'w worker_context \<Rightarrow> (string + worker_output) list \<times> hook list" where
  "run_task_async execute t input c =
     (case get_task_worker t c of
        None \<Rightarrow> ([Inl ''unregistered worker type''], [])
      | Some w \<Rightarrow> (let a = fold async_step (default_run (execute w input)) init_run in (delivered a, hooks a)))"

definition task_throws :: "('w \<Rightarrow> 'i \<Rightarrow> outcome) \<Rightarrow> string \<Rightarrow> 'i \<Rightarrow> 'w worker_context \<Rightarrow> bool" where
  "task_throws execute t input c \<longleftrightarrow>
     (case get_task_worker t c of None \<Rightarrow> False | Some w \<Rightarrow> \<not> (\<exists>r. execute w input = Returned r))"


end
