(* ===== verification/PollSlots.thy ===== *)
theory PollSlots
  imports WorkerManager
begin

text \<open>
  The polling slots of \<open>ExternalWorkerManager\<close> (\<open>PollSlot\<close>, \<open>register_poll_slot\<close> and \<open>poll_slot\<close> of
  plugins/manager/worker_external/bin/external_worker_manager.cc). A task that a slot polled may
  complete on another thread at any time after it was handed to its worker, so \<open>poll_slot\<close> is
  split at its critical sections, and the runs of a slot are all their interleavings with the
  completion and with the wake-up that the completion may send.
\<close>

section \<open>Slots\<close>

datatype SlotPhase = POLLING | AWAITING | RESUMING

record poll_slot =
  m_has_wake :: bool
  m_phase :: SlotPhase
  m_on_stack :: bool
  m_success :: bool
  m_task_id :: string
  m_output :: worker_output

definition init_slot :: poll_slot where
  "init_slot = \<lparr>m_has_wake = False, m_phase = POLLING, m_on_stack = False, m_success = False,
     m_task_id = '''', m_output = []\<rparr>"

definition register_poll_slot :: "nat \<Rightarrow> poll_slot list \<Rightarrow> poll_slot list" where
  "register_poll_slot i slots =
     (let slots = (if i \<ge> length slots then slots @ replicate (i + 1 - length slots) init_slot else slots)
      in slots[i := (slots ! i)\<lparr>m_has_wake := True\<rparr>])"

text \<open>\<open>poll_slot\<close> indexes the slots unchecked.\<close>

definition slot_at :: "nat \<Rightarrow> poll_slot list \<Rightarrow> poll_slot may_ub" where
  "slot_at i slots = (if i < length slots then Inr (slots ! i) else Inl Out_of_bounds)"

text \<open>The first critical section: the landed result, if there is one.\<close>

definition take_resumed :: "poll_slot \<Rightarrow> (string \<times> bool \<times> worker_output) option \<times> poll_slot" where
  "take_resumed s =
     (if m_phase s = RESUMING
      then (Some (m_task_id s, m_success s, m_output s), s\<lparr>m_output := [], m_phase := POLLING\<rparr>)
      else (None, s))"

text \<open>The second: the slot before its task is handed to the worker.\<close>

definition dispatch_task :: "string \<Rightarrow> poll_slot \<Rightarrow> poll_slot" where
  "dispatch_task task_id s = s\<lparr>m_phase := AWAITING, m_task_id := task_id, m_on_stack := True\<rparr>"

text \<open>The completion; the flag says whether it has to wake the contract.\<close>

definition complete_task :: "string + worker_output \<Rightarrow> poll_slot \<Rightarrow> poll_slot \<times> bool" where
  "complete_task r s =
     (s\<lparr>m_success := is_success r, m_output := result_output r, m_phase := RESUMING\<rparr>, \<not> m_on_stack s)"

text \<open>The third: the slot after the call to the worker returned.\<close>

definition take_inline :: "poll_slot \<Rightarrow> (bool \<times> worker_output) option \<times> poll_slot" where
  "take_inline s =
     (let s = s\<lparr>m_on_stack := False\<rparr>
      in if m_phase s = RESUMING
         then (Some (m_success s, m_output s), s\<lparr>m_output := [], m_phase := POLLING\<rparr>)
         else (None, s))"

section \<open>Runs of a slot\<close>

text \<open>
  Where the contract of the slot is: at rest, before polling the given task types, or in the call
  to the worker with the given task.
\<close>

datatype poll_pc = Rest | Scan "string list" | Called string "string list"

text \<open>
  The slot with its contract: \<open>sy_sched\<close> says that the contract is scheduled, \<open>sy_wake\<close> that a
  wake-up is on its way, \<open>sy_running\<close> is the task that its worker has not completed. The
  histories are the polled tasks, the completions and the submissions; \<open>sy_clash\<close> counts calls
  of \<open>schedule\<close> on a scheduled contract.
\<close>

record slot_sys =
  sy_slot :: poll_slot
  sy_pc :: poll_pc
  sy_sched :: bool
  sy_wake :: bool
  sy_running :: "string option"
  sy_polled :: "string list"
  sy_completed :: "(string \<times> bool \<times> worker_output) list"
  sy_submitted :: "(string \<times> bool \<times> worker_output) list"
  sy_clash :: nat

definition init_sys :: slot_sys where
  "init_sys = \<lparr>sy_slot = init_slot\<lparr>m_has_wake := True\<rparr>, sy_pc = Rest, sy_sched = True, sy_wake = False,
     sy_running = None, sy_polled = [], sy_completed = [], sy_submitted = [], sy_clash = 0\<rparr>"

definition shedule :: "slot_sys \<Rightarrow> slot_sys" where
  "shedule s = (if sy_sched s then s\<lparr>sy_clash := Suc (sy_clash s)\<rparr> else s\<lparr>sy_sched := True\<rparr>)"

text \<open>The contract runs \<open>poll_slot\<close> up to its loop over the task types.\<close>

definition begin_poll :: "string list \<Rightarrow> slot_sys \<Rightarrow> slot_sys" where
  "begin_poll types s =
     (let s = s\<lparr>sy_sched := False\<rparr>
      in case take_resumed (sy_slot s) of
           (Some r, slot) \<Rightarrow> shedule (s\<lparr>sy_slot := slot, sy_submitted := sy_submitted s @ [r]\<rparr>)
         | (None, slot) \<Rightarrow> s\<lparr>sy_slot := slot, sy_pc := Scan types\<rparr>)"

text \<open>A poll gave a task, and the slot hands it to the worker.\<close>

definition hand_over :: "string \<Rightarrow> string list \<Rightarrow> slot_sys \<Rightarrow> slot_sys" where
  "hand_over task_id types s =
     s\<lparr>sy_slot := dispatch_task task_id (sy_slot s), sy_pc := Called task_id types,
       sy_running := Some task_id, sy_polled := sy_polled s @ [task_id]\<rparr>"

definition completes :: "string \<Rightarrow> string + worker_output \<Rightarrow> slot_sys \<Rightarrow> slot_sys" where
  "completes task_id r s =
     (let (slot, need_wake) = complete_task r (sy_slot s)
      in s\<lparr>sy_slot := slot, sy_running := None, sy_wake := sy_wake s \<or> need_wake,
           sy_completed := sy_completed s @ [(task_id, is_success r, result_output r)]\<rparr>)"

text \<open>The call to the worker returns; a slot whose task is not done parks.\<close>

definition call_returns :: "string \<Rightarrow> string list \<Rightarrow> slot_sys \<Rightarrow> slot_sys" where
  "call_returns task_id types s =
     (case take_inline (sy_slot s) of
        (Some r, slot) \<Rightarrow>
          s\<lparr>sy_slot := slot, sy_pc := Scan types, sy_submitted := sy_submitted s @ [(task_id, r)]\<rparr>
      | (None, slot) \<Rightarrow> s\<lparr>sy_slot := slot, sy_pc := Rest\<rparr>)"

inductive slot_step :: "slot_sys \<Rightarrow> slot_sys \<Rightarrow> bool" where
  run_contract: "sy_pc s = Rest \<Longrightarrow> sy_sched s \<Longrightarrow> slot_step s (begin_poll types s)"
| poll_nothing: "sy_pc s = Scan (t # ts) \<Longrightarrow> slot_step s (s\<lparr>sy_pc := Scan ts\<rparr>)"
| poll_task: "sy_pc s = Scan (t # ts) \<Longrightarrow> slot_step s (hand_over task_id ts s)"
| complete: "sy_running s = Some task_id \<Longrightarrow> slot_step s (completes task_id r s)"
| send_wake: "sy_wake s \<Longrightarrow> slot_step s (shedule (s\<lparr>sy_wake := False\<rparr>))"
| return: "sy_pc s = Called task_id ts \<Longrightarrow> slot_step s (call_returns task_id ts s)"
| end_of_types: "sy_pc s = Scan [] \<Longrightarrow> slot_step s (shedule (s\<lparr>sy_pc := Rest\<rparr>))"

inductive slot_reach :: "slot_sys \<Rightarrow> bool" where
  start: "slot_reach init_sys"
| step: "slot_reach s \<Longrightarrow> slot_step s s' \<Longrightarrow> slot_reach s'"

text \<open>What is in flight: the task that the slot has and has not submitted.\<close>

definition in_flight :: "poll_slot \<Rightarrow> string list" where
  "in_flight s = (if m_phase s = POLLING then [] else [m_task_id s])"

definition landed :: "poll_slot \<Rightarrow> (string \<times> bool \<times> worker_output) list" where
  "landed s = (if m_phase s = RESUMING then [(m_task_id s, m_success s, m_output s)] else [])"

definition control_ok :: "slot_sys \<Rightarrow> bool" where
  "control_ok s \<longleftrightarrow>
     (case sy_pc s of
        Rest \<Rightarrow> \<not> m_on_stack (sy_slot s) \<and>
          (case m_phase (sy_slot s) of
             POLLING \<Rightarrow> sy_sched s \<and> \<not> sy_wake s
           | AWAITING \<Rightarrow> \<not> sy_sched s \<and> \<not> sy_wake s
           | RESUMING \<Rightarrow> sy_sched s \<noteq> sy_wake s)
      | Scan _ \<Rightarrow> m_phase (sy_slot s) = POLLING \<and> \<not> sy_sched s \<and> \<not> sy_wake s \<and> \<not> m_on_stack (sy_slot s)
      | Called t _ \<Rightarrow> m_phase (sy_slot s) \<noteq> POLLING \<and> m_task_id (sy_slot s) = t \<and> m_on_stack (sy_slot s) \<and>
          \<not> sy_sched s \<and> \<not> sy_wake s)"

definition slot_inv :: "slot_sys \<Rightarrow> bool" where
  "slot_inv s \<longleftrightarrow> control_ok s \<and>
     sy_running s = (if m_phase (sy_slot s) = AWAITING then Some (m_task_id (sy_slot s)) else None) \<and>
     sy_polled s = map fst (sy_submitted s) @ in_flight (sy_slot s) \<and>
     sy_completed s = sy_submitted s @ landed (sy_slot s) \<and> sy_clash s = 0"

lemmas slot_defs = slot_inv_def control_ok_def in_flight_def landed_def shedule_def

lemma slot_inv_init: "slot_inv init_sys"
  by (simp add: slot_defs init_sys_def init_slot_def)

lemma inv_begin_poll:
  assumes "slot_inv s" "sy_pc s = Rest" "sy_sched s"
  shows "slot_inv (begin_poll types s)"
  using assms
  by (cases "m_phase (sy_slot s)") (simp_all add: slot_defs begin_poll_def take_resumed_def Let_def)

lemma inv_completes:
  assumes "slot_inv s" "sy_running s = Some t"
  shows "slot_inv (completes t r s)"
  using assms
  by (cases "sy_pc s"; cases "m_phase (sy_slot s)") (simp_all add: slot_defs completes_def complete_task_def)

lemma inv_call_returns:
  assumes "slot_inv s" "sy_pc s = Called t ts"
  shows "slot_inv (call_returns t ts s)"
  using assms
  by (cases "m_phase (sy_slot s)") (simp_all add: slot_defs call_returns_def take_inline_def Let_def)

lemma slot_inv_step: "slot_step s s' \<Longrightarrow> slot_inv s \<Longrightarrow> slot_inv s'"
proof (induction rule: slot_step.induct)
  case (run_contract s types)
  then show ?case by (intro inv_begin_poll)
next
  case (complete s task_id r)
  then show ?case by (intro inv_completes)
next
  case (return s task_id ts)
  then show ?case by (intro inv_call_returns)
next
  case (send_wake s)
  then show ?case by (cases "sy_pc s"; cases "m_phase (sy_slot s)") (simp_all add: slot_defs)
next
  case (poll_task s t ts task_id)
  then show ?case by (simp add: slot_defs hand_over_def dispatch_task_def)
qed (simp_all add: slot_defs)

lemma slot_reach_inv: "slot_reach s \<Longrightarrow> slot_inv s"
  by (induction rule: slot_reach.induct) (auto intro: slot_inv_init slot_inv_step)

text \<open>A landed result is one or two steps of the slot away from its submission.\<close>

lemma resumed_submits:
  assumes "slot_inv s" "m_phase (sy_slot s) = RESUMING" "sy_pc s = Rest" "sy_sched s"
  shows "sy_submitted (begin_poll [] s) = sy_completed s"
  using assms by (simp add: slot_defs begin_poll_def take_resumed_def Let_def)

lemma landed_submits:
  assumes "slot_inv s"
  shows "\<exists>s'. rtranclp slot_step s s' \<and> sy_submitted s' = sy_completed s"
proof (cases "m_phase (sy_slot s) = RESUMING")
  case False
  then show ?thesis using assms by (intro exI [of _ s]) (simp add: slot_defs)
next
  case True
  show ?thesis
  proof (cases "sy_pc s")
    case (Called t ts)
    then have "sy_submitted (call_returns t ts s) = sy_completed s"
      using assms True by (simp add: slot_defs call_returns_def take_inline_def Let_def)
    then show ?thesis using slot_step.return [OF Called] by blast
  next
    case (Scan ts)
    then show ?thesis using assms True by (simp add: slot_defs)
  next
    case Rest
    show ?thesis
    proof (cases "sy_sched s")
      case sched: True
      then show ?thesis
        using resumed_submits [OF assms True Rest] slot_step.run_contract [OF Rest] by blast
    next
      case False
      then have w: "sy_wake s" using assms True Rest by (simp add: slot_defs)
      let ?u = "shedule (s\<lparr>sy_wake := False\<rparr>)"
      have u: "slot_step s ?u" using slot_step.send_wake [OF w] .
      have "slot_inv ?u" using slot_inv_step [OF u assms] .
      moreover have p: "m_phase (sy_slot ?u) = RESUMING" "sy_pc ?u = Rest" "sy_sched ?u" "sy_completed ?u = sy_completed s"
        using True Rest False by (simp_all add: shedule_def)
      ultimately have "sy_submitted (begin_poll [] ?u) = sy_completed s"
        using resumed_submits [of ?u] by simp
      moreover have "rtranclp slot_step s (begin_poll [] ?u)"
        using u slot_step.run_contract [OF p(2,3)] by (meson r_into_rtranclp rtranclp.rtrancl_into_rtrancl)
      ultimately show ?thesis by blast
    qed
  qed
qed

text \<open>
  C2: a polling slot submits the result of every task it polled exactly once, whatever the
  interleaving of \<open>poll_slot\<close> with completions on other threads. In every reachable state the
  polled tasks are the submitted ones, in order, followed by at most the one in flight, with the
  result that its worker gave; a slot at rest is scheduled, has a wake-up on its way or waits for
  its running task; \<open>schedule\<close> is never called on a scheduled contract; and every completed
  result can be submitted by steps of the slot alone.
\<close>

theorem slot_submits_once:
  assumes "slot_reach s"
  shows "sy_polled s = map fst (sy_submitted s) @ in_flight (sy_slot s) \<and>
    sy_completed s = sy_submitted s @ landed (sy_slot s) \<and>
    (sy_pc s = Rest \<longrightarrow> sy_sched s \<or> sy_wake s \<or> sy_running s = Some (m_task_id (sy_slot s))) \<and>
    sy_clash s = 0 \<and>
    (\<exists>s'. rtranclp slot_step s s' \<and> sy_submitted s' = sy_completed s)"
proof -
  have inv: "slot_inv s" using slot_reach_inv [OF assms] .
  then show ?thesis
    using landed_submits [OF inv] by (cases "m_phase (sy_slot s)") (auto simp: slot_defs)
qed

lemma parked_example:
  "\<exists>s. slot_reach s \<and> sy_wake s \<and> sy_polled s = [''x''] \<and> sy_submitted s = [] \<and> m_phase (sy_slot s) = RESUMING"
proof -
  let ?a = "begin_poll [''t''] init_sys"
  let ?b = "hand_over ''x'' [] ?a"
  let ?c = "call_returns ''x'' [] ?b"
  let ?d = "completes ''x'' (Inr []) ?c"
  note defs = begin_poll_def take_resumed_def init_sys_def init_slot_def hand_over_def dispatch_task_def
    call_returns_def take_inline_def completes_def complete_task_def
  have "slot_reach ?a" by (rule slot_reach.step [OF slot_reach.start slot_step.run_contract]) (simp_all add: init_sys_def)
  then have "slot_reach ?b" by (rule slot_reach.step [OF _ slot_step.poll_task [of _ "''t''"]]) (simp add: defs)
  then have "slot_reach ?c" by (rule slot_reach.step [OF _ slot_step.return]) (simp add: hand_over_def)
  then have "slot_reach ?d" by (rule slot_reach.step [OF _ slot_step.complete]) (simp add: defs)
  moreover have "sy_wake ?d" "sy_polled ?d = [''x'']" "sy_submitted ?d = []" "m_phase (sy_slot ?d) = RESUMING"
    by (simp_all add: defs)
  ultimately show ?thesis by blast
qed

theorem slot_submits_once_witness:
  "\<exists>s s'. slot_reach s \<and> sy_polled s = [''x''] \<and> sy_submitted s = [] \<and>
     rtranclp slot_step s s' \<and> map fst (sy_submitted s') = [''x'']"
proof -
  obtain s where s: "slot_reach s" "sy_polled s = [''x'']" "sy_submitted s = []" "m_phase (sy_slot s) = RESUMING"
    using parked_example by blast
  then obtain s' where "rtranclp slot_step s s'" "sy_submitted s' = sy_completed s"
    using slot_submits_once [OF s(1)] by blast
  moreover have "map fst (sy_completed s) = [''x'']"
    using slot_submits_once [OF s(1)] s(2-4) by (simp add: in_flight_def landed_def)
  ultimately show ?thesis using s by metis
qed

end
