(* ===== verification/WorkerHost.thy ===== *)
theory WorkerHost
  imports PollSlots
begin

text \<open>
  The worker process, sdk/worker/worker_main.cc: its helpers, the phases of \<open>run_worker\<close> in their
  order and the start of the polling slots next to a running thread pool. Plugins, files, the
  environment and the engine are inputs; what is printed is not modelled.
\<close>

section \<open>Helpers\<close>

definition expand_tilde :: "string option \<Rightarrow> string \<Rightarrow> string" where
  "expand_tilde home path =
     (if path \<noteq> '''' \<and> hd path = CHR ''~''
      then (case home of Some h \<Rightarrow> h @ tl path | None \<Rightarrow> path)
      else path)"

text \<open>The answers of a call in the order in which they arrive; the first one is the result, none blocks.\<close>

definition call_typed_blocking :: "(string + 'a) list \<Rightarrow> (string + 'a) option" where
  "call_typed_blocking answers = (case answers of [] \<Rightarrow> None | r # _ \<Rightarrow> Some r)"

datatype dispatch_target = To_manager | To_api_client

definition engine_dispatch :: "nat \<Rightarrow> effects \<times> dispatch_target list" where
  "engine_dispatch code = (if code \<ge> 400 then [Log ERROR ''worker/host''] else [], [To_manager, To_api_client])"

text \<open>A directory in the order of its iterator; a file that cannot be read has no content.\<close>

datatype node = File "string option" | Dir "(string \<times> node) list"

text \<open>\<open>path::extension()\<close> of a file name: from its last dot, unless the name starts with it.\<close>

definition extension :: "string \<Rightarrow> string" where
  "extension name = (case rfind_char CHR ''.'' name of None \<Rightarrow> '''' | Some i \<Rightarrow> if i = 0 then '''' else drop i name)"

fun collect_files :: "(string \<times> node) list \<Rightarrow> string list" where
  "collect_files [] = []"
| "collect_files ((name, File content) # es) =
     (if extension name \<noteq> ''.json'' then collect_files es
      else case content of None \<Rightarrow> collect_files es | Some c \<Rightarrow> c # collect_files es)"
| "collect_files ((name, Dir _) # es) = collect_files es"

definition collect_def_files :: "node option \<Rightarrow> string list" where
  "collect_def_files dir = (case dir of Some (Dir es) \<Rightarrow> collect_files es | _ \<Rightarrow> [])"

fun collect_apps :: "string \<Rightarrow> (string \<times> node) list \<Rightarrow> string list" where
  "collect_apps subdir [] = []"
| "collect_apps subdir ((app, Dir es) # apps) = collect_def_files (map_of es subdir) @ collect_apps subdir apps"
| "collect_apps subdir ((app, File _) # apps) = collect_apps subdir apps"

definition collect_app_defs :: "node option \<Rightarrow> string \<Rightarrow> string list" where
  "collect_app_defs apps_dir subdir = (case apps_dir of Some (Dir apps) \<Rightarrow> collect_apps subdir apps | _ \<Rightarrow> [])"

text \<open>\<open>PollSlotHandler::on_error\<close> logs the exception and schedules the contract again.\<close>

definition poll_slot_error :: "slot_sys \<Rightarrow> slot_sys \<times> effects" where
  "poll_slot_error s = (shedule s, [Log ERROR ''worker/poll''])"

section \<open>Configuration\<close>

record host_config =
  hc_worker_id :: string
  hc_concurrency :: "32 word"
  hc_tasks :: "(string \<times> string) list"
  hc_engine_host :: string
  hc_engine_port :: "32 word"
  hc_engine_cert :: string
  hc_engine_key :: string
  hc_client_host :: "string option"
  hc_client_port :: "32 word option"
  hc_client_cert :: "string option"
  hc_client_key :: "string option"
  hc_connect_timeout_ms :: "32 word option"

definition from_chars_u32 :: "string \<Rightarrow> 32 word option" where
  "from_chars_u32 s = map_option word_of_int (from_chars_unsigned 32 s)"

definition env_overrides :: "string option \<Rightarrow> string option \<Rightarrow> host_config \<Rightarrow> host_config" where
  "env_overrides worker_id concurrency cfg =
     (let cfg = (case worker_id of Some w \<Rightarrow> cfg\<lparr>hc_worker_id := w\<rparr> | None \<Rightarrow> cfg)
      in case concurrency of
           None \<Rightarrow> cfg
         | Some text \<Rightarrow> (case from_chars_u32 text of Some n \<Rightarrow> cfg\<lparr>hc_concurrency := n\<rparr> | None \<Rightarrow> cfg))"

definition opt_field :: "string \<Rightarrow> string option \<Rightarrow> config" where
  "opt_field key v = (case v of None \<Rightarrow> [] | Some x \<Rightarrow> [(key, x)])"

text \<open>The downstream endpoint, which the protocol and both client workers get.\<close>

definition downstream :: "host_config \<Rightarrow> config option" where
  "downstream cfg =
     (case hc_client_host cfg of
        None \<Rightarrow> None
      | Some host \<Rightarrow>
          Some ([(''host'', host), (''port'', show_nat (unat (case hc_client_port cfg of None \<Rightarrow> 443 | Some p \<Rightarrow> p)))] @
                opt_field ''cert'' (hc_client_cert cfg) @ opt_field ''key'' (hc_client_key cfg)))"

definition worker_plugin_configs :: "host_config \<Rightarrow> (string \<times> config) list" where
  "worker_plugin_configs cfg =
     (case downstream cfg of None \<Rightarrow> [] | Some c \<Rightarrow> [(''client_worker'', c), (''client_pool_worker'', c)])"

definition engine_fields :: "host_config \<Rightarrow> config" where
  "engine_fields cfg =
     [(''host'', hc_engine_host cfg), (''port'', show_nat (unat (hc_engine_port cfg))),
      (''cert'', if hc_engine_cert cfg = '''' then ''server.crt'' else hc_engine_cert cfg),
      (''key'', if hc_engine_key cfg = '''' then ''server.key'' else hc_engine_key cfg)]"

definition verify_peer :: "host_config \<Rightarrow> bool" where
  "verify_peer cfg \<longleftrightarrow> hc_engine_cert cfg \<noteq> '''' \<or> hc_engine_key cfg \<noteq> ''''"

definition engine_endpoint :: "host_config \<Rightarrow> string \<times> 16 word" where
  "engine_endpoint cfg = (hc_engine_host cfg, ucast (hc_engine_port cfg))"

section \<open>Plugins\<close>

text \<open>What a loaded plugin resolves to; a runtime without a plugin resolves to nothing.\<close>

record loaded =
  ld_present :: bool
  ld_manager :: "ptr option"
  ld_database :: "ptr option"
  ld_cache :: "ptr option"
  ld_worker :: "string option"
  ld_app_defs :: "(string list \<times> string list) option"

text \<open>The last manager, the first database and the first cache.\<close>

definition find_manager :: "loaded list \<Rightarrow> ptr option" where
  "find_manager ps = fold (\<lambda>p m. if \<not> ld_present p then m else case ld_manager p of None \<Rightarrow> m | q \<Rightarrow> q) ps None"

definition find_backends :: "loaded list \<Rightarrow> ptr option \<times> ptr option" where
  "find_backends ps =
     fold (\<lambda>p (db, cache).
       if \<not> ld_present p then (db, cache)
       else (if db = None then ld_database p else db, if cache = None then ld_cache p else cache)) ps (None, None)"

text \<open>The task types of the workers and the definitions of the applications.\<close>

definition load_workers :: "loaded list \<Rightarrow> string list \<times> string list \<times> string list" where
  "load_workers ps =
     fold (\<lambda>p (ws, tds, wds).
       if \<not> ld_present p then (ws, tds, wds)
       else
         let ws = (case ld_worker p of None \<Rightarrow> ws | Some w \<Rightarrow> ws @ [w])
         in case ld_app_defs p of None \<Rightarrow> (ws, tds, wds) | Some (t, w) \<Rightarrow> (ws, tds @ t, wds @ w)) ps ([], [], [])"

section \<open>Connecting to the engine\<close>

datatype connect_end = Connected | Gave_up | Retry_failed string | Waiting

text \<open>
  The loop: each round is whether the connection came up within the delay, the time after it and
  the result of \<open>retry\<close>. With no more rounds it is still waiting.
\<close>

fun connect_loop :: "bool \<Rightarrow> int \<Rightarrow> (bool \<times> int \<times> string option) list \<Rightarrow> connect_end" where
  "connect_loop forever deadline [] = Waiting"
| "connect_loop forever deadline ((ready, now, retry) # rounds) =
     (if ready then Connected
      else if \<not> forever \<and> now \<ge> deadline then Gave_up
      else case retry of Some err \<Rightarrow> Retry_failed err | None \<Rightarrow> connect_loop forever deadline rounds)"

definition connect_engine ::
  "32 word \<Rightarrow> int \<Rightarrow> (bool \<times> int \<times> string option) list \<Rightarrow> host_config \<Rightarrow> connect_end" where
  "connect_engine default_timeout began rounds cfg =
     (let timeout = (case hc_connect_timeout_ms cfg of None \<Rightarrow> default_timeout | Some t \<Rightarrow> t)
      in connect_loop (timeout = 0) (began + uint timeout) rounds)"

section \<open>The process\<close>

datatype host_action =
    Add_worker string
  | Start_server
  | Register_task_defs "string list"
  | Register_workflow_defs "string list"
  | Self_register string string
  | Create_contract nat
  | Register_slot nat
  | Shutdown_all

text \<open>How the process ends; it can also stay blocked.\<close>

datatype host_end = Exit int | Blocked

record host_inputs =
  hi_build_ok :: bool
  hi_plugins :: "loaded list"
  hi_config :: "string + host_config"
  hi_env_worker_id :: "string option"
  hi_env_concurrency :: "string option"
  hi_workers :: "loaded list"
  hi_is_http2 :: bool
  hi_connect_error :: "string option"
  hi_default_timeout :: "32 word"
  hi_start :: int
  hi_rounds :: "(bool \<times> int \<times> string option) list"
  hi_apps :: "node option"
  hi_answers :: "string \<Rightarrow> (string + unit) list"
  hi_shutdown :: bool

text \<open>The registration of the configured tasks; a failure is printed, a missing answer blocks.\<close>

fun self_register :: "(string \<Rightarrow> (string + unit) list) \<Rightarrow> (string \<times> string) list \<Rightarrow> host_action list \<times> bool" where
  "self_register answers [] = ([], True)"
| "self_register answers ((name, worker_type) # ts) =
     (case call_typed_blocking (answers name) of
        None \<Rightarrow> ([Self_register name worker_type], False)
      | Some _ \<Rightarrow> (let (as, ok) = self_register answers ts in (Self_register name worker_type # as, ok)))"

definition start_slots :: "32 word \<Rightarrow> host_action list" where
  "start_slots concurrency = concat (map (\<lambda>i. [Create_contract i, Register_slot i]) [0..<unat concurrency])"

text \<open>From the connection on.\<close>

definition serve :: "host_inputs \<Rightarrow> host_config \<Rightarrow> string list \<times> string list \<Rightarrow> host_action list \<times> host_end" where
  "serve i cfg defs =
     (let before = [Start_server, Register_task_defs (collect_app_defs (hi_apps i) ''taskdefs'' @ fst defs),
            Register_workflow_defs (collect_app_defs (hi_apps i) ''workflows'' @ snd defs)];
          (registrations, ok) = self_register (hi_answers i) (hc_tasks cfg)
      in if \<not> ok then (before @ registrations, Blocked)
         else if \<not> hi_shutdown i then (before @ registrations @ start_slots (hc_concurrency cfg), Blocked)
         else (before @ registrations @ start_slots (hc_concurrency cfg) @ [Shutdown_all], Exit 0))"

text \<open>\<open>run_worker\<close>, with the exception of a missing configuration caught by \<open>main\<close>.\<close>

definition run_worker :: "host_inputs \<Rightarrow> host_action list \<times> host_end" where
  "run_worker i =
     (let manager = (if hi_build_ok i then find_manager (hi_plugins i) else None)
      in if manager = None then ([], Exit 1)
         else case hi_config i of
                Inl _ \<Rightarrow> ([], Exit 1)
              | Inr cfg \<Rightarrow>
                  let cfg = env_overrides (hi_env_worker_id i) (hi_env_concurrency i) cfg;
                      (workers, defs) = load_workers (hi_workers i);
                      added = map Add_worker workers
                  in if \<not> hi_is_http2 i then (added, Exit 1)
                     else if hi_connect_error i \<noteq> None then (added, Exit 1)
                     else case connect_engine (hi_default_timeout i) (hi_start i) (hi_rounds i) cfg of
                            Connected \<Rightarrow> (let (as, e) = serve i cfg defs in (added @ as, e))
                          | Gave_up \<Rightarrow> (added, Exit 1)
                          | Retry_failed _ \<Rightarrow> (added, Exit 1)
                          | Waiting \<Rightarrow> (added, Blocked))"

section \<open>Slots next to a running pool\<close>

text \<open>
  The thread pool runs before the slots are started, so a contract can run as soon as it is
  created. \<open>ss_created\<close> and \<open>ss_registered\<close> count the loop of the host; \<open>ss_polled\<close> are the
  slots that \<open>poll_slot\<close> has been called for with what its unchecked access gave.
\<close>

record start_sys =
  ss_slots :: "poll_slot list"
  ss_created :: nat
  ss_registered :: nat
  ss_polled :: "(nat \<times> poll_slot may_ub) list"

inductive start_step :: "nat \<Rightarrow> start_sys \<Rightarrow> start_sys \<Rightarrow> bool" for n where
  create: "ss_created s = ss_registered s \<Longrightarrow> ss_created s < n \<Longrightarrow> start_step n s (s\<lparr>ss_created := Suc (ss_created s)\<rparr>)"
| register: "ss_registered s < ss_created s \<Longrightarrow>
    start_step n s (s\<lparr>ss_slots := register_poll_slot (ss_registered s) (ss_slots s), ss_registered := Suc (ss_registered s)\<rparr>)"
| poll: "i < ss_created s \<Longrightarrow> start_step n s (s\<lparr>ss_polled := ss_polled s @ [(i, slot_at i (ss_slots s))]\<rparr>)"

inductive_cases start_stepE: "start_step n s s'"

inductive start_reach :: "nat \<Rightarrow> start_sys \<Rightarrow> bool" for n where
  init: "start_reach n \<lparr>ss_slots = [], ss_created = 0, ss_registered = 0, ss_polled = []\<rparr>"
| step: "start_reach n s \<Longrightarrow> start_step n s s' \<Longrightarrow> start_reach n s'"

definition start_inv :: "nat \<Rightarrow> start_sys \<Rightarrow> bool" where
  "start_inv n s \<longleftrightarrow>
     length (ss_slots s) = ss_registered s \<and> list_all m_has_wake (ss_slots s) \<and>
     ss_registered s \<le> ss_created s \<and> ss_created s \<le> Suc (ss_registered s) \<and> ss_created s \<le> n"

lemma register_next: "register_poll_slot (length slots) slots = slots @ [init_slot\<lparr>m_has_wake := True\<rparr>]"
  by (simp add: register_poll_slot_def Let_def)

lemma start_inv_step: "start_step n s s' \<Longrightarrow> start_inv n s \<Longrightarrow> start_inv n s'"
  by (erule start_stepE) (auto simp: start_inv_def register_next dest: sym)

lemma start_inv_reach: "start_reach n s \<Longrightarrow> start_inv n s"
  by (induction rule: start_reach.induct) (simp add: start_inv_def, rule start_inv_step)

text \<open>
  C32: once the slots are started, no poll leaves them. In every state that the host and the pool
  reach together, a slot that is registered is in bounds and has its wake-up, a call of
  \<open>poll_slot\<close> is only made for a slot that is registered or for the one that the host is just
  registering, and when all contracts are registered, every call is in bounds.
\<close>

theorem started_slots_in_bounds:
  assumes "start_reach n s"
  shows "(\<forall>i < ss_registered s. \<exists>slot. slot_at i (ss_slots s) = Inr slot \<and> m_has_wake slot) \<and>
    ss_created s \<le> Suc (ss_registered s) \<and>
    (ss_registered s = n \<longrightarrow> (\<forall>s'. start_step n s s' \<longrightarrow>
       ss_polled s' = ss_polled s \<or> (\<exists>i slot. i < n \<and> ss_polled s' = ss_polled s @ [(i, Inr slot)] \<and> m_has_wake slot)))"
  using start_inv_reach [OF assms]
  by (auto simp: start_inv_def slot_at_def list_all_length elim!: start_stepE)

definition sample_start :: start_sys where
  "sample_start = \<lparr>ss_slots = [init_slot\<lparr>m_has_wake := True\<rparr>], ss_created = 1, ss_registered = 1, ss_polled = []\<rparr>"

theorem started_slots_in_bounds_witness: "slot_at 0 (ss_slots sample_start) = Inr (init_slot\<lparr>m_has_wake := True\<rparr>)"
proof -
  let ?s0 = "\<lparr>ss_slots = [], ss_created = 0, ss_registered = 0, ss_polled = []\<rparr> :: start_sys"
  have "start_reach 1 (?s0\<lparr>ss_created := 1\<rparr>)"
    using start_reach.step [OF start_reach.init start_step.create [of ?s0 1]] by simp
  from start_reach.step [OF this start_step.register [of "?s0\<lparr>ss_created := 1\<rparr>" 1]]
  have "start_reach 1 sample_start"
    by (simp add: sample_start_def register_poll_slot_def)
  from started_slots_in_bounds [OF this] show ?thesis by (simp add: sample_start_def slot_at_def)
qed

text \<open>
  Before that there is a gap: the pool can run a contract between its creation and the
  registration of its slot, and the access is then out of bounds.
\<close>

lemma poll_before_registration:
  "\<exists>s. start_reach 1 s \<and> ss_polled s = [(0, Inl Out_of_bounds)]"
proof -
  let ?s0 = "\<lparr>ss_slots = [], ss_created = 0, ss_registered = 0, ss_polled = []\<rparr> :: start_sys"
  have "start_reach 1 (?s0\<lparr>ss_created := 1\<rparr>)"
    using start_reach.step [OF start_reach.init start_step.create [of ?s0 1]] by simp
  from start_reach.step [OF this start_step.poll [of 0 "?s0\<lparr>ss_created := 1\<rparr>" 1]]
  show ?thesis by (force simp: slot_at_def)
qed

section \<open>The order of the phases\<close>

lemma self_register_actions:
  "self_register answers ts = (as, ok) \<Longrightarrow> \<exists>k \<le> length ts. as = map (\<lambda>(n, w). Self_register n w) (take k ts) \<and> (ok \<longrightarrow> k = length ts)"
proof (induction ts arbitrary: as ok)
  case (Cons t ts)
  obtain name w where t: "t = (name, w)" by (cases t)
  show ?case
  proof (cases "call_typed_blocking (answers name)")
    case None
    then show ?thesis using Cons.prems by (intro exI [of _ 1]) (auto simp: t)
  next
    case (Some r)
    obtain as' ok' where r: "self_register answers ts = (as', ok')" by (cases "self_register answers ts")
    from Cons.IH [OF r] obtain k where "k \<le> length ts" "as' = map (\<lambda>(n, w). Self_register n w) (take k ts)" "ok' \<longrightarrow> k = length ts"
      by blast
    then show ?thesis using Cons.prems Some r by (intro exI [of _ "Suc k"]) (auto simp: t)
  qed
qed simp

lemma append_split_mem: "x \<notin> set P \<Longrightarrow> P @ Q = xs @ x # ys \<Longrightarrow> \<exists>zs. xs = P @ zs"
  by (auto simp: append_eq_append_conv2 append_eq_Cons_conv)

lemma run_worker_serves:
  assumes "run_worker i = (as, e)" "load_workers (hi_workers i) = (ws, defs)" "as \<noteq> []" "as \<noteq> map Add_worker ws"
  obtains cfg where "map_sum id (env_overrides (hi_env_worker_id i) (hi_env_concurrency i)) (hi_config i) = Inr cfg"
    "connect_engine (hi_default_timeout i) (hi_start i) (hi_rounds i) cfg = Connected"
    "as = map Add_worker ws @ fst (serve i cfg defs)" "e = snd (serve i cfg defs)"
proof (cases "hi_config i")
  case (Inl msg)
  then show ?thesis using assms(1,3) by (auto simp: run_worker_def Let_def split: if_splits)
next
  case (Inr cfg0)
  let ?cfg = "env_overrides (hi_env_worker_id i) (hi_env_concurrency i) cfg0"
  show ?thesis
  proof (cases "connect_engine (hi_default_timeout i) (hi_start i) (hi_rounds i) ?cfg")
    case Connected
    then show ?thesis
      using assms Inr that [of ?cfg] by (auto simp: run_worker_def Let_def case_prod_beta split: if_splits)
  qed (use assms Inr in \<open>auto simp: run_worker_def Let_def split: if_splits\<close>)
qed

lemma serve_actions:
  "\<exists>k \<le> length (hc_tasks cfg). \<exists>rest.
     fst (serve i cfg defs) = [Start_server, Register_task_defs (collect_app_defs (hi_apps i) ''taskdefs'' @ fst defs),
       Register_workflow_defs (collect_app_defs (hi_apps i) ''workflows'' @ snd defs)] @
       map (\<lambda>(n, w). Self_register n w) (take k (hc_tasks cfg)) @ rest \<and>
     (rest \<noteq> [] \<longrightarrow> k = length (hc_tasks cfg)) \<and> (snd (serve i cfg defs) = Exit 0 \<longrightarrow> (\<exists>vs. rest = vs @ [Shutdown_all]))"
proof -
  obtain rs ok where r: "self_register (hi_answers i) (hc_tasks cfg) = (rs, ok)"
    by (cases "self_register (hi_answers i) (hc_tasks cfg)")
  from self_register_actions [OF r] obtain k where k: "k \<le> length (hc_tasks cfg)"
    "rs = map (\<lambda>(n, w). Self_register n w) (take k (hc_tasks cfg))" "ok \<longrightarrow> k = length (hc_tasks cfg)" by blast
  let ?rest = "if ok then start_slots (hc_concurrency cfg) @ (if hi_shutdown i then [Shutdown_all] else []) else []"
  show ?thesis
    by (rule exI [of _ k], intro conjI exI [of _ ?rest]) (use r k in \<open>auto simp: serve_def Let_def\<close>)
qed


definition sample_config :: host_config where
  "sample_config = \<lparr>hc_worker_id = '''', hc_concurrency = 1, hc_tasks = [(''t'', ''echo'')], hc_engine_host = ''h'',
     hc_engine_port = 443, hc_engine_cert = '''', hc_engine_key = '''', hc_client_host = None, hc_client_port = None,
     hc_client_cert = None, hc_client_key = None, hc_connect_timeout_ms = None\<rparr>"

definition sample_host :: host_inputs where
  "sample_host = \<lparr>hi_build_ok = True,
     hi_plugins = [\<lparr>ld_present = True, ld_manager = Some 1, ld_database = None, ld_cache = None, ld_worker = None, ld_app_defs = None\<rparr>],
     hi_config = Inr sample_config, hi_env_worker_id = None, hi_env_concurrency = None, hi_workers = [], hi_is_http2 = True,
     hi_connect_error = None, hi_default_timeout = 30000, hi_start = 0, hi_rounds = [(False, 1000, None), (True, 2000, None)],
     hi_apps = None, hi_answers = (\<lambda>_. [Inr ()]), hi_shutdown = True\<rparr>"


section \<open>The connection loop\<close>

definition before_end :: "bool \<Rightarrow> int \<Rightarrow> bool \<times> int \<times> string option \<Rightarrow> bool" where
  "before_end forever deadline = (\<lambda>(ready, now, retry). \<not> ready \<and> (forever \<or> now < deadline) \<and> retry = None)"

text \<open>
  The attempt to reach the engine ends as configured. It connects exactly if the first round
  that is not just waiting finds the connection up, where a round just waits if it is before the
  deadline (or there is none, with the timeout 0) and its retry was started; and it goes on exactly
  as long as every round just waits, so with a deadline it has ended when a round is past it.
\<close>

lemma connect_loop_ends:
  "(connect_loop forever deadline rounds = Connected \<longleftrightarrow>
      (case dropWhile (before_end forever deadline) rounds of [] \<Rightarrow> False | r # _ \<Rightarrow> fst r)) \<and>
   (connect_loop forever deadline rounds = Waiting \<longleftrightarrow> list_all (before_end forever deadline) rounds)"
proof (induction rounds)
  case (Cons r rounds)
  obtain ready now retry where r: "r = (ready, now, retry)" by (cases r)
  show ?case
    using Cons.IH by (cases retry; cases ready; cases "forever \<or> now < deadline") (auto simp: r before_end_def)
qed simp

end
