(* ===== verification/TaskStore.thy ===== *)
theory TaskStore
  imports Connector Sql
begin

text \<open>
  The local worker orchestrator: \<open>OrchestratorStore\<close> of
  plugins/orchestrator/worker_local/src/store.cppm, which \<open>LocalOrchestrator\<close> of
  plugins/orchestrator/worker_local/src/local_orchestrator.cppm calls with the host's connector,
  over a connector without a database. Such a connector runs every operation before the call
  returns, so an operation of the store is one function here. The rows are those of
  plugins/shared/model/task.
\<close>

section \<open>Rows\<close>

datatype TaskStatus = SCHEDULED | IN_PROGRESS | COMPLETED | FAILED | TIMED_OUT | SKIPPED | CANCELED

text \<open>
  A task instance; times are nanoseconds, and the input is a dynamic value that the store does
  not look into. The timings are the scheduled, the start and the completion time.
\<close>

record 'i TaskInstance =
  m_task_id :: string
  m_def_name :: string
  m_node_ref :: string
  m_workflow_exec_id :: string
  m_status :: TaskStatus
  m_seq :: "32 word"
  m_input_data :: 'i
  m_output_data :: "(string \<times> string) list"
  m_timings :: "int option \<times> int option \<times> int option"
  m_retry_count :: "32 word"
  m_deadline_at :: "int option"
  m_next_retry_at :: "int option"
  m_sub_workflow_exec_id :: "string option"

text \<open>The nil identifier of the default constructor.\<close>

definition nil_id :: string where
  "nil_id = ''00000000-0000-0000-0000-000000000000''"

definition init_task :: "'i \<Rightarrow> 'i TaskInstance" where
  "init_task input =
     \<lparr>m_task_id = nil_id, m_def_name = '''', m_node_ref = '''', m_workflow_exec_id = nil_id, m_status = SCHEDULED,
      m_seq = 0, m_input_data = input, m_output_data = [], m_timings = (None, None, None), m_retry_count = 0,
      m_deadline_at = None, m_next_retry_at = None, m_sub_workflow_exec_id = None\<rparr>"

text \<open>Of a task definition, the fields that the store reads.\<close>

record TaskDef =
  m_name :: string
  m_worker_type :: string
  m_domain :: "string option"
  m_timeout_ms :: "32 word"

section \<open>The connector\<close>

text \<open>
  What the store runs on: the cache, the JSON texts of both row types with their decoders, and
  the encoder of the registered JSON format.
\<close>

record ('c, 'i) task_env =
  e_ops :: "'c cache_ops"
  e_def_write :: "TaskDef \<Rightarrow> string"
  e_def_read :: "string \<Rightarrow> TaskDef option"
  e_task_write :: "'i TaskInstance \<Rightarrow> string"
  e_task_read :: "string \<Rightarrow> 'i TaskInstance option"
  e_serialize :: "'i TaskInstance \<Rightarrow> string"

definition def_codec :: "('c, 'i) task_env \<Rightarrow> TaskDef codec" where
  "def_codec E = \<lparr>table_name = ''task_definitions'', pk_string = m_name, json_write = e_def_write E, json_read = e_def_read E\<rparr>"

definition task_codec :: "('c, 'i) task_env \<Rightarrow> 'i TaskInstance codec" where
  "task_codec E = \<lparr>table_name = ''task_instances'', pk_string = m_task_id, json_write = e_task_write E, json_read = e_task_read E\<rparr>"

text \<open>
  The connector's state: its cache and the local stores of both types. The order of a list
  stands for the iteration order of an unordered map; no property depends on it.
\<close>

record ('c, 'i) task_store =
  ts_cache :: 'c
  ts_defs :: "(string \<times> TaskDef) list"
  ts_tasks :: "(string \<times> 'i TaskInstance) list"

text \<open>The database that is not there; the connector never asks it.\<close>

definition no_db :: "(unit, 'v) database" where
  "no_db = \<lparr>db_select = (\<lambda>_ d. (d, '''')), db_write = (\<lambda>_ d. (d, '''')), db_write_many = (\<lambda>_ d. (d, '''')),
     db_delete = (\<lambda>_ d. (d, '''')), db_delete_many = (\<lambda>_ d. (d, ''''))\<rparr>"

definition def_conn :: "('c, 'i) task_store \<Rightarrow> ('c, unit, TaskDef) connector" where
  "def_conn s = \<lparr>cn_cache = ts_cache s, cn_db = None, cn_local = ts_defs s\<rparr>"

definition task_conn :: "('c, 'i) task_store \<Rightarrow> ('c, unit, 'i TaskInstance) connector" where
  "task_conn s = \<lparr>cn_cache = ts_cache s, cn_db = None, cn_local = ts_tasks s\<rparr>"

definition find_def_row :: "('c, 'i) task_env \<Rightarrow> string \<Rightarrow> ('c, 'i) task_store \<Rightarrow> ('c, 'i) task_store \<times> TaskDef option" where
  "find_def_row E key s =
     (let (c, r) = find (e_ops E) no_db (def_codec E) key (def_conn s) in (s\<lparr>ts_cache := cn_cache c\<rparr>, r))"

definition find_task_row :: "('c, 'i) task_env \<Rightarrow> string \<Rightarrow> ('c, 'i) task_store \<Rightarrow> ('c, 'i) task_store \<times> 'i TaskInstance option" where
  "find_task_row E key s =
     (let (c, r) = find (e_ops E) no_db (task_codec E) key (task_conn s) in (s\<lparr>ts_cache := cn_cache c\<rparr>, r))"

definition write_task :: "string \<Rightarrow> ('c, 'i) task_env \<Rightarrow> 'i TaskInstance \<Rightarrow> ('c, 'i) task_store \<Rightarrow> ('c, 'i) task_store \<times> bool" where
  "write_task operation_name E i s =
     (let (c, ok, _) = write_through operation_name (e_ops E) no_db (task_codec E) i (task_conn s)
      in (s\<lparr>ts_cache := cn_cache c, ts_tasks := cn_local c\<rparr>, ok))"

section \<open>Operations of the store\<close>

text \<open>
  The predicate of \<open>claim\<close>, its loop over the local store in \<open>find_first\<close>, and the front of
  the sorted matches.
\<close>

definition task_matches ::
  "('c, 'i) task_env \<Rightarrow> string \<Rightarrow> string option \<Rightarrow> 'i TaskInstance \<Rightarrow> ('c, 'i) task_store \<Rightarrow> ('c, 'i) task_store \<times> bool" where
  "task_matches E worker_type domain i s =
     (if m_status i \<noteq> SCHEDULED then (s, False)
      else let (s, def) = find_def_row E (m_def_name i) s
           in (s, case def of
                    None \<Rightarrow> False
                  | Some d \<Rightarrow> m_worker_type d = worker_type \<and> (domain = None \<or> m_domain d = domain)))"

fun candidates ::
  "('c, 'i) task_env \<Rightarrow> string \<Rightarrow> string option \<Rightarrow> 'i TaskInstance list \<Rightarrow> ('c, 'i) task_store \<Rightarrow>
   ('c, 'i) task_store \<times> 'i TaskInstance list" where
  "candidates E worker_type domain [] s = (s, [])"
| "candidates E worker_type domain (i # is) s =
     (let (s, ok) = task_matches E worker_type domain i s;
          (s, cs) = candidates E worker_type domain is s
      in (s, if ok then i # cs else cs))"

definition find_first ::
  "('c, 'i) task_env \<Rightarrow> string \<Rightarrow> string option \<Rightarrow> ('c, 'i) task_store \<Rightarrow> ('c, 'i) task_store \<times> 'i TaskInstance option" where
  "find_first E worker_type domain s =
     (let (s, cs) = candidates E worker_type domain (find_all_local (task_conn s)) s
      in (s, case sort_key m_seq cs of [] \<Rightarrow> None | i # _ \<Rightarrow> Some i))"

text \<open>The continuation of \<open>claim\<close> on a task that was found.\<close>

definition mark_claimed ::
  "('c, 'i) task_env \<Rightarrow> int \<Rightarrow> 'i TaskInstance \<Rightarrow> ('c, 'i) task_store \<Rightarrow> ('c, 'i) task_store \<times> 'i TaskInstance option" where
  "mark_claimed E now found s =
     (let claimed = found\<lparr>m_status := IN_PROGRESS\<rparr>;
          (s, def) = find_def_row E (m_def_name claimed) s;
          timeout_ms = (case def of None \<Rightarrow> 30000 | Some d \<Rightarrow> uint (m_timeout_ms d));
          claimed = claimed\<lparr>m_deadline_at := Some (now + timeout_ms * 1000000)\<rparr>;
          (s, ok) = write_task ''update'' E claimed s
      in (s, if ok then Some claimed else None))"

definition claim_task ::
  "('c, 'i) task_env \<Rightarrow> int \<Rightarrow> string \<Rightarrow> string option \<Rightarrow> ('c, 'i) task_store \<Rightarrow> ('c, 'i) task_store \<times> 'i TaskInstance option" where
  "claim_task E now worker_type domain s =
     (case find_first E worker_type domain s of
        (s, None) \<Rightarrow> (s, None)
      | (s, Some found) \<Rightarrow> mark_claimed E now found s)"

text \<open>The guard of every operation: without a connector it answers at once.\<close>

definition with_connector :: "('s \<Rightarrow> 's \<times> 'r) \<Rightarrow> 'r \<Rightarrow> 's option \<Rightarrow> 's option \<times> 'r" where
  "with_connector f r ctx = (case ctx of None \<Rightarrow> (None, r) | Some s \<Rightarrow> map_prod Some id (f s))"

definition claim ::
  "('c, 'i) task_env \<Rightarrow> int \<Rightarrow> string \<Rightarrow> string option \<Rightarrow> ('c, 'i) task_store option \<Rightarrow>
   ('c, 'i) task_store option \<times> string option" where
  "claim E now worker_type domain =
     with_connector (\<lambda>s. map_prod id (map_option (e_serialize E)) (claim_task E now worker_type domain s)) None"

definition enqueue_row ::
  "('c, 'i) task_env \<Rightarrow> string \<Rightarrow> string \<Rightarrow> 'i \<Rightarrow> ('c, 'i) task_store \<Rightarrow> ('c, 'i) task_store \<times> string option" where
  "enqueue_row E task_id task_type input s =
     (let i = (init_task input)\<lparr>m_task_id := task_id, m_def_name := task_type, m_status := SCHEDULED\<rparr>;
          (s, ok) = write_task ''insert'' E i s
      in (s, if ok then Some task_id else None))"

definition enqueue ::
  "('c, 'i) task_env \<Rightarrow> string \<Rightarrow> string \<Rightarrow> 'i \<Rightarrow> ('c, 'i) task_store option \<Rightarrow> ('c, 'i) task_store option \<times> string option" where
  "enqueue E task_id task_type input = with_connector (enqueue_row E task_id task_type input) None"

definition submit_row ::
  "('c, 'i) task_env \<Rightarrow> string \<Rightarrow> bool \<Rightarrow> (string \<times> string) list \<Rightarrow> ('c, 'i) task_store \<Rightarrow> ('c, 'i) task_store \<times> bool" where
  "submit_row E task_id success outp s =
     (case find_task_row E task_id s of
        (s, None) \<Rightarrow> (s, False)
      | (s, Some i) \<Rightarrow>
          write_task ''update'' E (i\<lparr>m_status := (if success then COMPLETED else FAILED), m_output_data := outp\<rparr>) s)"

definition submit_result ::
  "('c, 'i) task_env \<Rightarrow> string \<Rightarrow> bool \<Rightarrow> (string \<times> string) list \<Rightarrow> ('c, 'i) task_store option \<Rightarrow>
   ('c, 'i) task_store option \<times> bool" where
  "submit_result E task_id success outp = with_connector (submit_row E task_id success outp) False"

text \<open>The names of the definitions of a worker type.\<close>

definition type_names :: "string \<Rightarrow> ('c, 'i) task_store \<Rightarrow> string list" where
  "type_names worker_type s =
     map m_name (filter (\<lambda>d. m_worker_type d = worker_type) (find_all_local (def_conn s)))"

definition size_row :: "string \<Rightarrow> ('c, 'i) task_store \<Rightarrow> nat" where
  "size_row worker_type s =
     length (filter (\<lambda>i. m_status i = SCHEDULED \<and> m_def_name i \<in> set (type_names worker_type s))
       (find_all_local (task_conn s)))"

definition queue_size :: "string \<Rightarrow> ('c, 'i) task_store option \<Rightarrow> ('c, 'i) task_store option \<times> nat" where
  "queue_size worker_type = with_connector (\<lambda>s. (s, size_row worker_type s)) 0"

fun requeue_rows ::
  "('c, 'i) task_env \<Rightarrow> string list \<Rightarrow> 'i TaskInstance list \<Rightarrow> ('c, 'i) task_store \<Rightarrow> ('c, 'i) task_store \<times> nat" where
  "requeue_rows E names [] s = (s, 0)"
| "requeue_rows E names (i # is) s =
     (if m_status i = IN_PROGRESS \<and> m_def_name i \<in> set names
      then map_prod id Suc (requeue_rows E names is (fst (write_task ''update'' E (i\<lparr>m_status := SCHEDULED\<rparr>) s)))
      else requeue_rows E names is s)"

definition requeue_type :: "('c, 'i) task_env \<Rightarrow> string \<Rightarrow> ('c, 'i) task_store \<Rightarrow> ('c, 'i) task_store \<times> nat" where
  "requeue_type E worker_type s = requeue_rows E (type_names worker_type s) (find_all_local (task_conn s)) s"

definition requeue :: "('c, 'i) task_env \<Rightarrow> string \<Rightarrow> ('c, 'i) task_store option \<Rightarrow> ('c, 'i) task_store option \<times> nat" where
  "requeue E worker_type = with_connector (requeue_type E worker_type) 0"

section \<open>Operations on a coherent store\<close>

text \<open>
  A store is well formed if its cache agrees with both local stores and its rows stand under
  their own keys.
\<close>

definition store_ok :: "('c \<Rightarrow> bool) \<Rightarrow> ('c \<Rightarrow> string \<Rightarrow> string option) \<Rightarrow> ('c, 'i) task_env \<Rightarrow> ('c, 'i) task_store \<Rightarrow> bool" where
  "store_ok up contents E s \<longleftrightarrow>
     coherent up contents (def_codec E) (\<lambda>_ _. None) (def_conn s) \<and>
     coherent up contents (task_codec E) (\<lambda>_ _. None) (task_conn s) \<and>
     distinct (map fst (ts_defs s)) \<and> list_all (\<lambda>(k, d). m_name d = k) (ts_defs s) \<and>
     distinct (map fst (ts_tasks s)) \<and> list_all (\<lambda>(k, i). m_task_id i = k) (ts_tasks s)"

lemma store_okD:
  assumes "store_ok up contents E s"
  shows "map_of (ts_defs s) k = Some d \<Longrightarrow> m_name d = k" "map_of (ts_tasks s) k = Some i \<Longrightarrow> m_task_id i = k"
    "(k, i) \<in> set (ts_tasks s) \<longleftrightarrow> map_of (ts_tasks s) k = Some i"
    "(k, d) \<in> set (ts_defs s) \<longleftrightarrow> map_of (ts_defs s) k = Some d"
  using assms by (auto simp: store_ok_def list_all_iff dest!: map_of_SomeD)

lemma no_db_laws: "db_laws T no_db (\<lambda>_ _. None)"
  by (simp add: db_laws_def no_db_def)

lemma rows_local [simp]:
  "rows data (def_conn s) = map_of (ts_defs s)" "rows data' (task_conn s) = map_of (ts_tasks s)"
  by (simp_all add: rows_def def_conn_def task_conn_def)

lemma cache_keys_differ: "cache_key (def_codec E) k \<noteq> cache_key (task_codec E) k'"
  by (simp add: cache_key_def def_codec_def task_codec_def)

lemma list_all_update:
  "list_all (\<lambda>(k, i). P k i) xs \<Longrightarrow> P k i \<Longrightarrow> list_all (\<lambda>(k, i). P k i) (AList.update k i xs)"
  by (induction xs) auto

context icache
begin

lemma find_local:
  assumes "coherent up contents T data c" "cn_db c = None"
  shows "find ops D T key c = (c, map_of (cn_local c) key)"
proof -
  have "get_fn ops (cache_key T key) (cn_cache c) =
      (cn_cache c, case contents (cn_cache c) (cache_key T key) of None \<Rightarrow> '''' | Some v \<Rightarrow> v)"
    using assms(1) get_law by (simp add: coherent_def)
  moreover have "map_of (cn_local c) key = Some v"
    if "contents (cn_cache c) (cache_key T key) = Some t" "t \<noteq> ''''" "json_read T t = Some v" for t v
    using assms that unfolding coherent_def rows_def by auto
  ultimately show ?thesis
    using assms(2) by (cases c) (auto simp: find_def Let_def split: option.splits)
qed

lemma find_rows:
  assumes "store_ok up contents E s" "e_ops E = ops"
  shows "find_def_row E key s = (s, map_of (ts_defs s) key)" "find_task_row E key s = (s, map_of (ts_tasks s) key)"
proof -
  have "find ops no_db (def_codec E) key (def_conn s) = (def_conn s, map_of (ts_defs s) key)"
    "find ops no_db (task_codec E) key (task_conn s) = (task_conn s, map_of (ts_tasks s) key)"
    using find_local [of "def_codec E" "\<lambda>_ _. None" "def_conn s" no_db key]
      find_local [of "task_codec E" "\<lambda>_ _. None" "task_conn s" no_db key] assms(1)
    by (simp_all add: store_ok_def) (simp_all add: def_conn_def task_conn_def)
  then show "find_def_row E key s = (s, map_of (ts_defs s) key)" "find_task_row E key s = (s, map_of (ts_tasks s) key)"
    by (simp_all add: find_def_row_def find_task_row_def assms(2)) (simp_all add: def_conn_def task_conn_def)
qed

lemma write_task_ok:
  assumes "store_ok up contents E s" "e_ops E = ops" "codec_sound (task_codec E)"
  obtains s' where "write_task n E i s = (s', True)" "store_ok up contents E s'" "ts_defs s' = ts_defs s"
    "ts_tasks s' = AList.update (m_task_id i) i (ts_tasks s)"
proof -
  let ?c = "task_conn s" and ?w = "write_through n ops no_db (task_codec E) i (task_conn s)"
  let ?k = "cache_key (task_codec E) (m_task_id i)"
  have pk: "pk_string (task_codec E) = m_task_id" by (simp add: task_codec_def)
  have w: "fst (snd ?w)" "cn_local (fst ?w) = AList.update (m_task_id i) i (ts_tasks s)" "cn_db (fst ?w) = None"
    "cn_cache (fst ?w) = fst (set_fn ops ?k (cache_value (task_codec E) i) (ts_cache s))"
    by (simp_all add: write_through_def task_conn_def pk)
  define s' where "s' = s\<lparr>ts_cache := cn_cache (fst ?w), ts_tasks := cn_local (fst ?w)\<rparr>"
  have s': "write_task n E i s = (s', True)"
    using w(1) by (cases ?w) (auto simp: write_task_def s'_def assms(2))
  have conn: "task_conn s' = fst ?w" using w(3) by (cases "fst ?w") (simp add: s'_def task_conn_def)
  have cd: "coherent up contents (def_codec E) (\<lambda>_ _. None) (def_conn s)"
    and ct: "coherent up contents (task_codec E) (\<lambda>_ _. None) ?c"
    using assms(1) by (simp_all add: store_ok_def)
  have up: "up (ts_cache s)" using cd by (simp add: coherent_def def_conn_def)
  have "coherent up contents (task_codec E) (\<lambda>_ _. None) (task_conn s')"
    unfolding conn using write_through_coherent [OF ct assms(3) no_db_laws w(1)] by blast
  moreover have "coherent up contents (def_codec E) (\<lambda>_ _. None) (def_conn s')"
    using cd set_law [OF up, of ?k "cache_value (task_codec E) i"] cache_keys_differ [of E]
    by (auto simp: coherent_def s'_def w(4) def_conn_def rows_def)
  ultimately have "store_ok up contents E s'"
    using assms(1) by (simp add: store_ok_def s'_def w(2) distinct_update list_all_update)
  then show ?thesis using that [OF s'] by (simp add: s'_def w(2))
qed

end

text \<open>
  What \<open>claim\<close> looks for, read off the rows: a scheduled task whose definition has the worker
  type and, if one is asked for, the domain.
\<close>

definition claimable :: "string \<Rightarrow> string option \<Rightarrow> ('c, 'i) task_store \<Rightarrow> 'i TaskInstance \<Rightarrow> bool" where
  "claimable worker_type domain s i \<longleftrightarrow> m_status i = SCHEDULED \<and>
     (case map_of (ts_defs s) (m_def_name i) of
        None \<Rightarrow> False
      | Some d \<Rightarrow> m_worker_type d = worker_type \<and> (domain = None \<or> m_domain d = domain))"

definition deadline :: "int \<Rightarrow> ('c, 'i) task_store \<Rightarrow> 'i TaskInstance \<Rightarrow> int" where
  "deadline now s i = now + (case map_of (ts_defs s) (m_def_name i) of None \<Rightarrow> 30000 | Some d \<Rightarrow> uint (m_timeout_ms d)) * 1000000"

definition taken :: "int \<Rightarrow> ('c, 'i) task_store \<Rightarrow> 'i TaskInstance \<Rightarrow> 'i TaskInstance" where
  "taken now s i = i\<lparr>m_status := IN_PROGRESS, m_deadline_at := Some (deadline now s i)\<rparr>"

lemma hd_sort_key:
  assumes "sort_key f xs = y # ys"
  shows "y \<in> set xs \<and> (\<forall>x \<in> set xs. f y \<le> f x)"
proof -
  have "sorted (map f (y # ys))" "set (y # ys) = set xs"
    using sorted_sort_key [of f xs] set_sort [of f xs] assms by simp_all
  then show ?thesis by auto
qed

context icache
begin

lemma candidates_ok:
  assumes "store_ok up contents E s" "e_ops E = ops"
  shows "candidates E w dm is s = (s, filter (claimable w dm s) is)"
  by (induction "is") (simp_all add: task_matches_def find_rows [OF assms] claimable_def split: option.splits)

lemma find_first_ok:
  assumes "store_ok up contents E s" "e_ops E = ops"
  shows "fst (find_first E w dm s) = s"
    and "snd (find_first E w dm s) = None \<longleftrightarrow> (\<forall>k i. map_of (ts_tasks s) k = Some i \<longrightarrow> \<not> claimable w dm s i)"
    and "snd (find_first E w dm s) = Some i \<Longrightarrow> map_of (ts_tasks s) (m_task_id i) = Some i \<and> claimable w dm s i \<and>
      (\<forall>k j. map_of (ts_tasks s) k = Some j \<longrightarrow> claimable w dm s j \<longrightarrow> m_seq i \<le> m_seq j)"
proof -
  let ?cs = "filter (claimable w dm s) (map snd (ts_tasks s))"
  have ff: "find_first E w dm s = (s, case sort_key m_seq ?cs of [] \<Rightarrow> None | i # _ \<Rightarrow> Some i)"
    by (simp add: find_first_def find_all_local_def task_conn_def candidates_ok [OF assms])
  then show "fst (find_first E w dm s) = s" by simp
  have key: "map_of (ts_tasks s) k = Some i \<Longrightarrow> m_task_id i = k" for k i
    using store_okD(2) [OF assms(1)] .
  have row: "i \<in> set ?cs \<longleftrightarrow> (\<exists>k. map_of (ts_tasks s) k = Some i) \<and> claimable w dm s i" for i
    using store_okD(3) [OF assms(1), of _ i] by (simp add: image_iff Bex_def)
  have "sort_key m_seq ?cs = [] \<longleftrightarrow> set ?cs = {}"
    by (metis set_empty set_sort)
  then have "snd (find_first E w dm s) = None \<longleftrightarrow> set ?cs = {}"
    unfolding ff by (cases "sort_key m_seq ?cs") simp_all
  also have "\<dots> \<longleftrightarrow> (\<forall>i. i \<notin> set ?cs)" by (simp only: set_eq_iff empty_iff simp_thms)
  also have "\<dots> \<longleftrightarrow> (\<forall>k i. map_of (ts_tasks s) k = Some i \<longrightarrow> \<not> claimable w dm s i)"
    unfolding row by blast
  finally show "snd (find_first E w dm s) = None \<longleftrightarrow> (\<forall>k i. map_of (ts_tasks s) k = Some i \<longrightarrow> \<not> claimable w dm s i)" .
  show "map_of (ts_tasks s) (m_task_id i) = Some i \<and> claimable w dm s i \<and>
      (\<forall>k j. map_of (ts_tasks s) k = Some j \<longrightarrow> claimable w dm s j \<longrightarrow> m_seq i \<le> m_seq j)"
    if found: "snd (find_first E w dm s) = Some i"
  proof -
    obtain ys where ys: "sort_key m_seq ?cs = i # ys"
      using found unfolding ff by (cases "sort_key m_seq ?cs") simp_all
    obtain k where k: "map_of (ts_tasks s) k = Some i" "claimable w dm s i"
      using conjunct1 [OF hd_sort_key [OF ys]] unfolding row by blast
    have "m_seq i \<le> m_seq j" if "map_of (ts_tasks s) k = Some j" "claimable w dm s j" for k j
      using conjunct2 [OF hd_sort_key [OF ys], THEN bspec, of j] that unfolding row by blast
    then show ?thesis using k key [OF k(1)] by blast
  qed
qed

lemma mark_claimed_ok:
  assumes "store_ok up contents E s" "e_ops E = ops" "codec_sound (task_codec E)"
  obtains s' where "mark_claimed E now i s = (s', Some (taken now s i))" "store_ok up contents E s'"
    "ts_defs s' = ts_defs s" "map_of (ts_tasks s') = (map_of (ts_tasks s))(m_task_id i \<mapsto> taken now s i)"
proof -
  obtain s' where s': "write_task ''update'' E (taken now s i) s = (s', True)" "store_ok up contents E s'"
    "ts_defs s' = ts_defs s" "ts_tasks s' = AList.update (m_task_id (taken now s i)) (taken now s i) (ts_tasks s)"
    using write_task_ok [OF assms] by blast
  have "mark_claimed E now i s = (s', Some (taken now s i))"
    using s'(1) by (simp add: mark_claimed_def find_rows [OF assms(1,2)] taken_def deadline_def)
  then show ?thesis using that s'(2-4) by (simp add: taken_def update_conv')
qed

end

section \<open>The queue of a worker type\<close>

text \<open>The keys of the rows that a claim may take.\<close>

definition ready_keys :: "string \<Rightarrow> string option \<Rightarrow> ('c, 'i) task_store \<Rightarrow> string set" where
  "ready_keys w dm s = {k. \<exists>i. map_of (ts_tasks s) k = Some i \<and> claimable w dm s i}"

lemma length_filter_rows:
  "distinct (map fst xs) \<Longrightarrow> length (filter P (map snd xs)) = card {k. \<exists>i. map_of xs k = Some i \<and> P i}"
proof (induction xs)
  case (Cons x xs)
  obtain k i where x: "x = (k, i)" by (cases x)
  let ?A = "{k. \<exists>i. map_of xs k = Some i \<and> P i}"
  have fin: "finite ?A" by (rule finite_subset [OF _ finite_dom_map_of [of xs]]) auto
  have k: "map_of xs k = None" using Cons.prems x by (simp add: map_of_eq_None_iff)
  then have "{k. \<exists>i. map_of (x # xs) k = Some i \<and> P i} = (if P i then insert k ?A else ?A)" "k \<notin> ?A"
    using x by auto
  then show ?case using Cons fin x by simp
qed simp

lemma finite_ready_keys: "finite (ready_keys w dm s)"
  by (rule finite_subset [OF _ finite_dom_map_of [of "ts_tasks s"]]) (auto simp: ready_keys_def)

lemma size_row_card:
  assumes "store_ok up contents E s"
  shows "size_row w s = card (ready_keys w None s)"
proof -
  have "n \<in> set (type_names w s) \<longleftrightarrow> (\<exists>d. map_of (ts_defs s) n = Some d \<and> m_worker_type d = w)" for n
  proof -
    have "n \<in> set (type_names w s) \<longleftrightarrow> (\<exists>k d. map_of (ts_defs s) k = Some d \<and> m_worker_type d = w \<and> m_name d = n)"
      using store_okD(4) [OF assms] by (auto simp: type_names_def find_all_local_def def_conn_def image_iff Bex_def)
    then show ?thesis using store_okD(1) [OF assms] by blast
  qed
  then have "size_row w s = length (filter (claimable w None s) (map snd (ts_tasks s)))"
    by (auto simp: size_row_def find_all_local_def task_conn_def claimable_def split: option.splits
        intro!: arg_cong [where f = length] filter_cong)
  moreover have "distinct (map fst (ts_tasks s))" using assms by (simp add: store_ok_def)
  ultimately show ?thesis using length_filter_rows [of "ts_tasks s" "claimable w None s"] by (simp only: ready_keys_def)
qed

lemma ready_keys_taken:
  assumes "map_of (ts_tasks s) (m_task_id i) = Some i" "ts_defs s' = ts_defs s"
    "map_of (ts_tasks s') = (map_of (ts_tasks s))(m_task_id i \<mapsto> taken now s i)"
  shows "ready_keys w dm s' = ready_keys w dm s - {m_task_id i}"
  using assms by (auto simp: ready_keys_def claimable_def taken_def)

context icache
begin

lemma claim_task_ok:
  assumes "store_ok up contents E s" "e_ops E = ops" "codec_sound (task_codec E)"
  shows "ready_keys w dm s = {} \<and> claim_task E now w dm s = (s, None) \<or>
    (\<exists>i s'. map_of (ts_tasks s) (m_task_id i) = Some i \<and> claimable w dm s i \<and>
       (\<forall>k j. map_of (ts_tasks s) k = Some j \<longrightarrow> claimable w dm s j \<longrightarrow> m_seq i \<le> m_seq j) \<and>
       claim_task E now w dm s = (s', Some (taken now s i)) \<and> store_ok up contents E s' \<and> ts_defs s' = ts_defs s \<and>
       map_of (ts_tasks s') = (map_of (ts_tasks s))(m_task_id i \<mapsto> taken now s i))"
proof (cases "snd (find_first E w dm s)")
  case None
  then have ff: "find_first E w dm s = (s, None)" using find_first_ok(1) [OF assms(1,2)] by (simp add: prod_eq_iff)
  have "ready_keys w dm s = {}"
    using None find_first_ok(2) [OF assms(1,2)] unfolding ready_keys_def by blast
  then show ?thesis by (simp add: claim_task_def ff)
next
  case (Some i)
  then have ff: "find_first E w dm s = (s, Some i)" using find_first_ok(1) [OF assms(1,2)] by (simp add: prod_eq_iff)
  obtain s' where s': "mark_claimed E now i s = (s', Some (taken now s i))" "store_ok up contents E s'"
    "ts_defs s' = ts_defs s" "map_of (ts_tasks s') = (map_of (ts_tasks s))(m_task_id i \<mapsto> taken now s i)"
    using mark_claimed_ok [OF assms] by blast
  then have "claim_task E now w dm s = (s', Some (taken now s i))" by (simp add: claim_task_def ff)
  then show ?thesis using s' find_first_ok(3) [OF assms(1,2) Some] by blast
qed

lemma enqueue_row_ok:
  assumes "store_ok up contents E s" "e_ops E = ops" "codec_sound (task_codec E)"
  obtains s' where "enqueue_row E task_id task_type input s = (s', Some task_id)" "store_ok up contents E s'"
    "ts_defs s' = ts_defs s" "map_of (ts_tasks s') =
      (map_of (ts_tasks s))(task_id \<mapsto> (init_task input)\<lparr>m_task_id := task_id, m_def_name := task_type\<rparr>)"
proof -
  let ?i = "(init_task input)\<lparr>m_task_id := task_id, m_def_name := task_type, m_status := SCHEDULED\<rparr>"
  obtain s' where s': "write_task ''insert'' E ?i s = (s', True)" "store_ok up contents E s'"
    "ts_defs s' = ts_defs s" "ts_tasks s' = AList.update (m_task_id ?i) ?i (ts_tasks s)"
    using write_task_ok [OF assms] by blast
  moreover have "?i = (init_task input)\<lparr>m_task_id := task_id, m_def_name := task_type\<rparr>" by (simp add: init_task_def)
  ultimately show ?thesis using that by (simp add: enqueue_row_def update_conv')
qed

lemma submit_row_ok:
  assumes "store_ok up contents E s" "e_ops E = ops" "codec_sound (task_codec E)"
  obtains s' where "submit_row E k success outp s = (s', map_of (ts_tasks s) k \<noteq> None)" "store_ok up contents E s'"
    "ts_defs s' = ts_defs s" "map_of (ts_tasks s') = (map_of (ts_tasks s))(k := map_option
      (\<lambda>i. i\<lparr>m_status := (if success then COMPLETED else FAILED), m_output_data := outp\<rparr>) (map_of (ts_tasks s) k))"
proof (cases "map_of (ts_tasks s) k")
  case None
  then have "submit_row E k success outp s = (s, False)"
    by (simp add: submit_row_def find_rows [OF assms(1,2)])
  then show ?thesis using that [of s] None assms(1) by (simp add: fun_upd_idem)
next
  case (Some i)
  let ?i = "i\<lparr>m_status := (if success then COMPLETED else FAILED), m_output_data := outp\<rparr>"
  obtain s' where s': "write_task ''update'' E ?i s = (s', True)" "store_ok up contents E s'"
    "ts_defs s' = ts_defs s" "ts_tasks s' = AList.update (m_task_id ?i) ?i (ts_tasks s)"
    using write_task_ok [OF assms] by blast
  then show ?thesis
    using that [of s'] Some store_okD(2) [OF assms(1) Some]
    by (simp add: submit_row_def find_rows [OF assms(1,2)] update_conv')
qed

end

section \<open>Requeueing\<close>

definition stalled :: "string list \<Rightarrow> 'i TaskInstance \<Rightarrow> bool" where
  "stalled names i \<longleftrightarrow> m_status i = IN_PROGRESS \<and> m_def_name i \<in> set names"

definition requeued :: "string list \<Rightarrow> 'i TaskInstance \<Rightarrow> 'i TaskInstance" where
  "requeued names i = (if stalled names i then i\<lparr>m_status := SCHEDULED\<rparr> else i)"

context icache
begin

lemma requeue_rows_ok:
  assumes "e_ops E = ops" "codec_sound (task_codec E)"
  shows "store_ok up contents E s \<Longrightarrow> distinct (map m_task_id is) \<Longrightarrow>
    \<exists>s' n. requeue_rows E names is s = (s', n) \<and> store_ok up contents E s' \<and> ts_defs s' = ts_defs s \<and>
      n = length (filter (stalled names) is) \<and>
      (\<forall>k. map_of (ts_tasks s') k = (case List.find (\<lambda>i. m_task_id i = k \<and> stalled names i) is of
         None \<Rightarrow> map_of (ts_tasks s) k | Some i \<Rightarrow> Some (i\<lparr>m_status := SCHEDULED\<rparr>)))"
proof (induction "is" arbitrary: s)
  case (Cons i "is")
  show ?case
  proof (cases "stalled names i")
    case True
    let ?i = "i\<lparr>m_status := SCHEDULED\<rparr>"
    obtain s1 where s1: "write_task ''update'' E ?i s = (s1, True)" "store_ok up contents E s1"
      "ts_defs s1 = ts_defs s" "ts_tasks s1 = AList.update (m_task_id ?i) ?i (ts_tasks s)"
      using write_task_ok [OF Cons.prems(1) assms] by blast
    have "distinct (map m_task_id is)" using Cons.prems(2) by simp
    from Cons.IH [OF s1(2) this] obtain s' n where s': "requeue_rows E names is s1 = (s', n)"
      "store_ok up contents E s'" "ts_defs s' = ts_defs s1" "n = length (filter (stalled names) is)"
      "\<forall>k. map_of (ts_tasks s') k = (case List.find (\<lambda>i. m_task_id i = k \<and> stalled names i) is of
         None \<Rightarrow> map_of (ts_tasks s1) k | Some i \<Rightarrow> Some (i\<lparr>m_status := SCHEDULED\<rparr>))" by blast
    have "m_task_id j \<noteq> m_task_id i" if "j \<in> set is" for j
      using Cons.prems(2) imageI [OF that, of m_task_id] by auto
    then have "List.find (\<lambda>j. m_task_id j = m_task_id i \<and> stalled names j) is = None"
      by (auto simp: find_None_iff)
    then show ?thesis
      using True s' s1 by (simp add: stalled_def [symmetric]) (simp add: update_conv' split: option.split)
  next
    case False
    then show ?thesis using Cons.IH [OF Cons.prems(1)] Cons.prems(2) by (simp add: stalled_def [symmetric])
  qed
qed simp

lemma requeue_type_ok:
  assumes "store_ok up contents E s" "e_ops E = ops" "codec_sound (task_codec E)"
  obtains s' n where "requeue_type E w s = (s', n)" "store_ok up contents E s'" "ts_defs s' = ts_defs s"
    "n = length (filter (stalled (type_names w s)) (map snd (ts_tasks s)))"
    "map_of (ts_tasks s') = (\<lambda>k. map_option (requeued (type_names w s)) (map_of (ts_tasks s) k))"
proof -
  let ?is = "map snd (ts_tasks s)" and ?N = "type_names w s"
  have ids: "map m_task_id ?is = map fst (ts_tasks s)"
    using assms(1) by (auto simp: store_ok_def list_all_iff)
  have "distinct (map m_task_id ?is)" unfolding ids using assms(1) by (simp only: store_ok_def)
  from requeue_rows_ok [OF assms(2,3,1) this] obtain s' n where s': "requeue_rows E ?N ?is s = (s', n)"
    "store_ok up contents E s'" "ts_defs s' = ts_defs s" "n = length (filter (stalled ?N) ?is)"
    "\<forall>k. map_of (ts_tasks s') k = (case List.find (\<lambda>i. m_task_id i = k \<and> stalled ?N i) ?is of
       None \<Rightarrow> map_of (ts_tasks s) k | Some i \<Rightarrow> Some (i\<lparr>m_status := SCHEDULED\<rparr>))" by blast
  have row: "i \<in> set ?is \<longleftrightarrow> map_of (ts_tasks s) (m_task_id i) = Some i" for i
    using store_okD(2,3) [OF assms(1)] by (force simp: image_iff Bex_def)
  have "map_of (ts_tasks s') k = map_option (requeued ?N) (map_of (ts_tasks s) k)" for k
  proof (cases "List.find (\<lambda>i. m_task_id i = k \<and> stalled ?N i) ?is")
    case None
    then have "\<not> stalled ?N i" if "map_of (ts_tasks s) k = Some i" for i
      using that row [of i] store_okD(2) [OF assms(1) that] by (auto simp: find_None_iff)
    then show ?thesis using s'(5) None by (cases "map_of (ts_tasks s) k") (simp_all add: requeued_def)
  next
    case (Some i)
    then obtain n where "n < length ?is" "m_task_id (?is ! n) = k \<and> stalled ?N (?is ! n)" "i = ?is ! n"
      unfolding find_Some_iff by blast
    then have "i \<in> set ?is \<and> m_task_id i = k \<and> stalled ?N i" using nth_mem by blast
    then show ?thesis using s'(5) Some row [of i] by (auto simp: requeued_def)
  qed
  then have rows: "map_of (ts_tasks s') = (\<lambda>k. map_option (requeued ?N) (map_of (ts_tasks s) k))" by (rule ext)
  have "requeue_type E w s = (s', n)" using s'(1) by (simp add: requeue_type_def find_all_local_def task_conn_def)
  from that [OF this s'(2-4) rows] show ?thesis .
qed

end

section \<open>Runs of the store\<close>

text \<open>
  A run of the store's operations. Next to the state a step gives the identifiers that it
  claimed and those that it put back. An enqueued task has a fresh identifier, as a random UUID
  has.
\<close>

datatype 'i store_op =
    Enqueue string string 'i
  | Claim int string "string option"
  | Submit string bool "(string \<times> string) list"
  | Requeue string

fun op_fresh :: "'i store_op \<Rightarrow> ('c, 'i) task_store \<Rightarrow> bool" where
  "op_fresh (Enqueue k t x) s \<longleftrightarrow> map_of (ts_tasks s) k = None"
| "op_fresh _ s \<longleftrightarrow> True"

fun store_step :: "('c, 'i) task_env \<Rightarrow> 'i store_op \<Rightarrow> ('c, 'i) task_store \<Rightarrow> ('c, 'i) task_store \<times> string list \<times> string list" where
  "store_step E (Enqueue k t x) s = (fst (enqueue_row E k t x s), [], [])"
| "store_step E (Claim now w dm) s =
     (let (s', r) = claim_task E now w dm s in (s', case r of None \<Rightarrow> [] | Some i \<Rightarrow> [m_task_id i], []))"
| "store_step E (Submit k success outp) s = (fst (submit_row E k success outp s), [], [])"
| "store_step E (Requeue w) s =
     (fst (requeue_type E w s), [],
      map m_task_id (filter (stalled (type_names w s)) (map snd (ts_tasks s))))"

inductive store_run ::
  "('c, 'i) task_env \<Rightarrow> ('c, 'i) task_store \<Rightarrow> 'i store_op list \<Rightarrow> string list \<Rightarrow> string list \<Rightarrow> ('c, 'i) task_store \<Rightarrow> bool" for E where
  run_Nil: "store_run E s [] [] [] s"
| run_Cons: "op_fresh op s \<Longrightarrow> store_step E op s = (s1, cs, rs) \<Longrightarrow> store_run E s1 os cs' rs' s' \<Longrightarrow>
     store_run E s (op # os) (cs @ cs') (rs @ rs') s'"

text \<open>The same as a function, None where an identifier is not fresh.\<close>

fun run_ops :: "('c, 'i) task_env \<Rightarrow> 'i store_op list \<Rightarrow> ('c, 'i) task_store \<Rightarrow> (('c, 'i) task_store \<times> string list \<times> string list) option" where
  "run_ops E [] s = Some (s, [], [])"
| "run_ops E (op # os) s =
     (if op_fresh op s
      then let (s1, cs, rs) = store_step E op s in map_option (map_prod id (map_prod ((@) cs) ((@) rs))) (run_ops E os s1)
      else None)"

lemma run_ops_run: "run_ops E os s = Some (s', cs, rs) \<Longrightarrow> store_run E s os cs rs s'"
  by (induction E os s arbitrary: cs rs rule: run_ops.induct)
    (auto simp: Let_def intro: store_run.intros split: if_splits prod.splits)

text \<open>A task that a claim can still take, or that is still to come.\<close>

definition waiting :: "('c, 'i) task_store \<Rightarrow> string \<Rightarrow> bool" where
  "waiting s k \<longleftrightarrow> (\<forall>i. map_of (ts_tasks s) k = Some i \<longrightarrow> m_status i = SCHEDULED)"

context icache
begin

lemma store_step_ok:
  assumes "store_ok up contents E s" "e_ops E = ops" "codec_sound (task_codec E)" "op_fresh op s"
    "store_step E op s = (s1, cs, rs)"
  shows "store_ok up contents E s1 \<and>
    count_list cs k + of_bool (waiting s1 k) \<le> count_list rs k + of_bool (waiting s k)"
proof (cases op)
  case (Enqueue j t x)
  obtain s' where "enqueue_row E j t x s = (s', Some j)" "store_ok up contents E s'"
    "map_of (ts_tasks s') = (map_of (ts_tasks s))(j \<mapsto> (init_task x)\<lparr>m_task_id := j, m_def_name := t\<rparr>)"
    using enqueue_row_ok [OF assms(1-3)] by metis
  then show ?thesis using assms(4,5) Enqueue by (auto simp: waiting_def)
next
  case (Claim now w dm)
  from claim_task_ok [OF assms(1-3), of w dm now] show ?thesis
  proof (elim disjE exE conjE)
    assume "claim_task E now w dm s = (s, None)"
    then show ?thesis using assms(1,5) Claim by simp
  next
    fix i s'
    assume "claim_task E now w dm s = (s', Some (taken now s i))" "store_ok up contents E s'" "claimable w dm s i"
      "map_of (ts_tasks s) (m_task_id i) = Some i"
      "map_of (ts_tasks s') = (map_of (ts_tasks s))(m_task_id i \<mapsto> taken now s i)"
    then show ?thesis using assms(5) Claim by (auto simp: waiting_def taken_def claimable_def)
  qed
next
  case (Submit j success outp)
  obtain s' where "submit_row E j success outp s = (s', map_of (ts_tasks s) j \<noteq> None)" "store_ok up contents E s'"
    "map_of (ts_tasks s') = (map_of (ts_tasks s))(j := map_option
      (\<lambda>i. i\<lparr>m_status := (if success then COMPLETED else FAILED), m_output_data := outp\<rparr>) (map_of (ts_tasks s) j))"
    using submit_row_ok [OF assms(1-3)] by metis
  then show ?thesis using assms(5) Submit by (cases "map_of (ts_tasks s) j") (auto simp: waiting_def)
next
  case (Requeue w)
  let ?N = "type_names w s"
  obtain s' n where s': "requeue_type E w s = (s', n)" "store_ok up contents E s'"
    "map_of (ts_tasks s') = (\<lambda>k. map_option (requeued ?N) (map_of (ts_tasks s) k))"
    using requeue_type_ok [OF assms(1-3)] by metis
  have "k \<in> set rs" if "waiting s' k" "\<not> waiting s k"
  proof -
    from that obtain i where i: "map_of (ts_tasks s) k = Some i" "m_status i \<noteq> SCHEDULED"
      by (auto simp: waiting_def)
    then have "stalled ?N i" using that(1) s'(3) by (auto simp: waiting_def requeued_def split: if_splits)
    moreover have "i \<in> set (map snd (ts_tasks s))" "m_task_id i = k"
      using i(1) store_okD(2) [OF assms(1) i(1)] by (auto dest: map_of_SomeD intro!: image_eqI [where x = "(k, i)"])
    ultimately have "k \<in> m_task_id ` set (filter (stalled ?N) (map snd (ts_tasks s)))" by force
    moreover have "rs = map m_task_id (filter (stalled ?N) (map snd (ts_tasks s)))"
      using assms(5) Requeue by simp
    ultimately show ?thesis by (simp only: set_map)
  qed
  moreover have "1 \<le> count_list rs k" if "k \<in> set rs"
    using that count_list_0_iff [of rs k] by (cases "count_list rs k") simp_all
  ultimately have "of_bool (waiting s' k) \<le> count_list rs k + (of_bool (waiting s k) :: nat)"
    by (cases "waiting s' k"; cases "waiting s k") simp_all
  then show ?thesis using assms(5) Requeue s' by auto
qed

lemma store_run_claims:
  assumes "e_ops E = ops" "codec_sound (task_codec E)"
  shows "store_run E s os cs rs s' \<Longrightarrow> store_ok up contents E s \<Longrightarrow>
    count_list cs k + of_bool (waiting s' k) \<le> count_list rs k + of_bool (waiting s k)"
proof (induction rule: store_run.induct)
  case (run_Cons op s s1 cs rs os cs' rs' s')
  have "store_ok up contents E s1"
    "count_list cs k + of_bool (waiting s1 k) \<le> count_list rs k + of_bool (waiting s k)"
    using store_step_ok [OF run_Cons.prems assms run_Cons.hyps(1,2)] by blast+
  then show ?case using run_Cons.IH by simp
qed simp

end

section \<open>Properties of the store\<close>

text \<open>
  C11: a claim takes a task exactly if there is one to take. On a well-formed store over the local
  cache, either no scheduled task has a definition of the worker type and the domain, and the
  claim delivers nothing and changes nothing, or the claim delivers the text of such a task with
  the least sequence number, in progress and with the deadline of its definition's timeout; its row
  alone changes, and the queue of the worker type is one shorter.
\<close>
theorem claim_takes_first_ready:
  assumes "store_ok (\<lambda>_. True) (\<lambda>c. map_of (m_store c)) E s" "e_ops E = local_ops" "codec_sound (task_codec E)"
  shows "ready_keys w dm s = {} \<and> claim E now w dm (Some s) = (Some s, None) \<or>
    (\<exists>i s'. map_of (ts_tasks s) (m_task_id i) = Some i \<and> claimable w dm s i \<and>
       (\<forall>k j. map_of (ts_tasks s) k = Some j \<longrightarrow> claimable w dm s j \<longrightarrow> m_seq i \<le> m_seq j) \<and>
       claim E now w dm (Some s) = (Some s', Some (e_serialize E (taken now s i))) \<and>
       ts_defs s' = ts_defs s \<and> map_of (ts_tasks s') = (map_of (ts_tasks s))(m_task_id i \<mapsto> taken now s i) \<and>
       snd (queue_size w (Some s)) = Suc (snd (queue_size w (Some s'))))"
  using local_cache.claim_task_ok [OF assms, of w dm now]
proof (elim disjE exE conjE)
  fix i s'
  assume i: "map_of (ts_tasks s) (m_task_id i) = Some i" "claimable w dm s i"
      "\<forall>k j. map_of (ts_tasks s) k = Some j \<longrightarrow> claimable w dm s j \<longrightarrow> m_seq i \<le> m_seq j"
    and s': "claim_task E now w dm s = (s', Some (taken now s i))"
      "store_ok (\<lambda>_. True) (\<lambda>c. map_of (m_store c)) E s'" "ts_defs s' = ts_defs s"
      "map_of (ts_tasks s') = (map_of (ts_tasks s))(m_task_id i \<mapsto> taken now s i)"
  have "m_task_id i \<in> ready_keys w None s"
    using i(1,2) by (auto simp: ready_keys_def claimable_def split: option.splits)
  then have "card (ready_keys w None s) = Suc (card (ready_keys w None s'))"
    unfolding ready_keys_taken [OF i(1) s'(3,4)] by (rule card.remove [OF finite_ready_keys, THEN trans]) simp
  then have "snd (queue_size w (Some s)) = Suc (snd (queue_size w (Some s')))"
    by (simp add: queue_size_def with_connector_def size_row_card [OF assms(1)] size_row_card [OF s'(2)])
  moreover have "claim E now w dm (Some s) = (Some s', Some (e_serialize E (taken now s i)))"
    using s'(1) by (simp add: claim_def with_connector_def)
  ultimately show ?thesis using i s'(3,4) by blast
qed (simp add: claim_def with_connector_def)

text \<open>
  A connector over the local cache with no JSON format registered, and stores of one definition.
\<close>

definition sample_env :: "(local_cache, nat) task_env" where
  "sample_env = \<lparr>e_ops = local_ops, e_def_write = (\<lambda>_. ''{}''), e_def_read = (\<lambda>_. None), e_task_write = (\<lambda>_. ''{}''),
     e_task_read = (\<lambda>_. None), e_serialize = m_task_id\<rparr>"

definition sample_store :: "(string \<times> nat TaskInstance) list \<Rightarrow> (local_cache, nat) task_store" where
  "sample_store ts = \<lparr>ts_cache = \<lparr>m_store = []\<rparr>,
     ts_defs = [(''mail'', \<lparr>m_name = ''mail'', m_worker_type = ''echo'', m_domain = None, m_timeout_ms = 5\<rparr>)], ts_tasks = ts\<rparr>"

definition sample_task :: "string \<Rightarrow> nat TaskInstance" where
  "sample_task k = (init_task 0)\<lparr>m_task_id := k, m_def_name := ''mail''\<rparr>"

lemmas sample_defs = sample_env_def sample_store_def sample_task_def init_task_def

lemma sample_env_ok: "e_ops sample_env = local_ops" "codec_sound (task_codec sample_env)"
  by (simp_all add: sample_env_def codec_sound_def task_codec_def)

lemma sample_store_ok:
  assumes "distinct (map fst ts)" "list_all (\<lambda>(k, i). m_task_id i = k) ts"
  shows "store_ok (\<lambda>_. True) (\<lambda>c. map_of (m_store c)) sample_env (sample_store ts)"
  using assms by (simp add: store_ok_def coherent_def sample_store_def def_conn_def task_conn_def)

lemmas store_eval = enqueue_row_def claim_task_def find_first_def task_matches_def mark_claimed_def submit_row_def
  find_def_row_def find_task_row_def write_task_def find_def write_through_def find_all_local_def def_conn_def
  task_conn_def def_codec_def task_codec_def local_ops_def local_get_def local_set_def cache_key_def cache_value_def Let_def

theorem claim_takes_first_ready_witness:
  "\<exists>s'. claim sample_env 0 ''echo'' None (Some (sample_store [(''a'', sample_task ''a'')])) = (Some s', Some ''a'') \<and>
     snd (queue_size ''echo'' (Some s')) = 0"
proof -
  let ?s = "sample_store [(''a'', sample_task ''a'')]"
  have ok: "store_ok (\<lambda>_. True) (\<lambda>c. map_of (m_store c)) sample_env ?s"
    by (rule sample_store_ok) (simp_all add: sample_task_def)
  have one: "ready_keys ''echo'' None ?s = {''a''}"
    by (auto simp: ready_keys_def claimable_def sample_defs split: if_splits)
  then have "snd (queue_size ''echo'' (Some ?s)) = 1"
    by (simp add: queue_size_def with_connector_def size_row_card [OF ok])
  then show ?thesis
    using claim_takes_first_ready [OF ok sample_env_ok, of "''echo''" None 0] one
    by (auto simp: sample_env_def taken_def sample_store_def split: if_splits)
qed



section \<open>Where the store differs from its documentation\<close>

text \<open>
  A claim is documented to take the oldest task. No enqueued task gets a sequence number, so all
  have number 0, and among them the iteration order of the store decides: here the later task
  comes first.
\<close>

lemma newer_task_claimed_first:
  "let s = fst (enqueue_row sample_env ''b'' ''mail'' 2 (fst (enqueue_row sample_env ''a'' ''mail'' 1 (sample_store []))))
   in map (m_seq \<circ> snd) (ts_tasks s) = [0, 0] \<and>
      map_option m_task_id (snd (claim_task sample_env 0 ''echo'' None (s\<lparr>ts_tasks := rev (ts_tasks s)\<rparr>))) = Some ''b''"
  by (simp add: store_eval sample_defs)

text \<open>
  A result is documented to be recorded for a claimed task. It is recorded whatever the state of
  the task is: a late failure replaces the result of a completed task.
\<close>

lemma late_result_overwrites:
  "let s = sample_store [(''a'', (sample_task ''a'')\<lparr>m_status := COMPLETED, m_output_data := [(''r'', ''1'')]\<rparr>)];
       (s', ok) = submit_row sample_env ''a'' False [] s
   in ok \<and> map_option m_status (map_of (ts_tasks s') ''a'') = Some FAILED \<and>
      map_option m_output_data (map_of (ts_tasks s') ''a'') = Some []"
  by (simp add: store_eval sample_defs)

text \<open>
  With a database the lookup and the update of a claim are separate operations of the
  connector's queue. If two claims look before either updates, both get the same task.
\<close>

lemma interleaved_claims_share_a_task:
  "let s = sample_store [(''a'', sample_task ''a'')];
       (s1, first) = find_first sample_env ''echo'' None s;
       (s2, second) = find_first sample_env ''echo'' None s1;
       (s3, r1) = mark_claimed sample_env 0 (the first) s2;
       (s4, r2) = mark_claimed sample_env 0 (the second) s3
   in map_option m_task_id r1 = Some ''a'' \<and> map_option m_task_id r2 = Some ''a''"
  by (simp add: store_eval sample_defs)

text \<open>The condition of a claim's query; the worker type and the domain are spliced in as they are.\<close>

definition claim_where :: "string \<Rightarrow> string option \<Rightarrow> string" where
  "claim_where worker_type domain =
     ''task_instances.status = '' @ quoted ''SCHEDULED'' @ '' AND task_definitions.worker_type = '' @ quoted worker_type @
     (case domain of None \<Rightarrow> '''' | Some d \<Rightarrow> '' AND task_definitions.domain = '' @ quoted d)"

lemma claim_where_leaves_literal:
  "sql_literals (claim_where (''x'' @ [quote] @ '' OR '' @ [quote] @ ''1'' @ [quote] @ ''='' @ [quote] @ ''1'') None) =
   Some [''SCHEDULED'', ''x'', ''1'', ''1'']"
  by (simp add: claim_where_def quoted_def sql_literals_def sql_tokens_def)

end
