(* ===== verification/Http2.thy ===== *)
theory Http2
  imports Abi
begin

text \<open>
  The life cycle of the HTTP/2 plugin, plugins/protocol/http2/bin/http2.cc, with the
  configuration that \<open>Http2Protocol\<close> of include/io/layer/http2/plugin.cppm reads. The server and
  the socket flow are components of their own; here they exist or not, and whether their
  construction throws is an argument.
\<close>

section \<open>Configuration\<close>

text \<open>The fields of \<open>PluginConfig\<close>, filled in order: a later field replaces an earlier one.\<close>

definition plugin_fields :: "config \<Rightarrow> (string \<times> string) list" where
  "plugin_fields cfg = fold (\<lambda>(k, v). AList.update k v) cfg []"

record protocol_config =
  pc_host :: string
  pc_port :: "16 word"
  pc_cert :: string
  pc_key :: string

text \<open>A field that is absent reads as empty, and each of the four has to be there.\<close>

definition field :: "(string \<times> string) list \<Rightarrow> string \<Rightarrow> string" where
  "field fs key = (case map_of fs key of None \<Rightarrow> '''' | Some v \<Rightarrow> v)"

text \<open>The constructor of \<open>Http2Protocol\<close>; the error is the text of the exception.\<close>

definition http2_protocol :: "(string \<times> string) list \<Rightarrow> string + protocol_config" where
  "http2_protocol fs =
     (if field fs ''host'' = '''' then Inl ''host is required''
      else if field fs ''cert'' = '''' then Inl ''cert is required''
      else if field fs ''key'' = '''' then Inl ''key is required''
      else if field fs ''port'' = '''' then Inl ''port is required''
      else Inr \<lparr>pc_host = field fs ''host'',
                pc_port = (case from_chars_unsigned 16 (field fs ''port'') of None \<Rightarrow> 8080 | Some n \<Rightarrow> word_of_int n),
                pc_cert = field fs ''cert'', pc_key = field fs ''key''\<rparr>)"

section \<open>The plugin\<close>

text \<open>What the server was given so far.\<close>

record server =
  sv_built :: bool
  sv_group :: ptr
  sv_executor :: bool

definition new_server :: server where
  "new_server = \<lparr>sv_built = False, sv_group = 0, sv_executor = False\<rparr>"

text \<open>The socket flow holds the address it listens on.\<close>

record http2 =
  m_server :: "server option"
  m_socket_flow :: "(string \<times> 16 word) option"
  m_router_ctx :: ptr
  m_contract_group :: ptr
  m_contract_registry :: ptr
  m_leverager :: ptr
  m_bind_host :: string
  m_bind_port :: "16 word"

definition init_http2 :: http2 where
  "init_http2 = \<lparr>m_server = None, m_socket_flow = None, m_router_ctx = 0, m_contract_group = 0, m_contract_registry = 0,
     m_leverager = 0, m_bind_host = '''', m_bind_port = 0\<rparr>"

definition presence :: "ptr \<Rightarrow> string" where
  "presence p = (if p = 0 then ''missing'' else ''ok'')"

text \<open>\<open>on_load\<close>: the new state, whether the constructor of the protocol threw, and the effects.\<close>

definition http2_on_load :: "host_callbacks \<Rightarrow> config \<Rightarrow> http2 \<Rightarrow> (http2 \<times> bool) \<times> effects" where
  "http2_on_load host cfg p =
     (let fs = plugin_fields cfg
      in if map_of fs ''host'' = None then ((p, False), [])
         else case http2_protocol fs of
           Inl _ \<Rightarrow> ((p, True), [])
         | Inr protocol \<Rightarrow>
             (let p = p\<lparr>m_server := Some new_server\<rparr>;
                  p = (if router_ctx host \<noteq> 0 then p\<lparr>m_router_ctx := router_ctx host\<rparr> else p);
                  p = p\<lparr>m_contract_group := controller_ctx host, m_contract_registry := registry_ctx host,
                        m_leverager := leverager_ctx host\<rparr>
              in if m_contract_group p = 0 \<or> m_contract_registry p = 0 \<or> m_leverager p = 0
                 then ((p, False),
                       [Log ERROR ''http2'',
                        Publish ''http2.load.dependency_missing''
                          [(''contract_group'', presence (m_contract_group p)),
                           (''contract_registry'', presence (m_contract_registry p)),
                           (''leverager'', presence (m_leverager p))]])
                 else ((p\<lparr>m_bind_host := pc_host protocol, m_bind_port := pc_port protocol\<rparr>, False), [])))"

text \<open>
  What the code that \<open>on_ready\<close> calls does: whether building the server, creating its executor
  contract, constructing the flow and building the flow return without an exception.
\<close>

record start_outcome =
  so_build :: bool
  so_executor :: bool
  so_flow :: bool
  so_listen :: bool

definition address_payload :: "http2 \<Rightarrow> payload" where
  "address_payload p = [(''host'', m_bind_host p), (''port'', show_nat (unat (m_bind_port p)))]"

definition start_failed :: "http2 \<Rightarrow> effects" where
  "start_failed p = [Log ERROR ''http2'', Publish ''http2.server.start_failed'' (address_payload p)]"

text \<open>
  The end of \<open>on_ready\<close>: the announcement, then the flow, for which the leverager and the group
  are dereferenced.
\<close>

definition start_flow :: "start_outcome \<Rightarrow> http2 \<Rightarrow> (http2 \<times> effects) may_ub" where
  "start_flow B p =
     (let announced = [Log IMPORTANT ''http2'', Publish ''http2.server.listening'' (address_payload p)]
      in if m_leverager p = 0 \<or> m_contract_group p = 0 then Inl Null_dereference
         else if \<not> so_flow B then Inr (p\<lparr>m_socket_flow := None\<rparr>, announced @ start_failed p)
         else let p = p\<lparr>m_socket_flow := Some (m_bind_host p, m_bind_port p)\<rparr>
              in Inr (p, announced @ (if so_listen B then [] else start_failed p)))"

definition http2_on_ready :: "start_outcome \<Rightarrow> http2 \<Rightarrow> (http2 \<times> effects) may_ub" where
  "http2_on_ready B p =
     (case m_server p of
        None \<Rightarrow> Inr (p, [])
      | Some sv \<Rightarrow>
          if m_router_ctx p = 0 then Inr (p, [])
          else if \<not> so_build B then Inr (p, start_failed p)
          else
            let sv = sv\<lparr>sv_built := True\<rparr>;
                sv = (if m_contract_group p \<noteq> 0 then sv\<lparr>sv_group := m_contract_group p\<rparr> else sv);
                p = p\<lparr>m_server := Some sv\<rparr>
            in if m_contract_group p \<noteq> 0 \<and> m_contract_registry p \<noteq> 0
               then if so_executor B then start_flow B (p\<lparr>m_server := Some (sv\<lparr>sv_executor := True\<rparr>)\<rparr>)
                    else Inr (p, start_failed p)
               else start_flow B p)"

definition http2_on_unload :: "http2 \<Rightarrow> http2" where
  "http2_on_unload p = p\<lparr>m_socket_flow := None, m_server := None\<rparr>"

definition http2_on_shutdown_requested :: "http2 \<Rightarrow> http2" where
  "http2_on_shutdown_requested p =
     (if m_server p = None \<or> m_socket_flow p = None then p else p\<lparr>m_socket_flow := None\<rparr>)"

text \<open>The class; the pointer that the host gets is the server's, null until there is one.\<close>

definition http2_class :: "host_callbacks \<Rightarrow> http2 plugin_class" where
  "http2_class host = default_plugin
     \<lparr>c_name := (\<lambda>_. ''http2''), c_version := (\<lambda>_. ''1.0.0''), c_unique_type := (\<lambda>_. ''protocol''),
      c_requires := (\<lambda>_. [''file_logger'']), c_capabilities := (\<lambda>_. cap_bit RUN_PROTOCOL),
      c_on_load := (\<lambda>cfg p. fst (http2_on_load host cfg p)),
      c_get := (\<lambda>t p. if t = RUN_PROTOCOL \<and> m_server p \<noteq> None then 1 else 0)\<rparr>"

section \<open>Starting the server\<close>

text \<open>What \<open>on_load\<close> leaves behind, branch by branch.\<close>

lemma http2_on_load_cases:
  assumes "http2_on_load host cfg init_http2 = ((p, False), e)"
  shows "(m_server p = None \<longleftrightarrow> map_of (plugin_fields cfg) ''host'' = None) \<and>
    (m_server p \<noteq> None \<longrightarrow> m_router_ctx p = router_ctx host \<and> m_contract_group p = controller_ctx host \<and>
       m_contract_registry p = registry_ctx host \<and> m_leverager p = leverager_ctx host \<and> m_socket_flow p = None \<and>
       (\<exists>protocol. http2_protocol (plugin_fields cfg) = Inr protocol \<and>
         (m_bind_host p, m_bind_port p) =
           (if controller_ctx host = 0 \<or> registry_ctx host = 0 \<or> leverager_ctx host = 0 then ('''', 0)
            else (pc_host protocol, pc_port protocol)))) \<and>
    (m_server p = None \<longrightarrow> p = init_http2)"
  using assms
  by (auto simp: http2_on_load_def Let_def init_http2_def split: if_splits sum.splits)

text \<open>Whether \<open>on_ready\<close> gets as far as the socket flow.\<close>

definition reaches_flow :: "host_callbacks \<Rightarrow> config \<Rightarrow> start_outcome \<Rightarrow> bool" where
  "reaches_flow host cfg B \<longleftrightarrow> map_of (plugin_fields cfg) ''host'' \<noteq> None \<and> router_ctx host \<noteq> 0 \<and> so_build B \<and>
     (controller_ctx host \<noteq> 0 \<and> registry_ctx host \<noteq> 0 \<longrightarrow> so_executor B)"

text \<open>
  When the HTTP/2 plugin serves. After a load that did not throw, with a host section in the
  configuration, a router and a server that builds, \<open>on_ready\<close> dereferences a null pointer exactly
  if the host gave no contract group or no leverager, unless creating the executor threw before;
  the load had reported that, and nothing stops it. In every other case it returns: it has a socket flow exactly if the
  pieces it calls succeed, and the flow listens on the configured address if the contract registry
  is there too; without the registry it listens on the empty host and port 0.
\<close>

lemma http2_serves_configured_address:
  assumes "http2_on_load host cfg init_http2 = ((p, False), e)"
  shows "(http2_on_ready B p = Inl Null_dereference \<longleftrightarrow> reaches_flow host cfg B \<and> (controller_ctx host = 0 \<or> leverager_ctx host = 0)) \<and>
    (\<forall>p' e'. http2_on_ready B p = Inr (p', e') \<longrightarrow>
       m_socket_flow p' =
         (if reaches_flow host cfg B \<and> so_flow B
          then Some (if registry_ctx host = 0 then ('''', 0)
                     else case http2_protocol (plugin_fields cfg) of Inr c \<Rightarrow> (pc_host c, pc_port c) | Inl _ \<Rightarrow> ('''', 0))
          else None))"
proof (cases "m_server p")
  case None
  then have "map_of (plugin_fields cfg) ''host'' = None" "p = init_http2"
    using http2_on_load_cases [OF assms(1)] by blast+
  then show ?thesis by (simp add: http2_on_ready_def reaches_flow_def init_http2_def)
next
  case (Some sv)
  have p: "m_router_ctx p = router_ctx host" "m_contract_group p = controller_ctx host"
    "m_contract_registry p = registry_ctx host" "m_leverager p = leverager_ctx host" "m_socket_flow p = None"
    using http2_on_load_cases [OF assms(1)] Some by simp_all
  have q: "map_of (plugin_fields cfg) ''host'' \<noteq> None" using http2_on_load_cases [OF assms(1)] Some by auto
  obtain c where c: "http2_protocol (plugin_fields cfg) = Inr c"
    "(m_bind_host p, m_bind_port p) =
       (if controller_ctx host = 0 \<or> registry_ctx host = 0 \<or> leverager_ctx host = 0 then ('''', 0) else (pc_host c, pc_port c))"
    using http2_on_load_cases [OF assms(1)] Some by blast
  show ?thesis
    using Some p q c by (auto simp: http2_on_ready_def start_flow_def reaches_flow_def Let_def)
qed

definition sample_host :: host_callbacks where
  "sample_host = no_host\<lparr>router_ctx := 1, controller_ctx := 2, registry_ctx := 3, leverager_ctx := 4\<rparr>"

definition sample_cfg :: config where
  "sample_cfg = [(''host'', ''h''), (''cert'', ''c''), (''key'', ''k''), (''port'', ''443'')]"

definition all_succeed :: start_outcome where
  "all_succeed = \<lparr>so_build = True, so_executor = True, so_flow = True, so_listen = True\<rparr>"

lemmas http2_eval = http2_on_load_def plugin_fields_def http2_protocol_def field_def sample_host_def no_host_def sample_cfg_def
  from_chars_unsigned_def is_dec_def read_dec_def dec_val_def

lemma sample_load:
  "http2_on_load sample_host sample_cfg init_http2 =
     ((init_http2\<lparr>m_server := Some new_server, m_router_ctx := 1, m_contract_group := 2, m_contract_registry := 3, m_leverager := 4,
        m_bind_host := ''h'', m_bind_port := 443\<rparr>, False), [])"
  by (simp add: http2_eval init_http2_def)

lemma http2_serves_configured_address_witness:
  "\<exists>p' e'. http2_on_ready all_succeed (fst (fst (http2_on_load sample_host sample_cfg init_http2))) = Inr (p', e') \<and>
     m_socket_flow p' = Some (''h'', 443)"
proof -
  let ?r = "http2_on_ready all_succeed (fst (fst (http2_on_load sample_host sample_cfg init_http2)))"
  note ok = http2_serves_configured_address [OF sample_load, of all_succeed]
  have "?r \<noteq> Inl Null_dereference" using ok unfolding sample_load fst_conv by (simp add: sample_host_def no_host_def)
  then obtain p' e' where r: "?r = Inr (p', e')" unfolding sample_load 
    by (auto simp: http2_on_ready_def start_flow_def init_http2_def all_succeed_def Let_def)
  have "m_socket_flow p' = Some (''h'', 443)"
    using ok r unfolding sample_load fst_conv
    by (simp add: all_succeed_def reaches_flow_def http2_eval)
  with r show ?thesis by blast
qed

text \<open>The listening event is published before the flow exists, so a failed start publishes both.\<close>

lemma listening_published_on_failure:
  "\<exists>p' e'. http2_on_ready (all_succeed\<lparr>so_flow := False\<rparr>) (fst (fst (http2_on_load sample_host sample_cfg init_http2))) = Inr (p', e') \<and>
     m_socket_flow p' = None \<and> Publish ''http2.server.listening'' [(''host'', ''h''), (''port'', show_nat 443)] \<in> set e'"
  unfolding sample_load
  by (simp add: http2_on_ready_def start_flow_def init_http2_def all_succeed_def address_payload_def Let_def)

text \<open>A port that is no number, or does not fit, gives the default 8080.\<close>

lemma bad_port_is_8080:
  "http2_protocol [(''host'', ''h''), (''cert'', ''c''), (''key'', ''k''), (''port'', ''70000'')] =
     Inr \<lparr>pc_host = ''h'', pc_port = 8080, pc_cert = ''c'', pc_key = ''k''\<rparr>"
  by (simp add: http2_eval)

end
