(* ===== verification/Workers.thy ===== *)
theory Workers
  imports Connector TextCodec WorkerManager
begin

text \<open>
  The worker plugins: the code of the echo, transform, hash, jwt and database workers
  (plugins/worker), of the workers of the auth application (plugins/apps/auth/workers), and the
  plugin classes around them, with what their \<open>on_load\<close> takes from the host. The decoder of a
  typed input (reflect-cpp), the digests of OpenSSL, \<open>std::hash\<close> and the conversions of floating
  point numbers are parameters.
\<close>

section \<open>Inputs\<close>

text \<open>The dynamic value \<open>serde::Value\<close>; \<open>GNumber\<close> holds the text of a number.\<close>

datatype generic =
    GNull
  | GBool bool
  | GNumber string
  | GString string
  | GArray "generic list"
  | GObject "(string \<times> generic) list"

fun to_object :: "generic \<Rightarrow> (string \<times> generic) list option" where
  "to_object (GObject ms) = Some ms"
| "to_object _ = None"

fun to_string :: "generic \<Rightarrow> string option" where
  "to_string (GString s) = Some s"
| "to_string _ = None"

text \<open>
  \<open>serde::Ser::from_value\<close>: the values of the named fields, all of them strings, or the text of
  the error. reflect-cpp asks for every field of the type, so the list has one value for each
  name; the workers below refuse any other length with an empty error.
\<close>

type_synonym from_value = "string list \<Rightarrow> generic \<Rightarrow> string + string list"

definition documented_decoder :: from_value where
  "documented_decoder names v =
     (case to_object v of
        None \<Rightarrow> Inl ''not an object''
      | Some ms \<Rightarrow>
          (case those (map (\<lambda>n. Option.bind (map_of ms n) to_string) names) of
             None \<Rightarrow> Inl ''field not found''
           | Some vs \<Rightarrow> Inr vs))"

section \<open>Workers without resources\<close>

definition echo_text :: "(generic \<Rightarrow> string) \<Rightarrow> generic \<Rightarrow> string" where
  "echo_text encode_json v = (case to_string v of Some s \<Rightarrow> s | None \<Rightarrow> encode_json v)"

definition echo_execute :: "(generic \<Rightarrow> string) \<Rightarrow> generic \<Rightarrow> string + worker_output" where
  "echo_execute encode_json input =
     Inr (case to_object input of
            None \<Rightarrow> []
          | Some ms \<Rightarrow> fold (\<lambda>(k, v). AList.update k (echo_text encode_json v)) ms [])"

text \<open>\<open>std::toupper\<close> and \<open>std::tolower\<close> in the C locale.\<close>

definition to_upper :: "char \<Rightarrow> char" where
  "to_upper c = (if 97 \<le> (of_char c :: nat) \<and> (of_char c :: nat) \<le> 122 then char_of ((of_char c :: nat) - 32) else c)"

definition to_lower :: "char \<Rightarrow> char" where
  "to_lower c = (if 65 \<le> (of_char c :: nat) \<and> (of_char c :: nat) \<le> 90 then char_of ((of_char c :: nat) + 32) else c)"

text \<open>\<open>negate\<close> is the text of the negated number that \<open>std::strtod\<close> reads from the C string.\<close>

definition transform_execute :: "from_value \<Rightarrow> (string \<Rightarrow> string) \<Rightarrow> generic \<Rightarrow> string + worker_output" where
  "transform_execute from_value negate input =
     (case from_value [''transform'', ''value''] input of
        Inr [transform_type, val] \<Rightarrow>
          Inr [(''result'',
                if transform_type = ''to_upper'' then map to_upper val
                else if transform_type = ''to_lower'' then map to_lower val
                else if transform_type = ''negate'' then negate (c_str val)
                else val)]
      | Inr _ \<Rightarrow> Inl ''''
      | Inl e \<Rightarrow> Inl e)"

text \<open>\<open>std::format("{:016x}")\<close> of a 64-bit value.\<close>

definition hex16 :: "64 word \<Rightarrow> string" where
  "hex16 w = map (\<lambda>i. hex_digit (unat w div 16 ^ (15 - i) mod 16)) [0..<16]"

definition pw_hash_execute :: "from_value \<Rightarrow> (string \<Rightarrow> 64 word) \<Rightarrow> generic \<Rightarrow> string + worker_output" where
  "pw_hash_execute from_value hash input =
     (case from_value [''password''] input of
        Inr [password] \<Rightarrow> Inr [(''password_hash'', hex16 (hash password))]
      | Inr _ \<Rightarrow> Inl ''''
      | Inl e \<Rightarrow> Inl e)"

definition jwt_sign_execute :: "from_value \<Rightarrow> (string \<Rightarrow> 64 word) \<Rightarrow> generic \<Rightarrow> string + worker_output" where
  "jwt_sign_execute from_value hash input =
     (case from_value [''sub''] input of
        Inr [sub] \<Rightarrow> Inr [(''token'', ''jwt.'' @ sub @ ''.'' @ hex16 (hash sub))]
      | Inr _ \<Rightarrow> Inl ''''
      | Inl e \<Rightarrow> Inl e)"

text \<open>
  The digest worker: \<open>digest algo data\<close> is None for an algorithm that OpenSSL does not know and
  else what \<open>EVP_Digest\<close> gives, None on failure.
\<close>

definition hex_bytes :: "string \<Rightarrow> string" where
  "hex_bytes bs = concat (map (\<lambda>b. [hex_digit (of_char b div 16), hex_digit (of_char b mod 16)]) bs)"

definition hash_execute :: "from_value \<Rightarrow> (string \<Rightarrow> (string \<Rightarrow> string option) option) \<Rightarrow> (string \<Rightarrow> string option) \<Rightarrow> generic \<Rightarrow> string + worker_output" where
  "hash_execute from_value digest_by_name sha256 input =
     (case from_value [''data'', ''algo''] input of
        Inr [dat, algo] \<Rightarrow>
          (let (digest, algo) = (case digest_by_name (c_str algo) of None \<Rightarrow> (sha256, ''sha256'') | Some d \<Rightarrow> (d, algo))
           in case digest dat of
                None \<Rightarrow> Inl ''digest failed''
              | Some bytes \<Rightarrow> Inr [(''hash_status'', ''ok''), (''hash'', hex_bytes bytes), (''algo'', algo)])
      | Inr _ \<Rightarrow> Inl ''''
      | Inl e \<Rightarrow> Inl e)"

section \<open>The jwt worker\<close>

text \<open>The claims: every member but the secret and the algorithm, spliced in without escaping.\<close>

definition claim_members :: "generic \<Rightarrow> (string \<times> generic) list" where
  "claim_members input =
     (case to_object input of None \<Rightarrow> [] | Some ms \<Rightarrow> filter (\<lambda>(k, _). k \<noteq> ''secret'' \<and> k \<noteq> ''algo'') ms)"

definition claim_text :: "(generic \<Rightarrow> string) \<Rightarrow> string \<times> generic \<Rightarrow> string" where
  "claim_text encode_json m =
     [dquote] @ fst m @ [dquote] @ '':'' @
     (case to_string (snd m) of Some s \<Rightarrow> [dquote] @ s @ [dquote] | None \<Rightarrow> encode_json (snd m))"

definition jwt_payload :: "(generic \<Rightarrow> string) \<Rightarrow> generic \<Rightarrow> string" where
  "jwt_payload encode_json input = ''{'' @ prefixed '''' '','' (map (claim_text encode_json) (claim_members input)) @ ''}''"

text \<open>\<open>base64\<close> is \<open>EVP_EncodeBlock\<close>; the URL alphabet replaces two characters and drops the padding.\<close>

definition base64url :: "(string \<Rightarrow> string) \<Rightarrow> string \<Rightarrow> string" where
  "base64url base64 bytes =
     rev (dropWhile (\<lambda>c. c = CHR ''='')
       (rev (map (\<lambda>c. if c = CHR ''+'' then CHR ''-'' else if c = CHR ''/'' then CHR ''_'' else c) (base64 bytes))))"

definition jwt_header :: string where
  "jwt_header = ''{'' @ [dquote] @ ''alg'' @ [dquote] @ '':'' @ [dquote] @ ''HS256'' @ [dquote] @ '','' @
     [dquote] @ ''typ'' @ [dquote] @ '':'' @ [dquote] @ ''JWT'' @ [dquote] @ ''}''"

definition jwt_execute ::
  "from_value \<Rightarrow> (generic \<Rightarrow> string) \<Rightarrow> (string \<Rightarrow> string) \<Rightarrow> (string \<Rightarrow> string \<Rightarrow> string option) \<Rightarrow> generic \<Rightarrow> string + worker_output" where
  "jwt_execute from_value encode_json base64 hmac input =
     (case from_value [''secret''] input of
        Inr [secret] \<Rightarrow>
          (let signing_input = base64url base64 jwt_header @ ''.'' @ base64url base64 (jwt_payload encode_json input)
           in case hmac secret signing_input of
                None \<Rightarrow> Inl ''hmac failed''
              | Some mac \<Rightarrow> Inr [(''jwt_status'', ''ok''), (''token'', signing_input @ ''.'' @ base64url base64 mac)])
      | Inr _ \<Rightarrow> Inl ''''
      | Inl e \<Rightarrow> Inl e)"

section \<open>Workers over a store\<close>

text \<open>The database worker; \<open>query\<close> is the resolved backend, None without one.\<close>

definition database_run :: "from_value \<Rightarrow> (string \<Rightarrow> 'd \<Rightarrow> 'd \<times> string) option \<Rightarrow> generic \<Rightarrow> 'd \<Rightarrow> 'd \<times> (string + worker_output)" where
  "database_run from_value query input d =
     (case query of
        None \<Rightarrow> (d, Inl ''no database backend resolved'')
      | Some q \<Rightarrow>
          (case from_value [''sql''] input of
             Inr [sql] \<Rightarrow> (let (d', rows) = q sql d in (d', Inr [(''db_status'', ''ok''), (''result'', rows)]))
           | Inr _ \<Rightarrow> (d, Inl '''')
           | Inl e \<Rightarrow> (d, Inl e)))"

record auth_user =
  au_username :: string
  au_password_hash :: string

text \<open>\<open>UserStore::store_and_read_async\<close> over the host's connector.\<close>

definition store_and_read ::
  "'c cache_ops \<Rightarrow> ('d, auth_user) database \<Rightarrow> auth_user codec \<Rightarrow> string \<Rightarrow> string \<Rightarrow> ('c, 'd, auth_user) connector option \<Rightarrow>
   ('c, 'd, auth_user) connector option \<times> (string \<times> string) option" where
  "store_and_read ops D T username password_hash ctx =
     (case ctx of
        None \<Rightarrow> (None, None)
      | Some s \<Rightarrow>
          (let user = \<lparr>au_username = username, au_password_hash = password_hash\<rparr>;
               (s, ok, _) = write_through ''upsert'' ops D T user s
           in if \<not> ok then (Some s, None)
              else let (s, found) = find ops D T username s
                   in (Some s, map_option (\<lambda>u. (au_username u, au_password_hash u)) found)))"

definition db_query_run ::
  "from_value \<Rightarrow> 'c cache_ops \<Rightarrow> ('d, auth_user) database \<Rightarrow> auth_user codec \<Rightarrow> generic \<Rightarrow> ('c, 'd, auth_user) connector option \<Rightarrow>
   ('c, 'd, auth_user) connector option \<times> (string + worker_output)" where
  "db_query_run from_value ops D T input ctx =
     (case from_value [''username'', ''password_hash''] input of
        Inr [username, password_hash] \<Rightarrow>
          (case store_and_read ops D T username password_hash ctx of
             (ctx, None) \<Rightarrow> (ctx, Inl ''store/read failed'')
           | (ctx, Some (u, h)) \<Rightarrow> (ctx, Inr [(''db_status'', ''ok''), (''stored_username'', u), (''stored_hash'', h)]))
      | Inr _ \<Rightarrow> (ctx, Inl '''')
      | Inl e \<Rightarrow> (ctx, Inl e))"

section \<open>The plugins\<close>

text \<open>
  What a worker plugin holds: the contract group its worker's queue was bound to, and the
  context that some workers are given besides.
\<close>

record worker_plugin =
  wp_group :: ptr
  wp_ctx :: ptr

definition init_worker_plugin :: worker_plugin where
  "init_worker_plugin = \<lparr>wp_group = 0, wp_ctx = 0\<rparr>"

definition bind_group :: "host_callbacks \<Rightarrow> worker_plugin \<Rightarrow> worker_plugin" where
  "bind_group host p = (if controller_ctx host \<noteq> 0 then p\<lparr>wp_group := controller_ctx host\<rparr> else p)"

text \<open>The members that all worker plugins share.\<close>

definition worker_plugin_base :: "string \<Rightarrow> 'p plugin_class" where
  "worker_plugin_base nm = default_plugin
     \<lparr>c_name := (\<lambda>_. nm), c_version := (\<lambda>_. ''1.0.0''), c_unique_type := (\<lambda>_. ''worker''),
      c_capabilities := (\<lambda>_. cap_bit RUN_WORKER), c_get := (\<lambda>t _. if t = RUN_WORKER then 1 else 0)\<rparr>"

definition bound_worker_class :: "string \<Rightarrow> host_callbacks \<Rightarrow> worker_plugin plugin_class" where
  "bound_worker_class nm host = (worker_plugin_base nm)\<lparr>c_on_load := (\<lambda>_ p. (bind_group host p, False))\<rparr>"

definition echo_class :: "host_callbacks \<Rightarrow> worker_plugin plugin_class" where
  "echo_class = bound_worker_class ''echo_worker''"
definition transform_class :: "host_callbacks \<Rightarrow> worker_plugin plugin_class" where
  "transform_class = bound_worker_class ''transform_worker''"
definition pw_hash_class :: "host_callbacks \<Rightarrow> worker_plugin plugin_class" where
  "pw_hash_class = bound_worker_class ''auth_pw_hash_worker''"
definition jwt_sign_class :: "host_callbacks \<Rightarrow> worker_plugin plugin_class" where
  "jwt_sign_class = bound_worker_class ''auth_jwt_sign_worker''"
definition jwt_class :: "host_callbacks \<Rightarrow> worker_plugin plugin_class" where
  "jwt_class = bound_worker_class ''jwt_worker''"
definition hash_class :: "host_callbacks \<Rightarrow> worker_plugin plugin_class" where
  "hash_class = bound_worker_class ''hash_worker''"
definition email_class :: "host_callbacks \<Rightarrow> worker_plugin plugin_class" where
  "email_class = bound_worker_class ''email_worker''"
definition llm_class :: "host_callbacks \<Rightarrow> worker_plugin plugin_class" where
  "llm_class = bound_worker_class ''llm_worker''"

definition database_class :: "host_callbacks \<Rightarrow> worker_plugin plugin_class" where
  "database_class host = (worker_plugin_base ''database_worker'')
     \<lparr>c_on_load := (\<lambda>_ p. (bind_group host (p\<lparr>wp_ctx := database_ctx host\<rparr>), False))\<rparr>"

text \<open>The database worker of the auth application also brings task definitions.\<close>

definition db_query_class :: "host_callbacks \<Rightarrow> worker_plugin plugin_class" where
  "db_query_class host = (worker_plugin_base ''auth_db_query_worker'')
     \<lparr>c_capabilities := (\<lambda>_. cap_bit RUN_WORKER OR cap_bit RUN_APP_DEFS),
      c_on_load := (\<lambda>_ p. (bind_group host (p\<lparr>wp_ctx := connector_ctx host\<rparr>), False)),
      c_get := (\<lambda>t _. if t = RUN_WORKER then 1 else if t = RUN_APP_DEFS then 2 else 0)\<rparr>"

text \<open>
  The client plugins hand their worker the protocol, the leverager and the group, and connect it
  to the configured downstream; \<open>cl_downstream\<close> is the endpoint and whether the peer is verified.
\<close>

record client_plugin =
  cl_protocol :: ptr
  cl_leverager :: ptr
  cl_group :: ptr
  cl_downstream :: "((string \<times> 16 word) \<times> bool) option"

definition client_on_load :: "host_callbacks \<Rightarrow> config \<Rightarrow> client_plugin \<Rightarrow> client_plugin" where
  "client_on_load host cfg p =
     (let p = p\<lparr>cl_protocol := client_protocol_ctx host, cl_leverager := leverager_ctx host, cl_group := controller_ctx host\<rparr>
      in case config_get cfg ''host'' of
           None \<Rightarrow> p
         | Some h \<Rightarrow>
             (let port = (case Option.bind (config_get cfg ''port'') (from_chars_unsigned 16) of None \<Rightarrow> 443 | Some n \<Rightarrow> word_of_int n);
                  verify_peer = (config_get cfg ''cert'' \<noteq> None \<or> config_get cfg ''key'' \<noteq> None)
              in p\<lparr>cl_downstream := Some ((h, port), verify_peer)\<rparr>))"

definition client_class :: "host_callbacks \<Rightarrow> client_plugin plugin_class" where
  "client_class host = (worker_plugin_base ''client_worker'')\<lparr>c_on_load := (\<lambda>cfg p. (client_on_load host cfg p, False))\<rparr>"

definition client_pool_class :: "host_callbacks \<Rightarrow> client_plugin plugin_class" where
  "client_pool_class host = (worker_plugin_base ''client_pool_worker'')\<lparr>c_on_load := (\<lambda>cfg p. (client_on_load host cfg p, False))\<rparr>"

lemmas worker_classes = echo_class_def transform_class_def pw_hash_class_def jwt_sign_class_def jwt_class_def hash_class_def
  email_class_def llm_class_def database_class_def client_class_def client_pool_class_def

interpretation bound_worker_caps: advertised "bound_worker_class nm host"
  by unfold_locales (rename_tac t p, case_tac t; simp add: bound_worker_class_def worker_plugin_base_def)

interpretation database_worker_caps: advertised "database_class host"
  by unfold_locales (rename_tac t p, case_tac t; simp add: database_class_def worker_plugin_base_def)

interpretation db_query_caps: advertised "db_query_class host"
  by unfold_locales (rename_tac t p, case_tac t; simp add: db_query_class_def worker_plugin_base_def)

interpretation client_caps: advertised "client_class host"
  by unfold_locales (rename_tac t p, case_tac t; simp add: client_class_def worker_plugin_base_def)

interpretation client_pool_caps: advertised "client_pool_class host"
  by unfold_locales (rename_tac t p, case_tac t; simp add: client_pool_class_def worker_plugin_base_def)

section \<open>What the workers return\<close>

text \<open>The echo worker gives back every member under its key.\<close>

lemma fold_update_map_of:
  "map_of (fold (\<lambda>(k, v). AList.update k (f v)) ms acc) k =
     (case map_of (rev ms) k of None \<Rightarrow> map_of acc k | Some v \<Rightarrow> Some (f v))"
  by (induction ms arbitrary: acc) (auto simp: update_conv' map_add_def split: option.splits)

lemma echo_returns_members:
  "\<exists>out. echo_execute enc (GObject ms) = Inr out \<and>
     (\<forall>k. map_of out k = map_option (echo_text enc) (map_of (rev ms) k))"
  by (simp add: echo_execute_def fold_update_map_of map_option_case split: option.split)

lemma length_hex16: "length (hex16 w) = 16"
  by (simp add: hex16_def)

text \<open>Plain text needs no escaping in a JSON literal.\<close>

definition plain_char :: "char \<Rightarrow> bool" where
  "plain_char c \<longleftrightarrow> c \<noteq> dquote \<and> c \<noteq> backslash \<and> \<not> is_control c"

interpretation plain_quoting: json_quoting "\<lambda>s. s" "list_all plain_char"
proof -
  have "(\<lambda>s :: string. s) = (\<lambda>s. concat (map (\<lambda>c. [c]) s))" by (simp add: fun_eq_iff)
  moreover have "json_quoting (\<lambda>s. concat (map (\<lambda>c. [c]) s)) (list_all plain_char)"
    by (rule json_quoting_chars [OF refl]) (simp add: list_all_iff plain_char_def json_chars)
  ultimately show "json_quoting (\<lambda>s :: string. s) (list_all plain_char)" by simp
qed

definition plain_claims :: "generic \<Rightarrow> (string \<times> string) list \<Rightarrow> bool" where
  "plain_claims input cs \<longleftrightarrow> claim_members input = map (\<lambda>(k, v). (k, GString v)) cs \<and>
     list_all (\<lambda>(k, v). list_all plain_char k \<and> list_all plain_char v) cs"

lemma jwt_payload_reads:
  assumes "plain_claims input cs"
  shows "read_row (jwt_payload enc input) = Some (map (\<lambda>(k, v). (k, Some v)) cs, [])"
proof -
  let ?ms = "map (\<lambda>(k, v). (k, Some v)) cs"
  have "map (claim_text enc) (claim_members input) = map (member_text (\<lambda>s. s)) ?ms"
    using assms by (auto simp: plain_claims_def claim_text_def member_text_def cell_text_def)
  then have "jwt_payload enc input = object_text (\<lambda>s. s) ?ms"
    by (simp add: jwt_payload_def object_text_def)
  moreover have "list_all plain_quoting.covers_member ?ms"
    using assms by (auto simp: plain_claims_def plain_quoting.covers_member_def list_all_iff)
  ultimately show ?thesis using plain_quoting.read_object [of ?ms "[]"] by simp
qed

text \<open>What OpenSSL documents of the encoding: it uses the base64 alphabet and the padding.\<close>

definition base64_alphabet :: "(string \<Rightarrow> string) \<Rightarrow> bool" where
  "base64_alphabet base64 \<longleftrightarrow> (\<forall>s. CHR ''.'' \<notin> set (base64 s))"

lemma base64url_no_dot: "base64_alphabet b \<Longrightarrow> CHR ''.'' \<notin> set (base64url b s)"
  using set_dropWhileD unfolding base64url_def base64_alphabet_def by (fastforce split: if_splits)

text \<open>Where the segments of a token end.\<close>

fun split_dots :: "string \<Rightarrow> string list" where
  "split_dots [] = [[]]"
| "split_dots (c # cs) = (if c = CHR ''.'' then [] # split_dots cs else (c # hd (split_dots cs)) # tl (split_dots cs))"

lemma split_dots_append: "CHR ''.'' \<notin> set s \<Longrightarrow> split_dots (s @ CHR ''.'' # t) = s # split_dots t"
  by (induction s) auto

lemma split_dots_plain: "CHR ''.'' \<notin> set s \<Longrightarrow> split_dots s = [s]"
  by (induction s) auto


definition sample_input :: generic where
  "sample_input = GObject [(''secret'', GString ''s''), (''sub'', GString ''a'')]"


text \<open>A claim with a quote adds a claim to the signed payload.\<close>

lemma claim_injects_claim:
  "read_row (jwt_payload enc (GObject [(''name'', GString (''x'' @ [dquote] @ '','' @ [dquote] @ ''admin'' @ [dquote] @ '':'' @ [dquote] @ ''true''))])) =
     Some ([(''name'', Some ''x''), (''admin'', Some ''true'')], [])"
proof -
  have "jwt_payload enc (GObject [(''name'', GString (''x'' @ [dquote] @ '','' @ [dquote] @ ''admin'' @ [dquote] @ '':'' @ [dquote] @ ''true''))]) =
      jwt_payload enc (GObject [(''name'', GString ''x''), (''admin'', GString ''true'')])"
    by (simp add: jwt_payload_def claim_members_def claim_text_def)
  moreover have "plain_claims (GObject [(''name'', GString ''x''), (''admin'', GString ''true'')]) [(''name'', ''x''), (''admin'', ''true'')]"
    by (simp add: plain_claims_def claim_members_def plain_char_def is_control_def)
  ultimately show ?thesis using jwt_payload_reads by simp
qed

text \<open>The user that the auth application's database worker stores is the one it reads back.\<close>

context icache
begin

lemma store_and_read_back:
  assumes "coherent up contents T data s" "codec_ok T" "db_laws T D data" "pk_string T = au_username"
  shows "snd (store_and_read ops D T u h (Some s)) =
    (if fst (snd (write_through ''upsert'' ops D T \<lparr>au_username = u, au_password_hash = h\<rparr> s)) then Some (u, h) else None)"
proof -
  let ?u = "\<lparr>au_username = u, au_password_hash = h\<rparr>"
  obtain s1 ok e where w: "write_through ''upsert'' ops D T ?u s = (s1, ok, e)" by (metis prod.exhaust)
  show ?thesis
  proof (cases ok)
    case True
    then have "coherent up contents T data s1 \<and> rows data s1 = (rows data s)(u \<mapsto> ?u)"
      using write_through_coherent [OF assms(1) codec_ok_sound [OF assms(2)] assms(3), of "''upsert''" ?u] w assms(4) by simp
    then have "snd (find ops D T u s1) = Some ?u" using find_coherent [of T data s1 D u] assms(2,3) by simp
    then show ?thesis using True w by (cases "find ops D T u s1") (simp add: store_and_read_def)
  qed (simp add: store_and_read_def w)
qed

end

text \<open>Two users with the same password get the same digest, and anyone can compute it.\<close>

lemma pw_hash_unsalted:
  "pw_hash_execute documented_decoder hash (GObject [(''password'', GString p), (''user'', GString u)]) =
   pw_hash_execute documented_decoder hash (GObject [(''password'', GString p), (''user'', GString u')])"
  by (simp add: pw_hash_execute_def documented_decoder_def)

text \<open>An input without the field that has a default is refused: the default is never used.\<close>

lemma transform_default_unused:
  "transform_execute documented_decoder negate (GObject [(''value'', GString v)]) = Inl ''field not found''"
  by (simp add: transform_execute_def documented_decoder_def)

end
