(* ===== verification/NetWorkers.thy ===== *)
theory NetWorkers
  imports Workers Events
begin

text \<open>
  The workers that reach out of the process: events (plugins/worker/events), email
  (plugins/worker/email) and llm (plugins/worker/llm). The event sinks are those of Events; the
  transfers of libcurl are parameters, given the options that the code sets.
\<close>

section \<open>The events worker\<close>

text \<open>\<open>emplace\<close> of an unordered map keeps the first value of a key; \<open>order\<close> is its iteration order.\<close>

definition emplace :: "string \<Rightarrow> string \<Rightarrow> payload \<Rightarrow> payload" where
  "emplace k v m = (case map_of m k of None \<Rightarrow> m @ [(k, v)] | Some _ \<Rightarrow> m)"

definition event_payload :: "(generic \<Rightarrow> string) \<Rightarrow> generic \<Rightarrow> payload" where
  "event_payload encode_json input =
     (case to_object input of
        None \<Rightarrow> []
      | Some ms \<Rightarrow> fold (\<lambda>(k, v) m. if k \<noteq> ''event_name'' then emplace k (echo_text encode_json v) m else m) ms [])"

definition events_execute ::
  "from_value \<Rightarrow> (generic \<Rightarrow> string) \<Rightarrow> (payload \<Rightarrow> payload) \<Rightarrow> (string \<Rightarrow> string \<Rightarrow> 's \<Rightarrow> 's \<times> effects) \<Rightarrow> generic \<Rightarrow>
   's list option \<Rightarrow> 's list option \<times> (string + worker_output) \<times> effects" where
  "events_execute from_value encode_json order pub input registry =
     (case from_value [''event_name''] input of
        Inr [event_name] \<Rightarrow>
          (if event_name = '''' then (registry, Inl (''missing '' @ [quote] @ ''event_name'' @ [quote]), [])
           else if registry = None then (registry, Inl ''no event sink injected'', [])
           else let (registry, es) = bus_publish pub event_name (order (event_payload encode_json input)) registry
                in (registry, Inr [(''events_status'', ''ok'')], es))
      | Inr _ \<Rightarrow> (registry, Inl '''', [])
      | Inl e \<Rightarrow> (registry, Inl e, []))"

definition events_class :: "host_callbacks \<Rightarrow> worker_plugin plugin_class" where
  "events_class = bound_worker_class ''events_worker''"

section \<open>The email worker\<close>

text \<open>The upload, and the callback with which libcurl asks for at most \<open>room\<close> bytes of it.\<close>

record upload =
  u_payload :: string
  u_offset :: nat

definition read_callback :: "nat \<Rightarrow> upload \<Rightarrow> upload \<times> string" where
  "read_callback room u =
     (let remaining = length (u_payload u) - u_offset u; chunk = min room remaining
      in if chunk > 0 then (u\<lparr>u_offset := u_offset u + chunk\<rparr>, take chunk (drop (u_offset u) (u_payload u)))
         else (u, ''''))"

definition crlf :: string where "crlf = [CHR 0x0D, CHR 0x0A]"

definition message :: "string \<Rightarrow> string \<Rightarrow> string \<Rightarrow> string \<Rightarrow> string" where
  "message from_addr to_addr subject body =
     ''To: '' @ to_addr @ crlf @ ''From: '' @ from_addr @ crlf @ ''Subject: '' @ subject @ crlf @ crlf @ body @ crlf"

record mail_options =
  o_url :: string
  o_login :: "(string \<times> string) option"
  o_mail_from :: string
  o_mail_rcpt :: string

datatype curl_outcome = Init_failed | Transfer_failed string | Transferred int "string list"

type_synonym curl_mail = "mail_options \<Rightarrow> (nat \<Rightarrow> upload \<Rightarrow> upload \<times> string) \<Rightarrow> upload \<Rightarrow> curl_outcome"

definition send_mail :: "curl_mail \<Rightarrow> string \<Rightarrow> string \<Rightarrow> string \<Rightarrow> string \<Rightarrow> string \<Rightarrow> string \<Rightarrow> string \<Rightarrow> string + worker_output" where
  "send_mail curl smtp_url from_addr to_addr subject body username password =
     (case curl \<lparr>o_url = c_str smtp_url,
             o_login = (if username \<noteq> '''' then Some (c_str username, c_str password) else None),
             o_mail_from = c_str (''<'' @ from_addr @ ''>''), o_mail_rcpt = c_str (''<'' @ to_addr @ ''>'')\<rparr>
           read_callback \<lparr>u_payload = message from_addr to_addr subject body, u_offset = 0\<rparr> of
        Init_failed \<Rightarrow> Inl ''curl init failed''
      | Transfer_failed e \<Rightarrow> Inl e
      | Transferred _ _ \<Rightarrow> Inr [(''email_status'', ''ok'')])"

definition email_run :: "from_value \<Rightarrow> curl_mail \<Rightarrow> generic \<Rightarrow> string + worker_output" where
  "email_run from_value curl input =
     (case from_value [''smtp_url'', ''from'', ''to'', ''subject'', ''body'', ''username'', ''password''] input of
        Inr [smtp_url, from_addr, to_addr, subject, body, username, password] \<Rightarrow>
          (if smtp_url = '''' then Inl (''missing '' @ [quote] @ ''smtp_url'' @ [quote])
           else send_mail curl smtp_url from_addr to_addr subject body username password)
      | Inr _ \<Rightarrow> Inl ''''
      | Inl e \<Rightarrow> Inl e)"

section \<open>The llm worker\<close>

definition json_escape :: "string \<Rightarrow> string" where
  "json_escape v =
     concat (map (\<lambda>c.
       if c = dquote then [backslash, dquote]
       else if c = backslash then [backslash, backslash]
       else if c = CHR 0x0A then [backslash, CHR ''n'']
       else if c = CHR 0x0D then [backslash, CHR ''r'']
       else if c = CHR 0x09 then [backslash, CHR ''t'']
       else [c]) v)"

definition llm_open :: string where
  "llm_open = ''{'' @ [dquote] @ ''model'' @ [dquote] @ '':'' @ [dquote]"

definition llm_middle :: string where
  "llm_middle = '','' @ [dquote] @ ''messages'' @ [dquote] @ '':[{'' @ [dquote] @ ''role'' @ [dquote] @ '':'' @ [dquote] @ ''user'' @
     [dquote] @ '','' @ [dquote] @ ''content'' @ [dquote] @ '':'' @ [dquote]"

definition request_body :: "string \<Rightarrow> string \<Rightarrow> string" where
  "request_body model prompt = llm_open @ model @ [dquote] @ llm_middle @ json_escape prompt @ [dquote] @ ''}]}''"

definition llm_headers :: "string \<Rightarrow> string list" where
  "llm_headers api_key =
     ''Content-Type: application/json'' # (if api_key \<noteq> '''' then [c_str (''Authorization: Bearer '' @ api_key)] else [])"

definition llm_write_callback :: "string \<Rightarrow> string \<Rightarrow> string" where
  "llm_write_callback chunk response = response @ chunk"

definition llm_send :: "(string \<Rightarrow> string list \<Rightarrow> string \<Rightarrow> curl_outcome) \<Rightarrow> string \<Rightarrow> string \<Rightarrow> string \<Rightarrow> string \<Rightarrow> string + worker_output" where
  "llm_send curl api_url api_key model prompt =
     (case curl (c_str api_url) (llm_headers api_key) (request_body model prompt) of
        Init_failed \<Rightarrow> Inl ''curl init failed''
      | Transfer_failed e \<Rightarrow> Inl e
      | Transferred code chunks \<Rightarrow>
          Inr [(''llm_status'', ''ok''), (''status'', show_int code), (''response'', fold llm_write_callback chunks '''')])"

definition llm_run :: "from_value \<Rightarrow> (string \<Rightarrow> string list \<Rightarrow> string \<Rightarrow> curl_outcome) \<Rightarrow> generic \<Rightarrow> string + worker_output" where
  "llm_run from_value curl input =
     (case from_value [''api_url'', ''api_key'', ''model'', ''prompt''] input of
        Inr [api_url, api_key, model, prompt] \<Rightarrow> llm_send curl api_url api_key model prompt
      | Inr _ \<Rightarrow> Inl ''''
      | Inl e \<Rightarrow> Inl e)"

section \<open>What is published\<close>

lemma map_of_emplace: "map_of (emplace k v m) x = (case map_of m x of None \<Rightarrow> if x = k then Some v else None | Some w \<Rightarrow> Some w)"
  by (auto simp: emplace_def map_add_def split: option.split)

lemma event_payload_fold:
  "map_of (fold (\<lambda>(k, v) m. if k \<noteq> ''event_name'' then emplace k (f v) m else m) ms acc) x =
     (case map_of acc x of Some w \<Rightarrow> Some w
      | None \<Rightarrow> if x = ''event_name'' then None else map_option f (map_of ms x))"
proof (induction ms arbitrary: acc)
  case (Cons p ms)
  obtain k v where "p = (k, v)" by (cases p)
  then show ?case by (cases "k = ''event_name''") (auto simp: Cons.IH map_of_emplace split: option.split)
qed (simp split: option.split)

text \<open>
  Every member but the name is in the payload, under its key, and every sink of the host gets
  the event once.
\<close>

lemma event_payload_members:
  "map_of (event_payload enc (GObject ms)) k = (if k = ''event_name'' then None else map_option (echo_text enc) (map_of ms k))"
  by (simp add: event_payload_def event_payload_fold)

lemma events_publish_once:
  assumes "from_value [''event_name''] input = Inr [name]" "name \<noteq> ''''"
  shows "fst (events_execute from_value enc order memory_publish input (Some sinks)) =
      publish_all [(name, order (event_payload enc input))] (Some sinks) \<and>
    fst (snd (events_execute from_value enc order memory_publish input (Some sinks))) = Inr [(''events_status'', ''ok'')]"
  using assms by (simp add: events_execute_def publish_all_def case_prod_beta)

text \<open>The guard asks for a registry, not for a sink: without one the event is dropped and reported as published.\<close>

lemma published_without_sink:
  "events_execute documented_decoder enc order pub (GObject [(''event_name'', GString ''e'')]) (Some []) =
     (Some [], Inr [(''events_status'', ''ok'')], [Log DEBUG ''events''])"
  by (simp add: events_execute_def documented_decoder_def bus_publish_def)

section \<open>What is sent\<close>

text \<open>What libcurl gets from a sequence of calls of the callback.\<close>

fun pull :: "nat list \<Rightarrow> upload \<Rightarrow> upload \<times> string" where
  "pull [] u = (u, [])"
| "pull (room # rooms) u = (let (u, chunk) = read_callback room u; (u, rest) = pull rooms u in (u, chunk @ rest))"

lemma pull_take: "snd (pull rooms u) = take (sum_list rooms) (drop (u_offset u) (u_payload u))"
proof (induction rooms arbitrary: u)
  case (Cons room rooms)
  show ?case
  proof (cases "min room (length (u_payload u) - u_offset u) > 0")
    case True
    let ?n = "min room (length (u_payload u) - u_offset u)"
    have "take (room + r) xs = take (min room (length xs)) xs @ take r (drop (min room (length xs)) xs)" for r and xs :: string
      by (cases "room \<le> length xs") (simp_all add: take_add)
    from this [of "sum_list rooms" "drop (u_offset u) (u_payload u)"]
    show ?thesis using True Cons by (simp add: read_callback_def Let_def case_prod_beta add.commute)
  next
    case False
    then have "room = 0 \<or> drop (u_offset u) (u_payload u) = []" by auto
    then show ?thesis using False Cons [of u] by (auto simp: read_callback_def Let_def case_prod_beta)
  qed
qed simp

fun header_lines :: "string \<Rightarrow> string \<Rightarrow> string list" where
  "header_lines cur [] = [cur]"
| "header_lines cur [c] = [cur @ [c]]"
| "header_lines cur (c # d # cs) =
     (if c = CHR 0x0D \<and> d = CHR 0x0A then if cur = [] then [] else cur # header_lines [] cs
      else header_lines (cur @ [c]) (d # cs))"

lemma header_line:
  "CHR 0x0D \<notin> set s \<Longrightarrow> header_lines cur (s @ crlf @ t) = (if cur @ s = [] then [] else (cur @ s) # header_lines [] t)"
proof (induction s arbitrary: cur)
  case (Cons c s)
  obtain d ds where "s @ crlf @ t = d # ds" by (cases "s @ crlf @ t") (simp_all add: crlf_def)
  then have "header_lines cur ((c # s) @ crlf @ t) = header_lines (cur @ [c]) (s @ crlf @ t)" using Cons.prems by auto
  then show ?case using Cons by simp
qed (simp add: crlf_def)

text \<open>
  Whatever buffers libcurl offers, once they hold the message it has got the message, and its
  headers are the three of the task when these have no carriage return.
\<close>

lemma mail_upload_is_message:
  assumes "length (message f a sb b) \<le> sum_list rooms" "list_all (\<lambda>s. CHR 0x0D \<notin> set s) [f, a, sb]"
  shows "snd (pull rooms \<lparr>u_payload = message f a sb b, u_offset = 0\<rparr>) = message f a sb b \<and>
    header_lines [] (message f a sb b) = [''To: '' @ a, ''From: '' @ f, ''Subject: '' @ sb]"
proof -
  have "message f a sb b = (''To: '' @ a) @ crlf @ (''From: '' @ f) @ crlf @ (''Subject: '' @ sb) @ crlf @ [] @ crlf @ b @ crlf"
    by (simp add: message_def)
  moreover have cr: "CHR 0x0D \<notin> set (''To: '' @ a)" "CHR 0x0D \<notin> set (''From: '' @ f)" "CHR 0x0D \<notin> set (''Subject: '' @ sb)" "CHR 0x0D \<notin> set []"
    using assms(2) by simp_all
  ultimately have "header_lines [] (message f a sb b) = [''To: '' @ a, ''From: '' @ f, ''Subject: '' @ sb]"
    by (simp only: header_line [OF cr(1)] header_line [OF cr(2)] header_line [OF cr(3)] header_line [OF cr(4)]) simp
  then show ?thesis using assms(1) by (simp add: pull_take)
qed

text \<open>A subject with a line break adds a header.\<close>

lemma subject_injects_header:
  "header_lines [] (message ''f'' ''t'' (''s'' @ crlf @ ''Bcc: x'') ''b'') = [''To: t'', ''From: f'', ''Subject: s'', ''Bcc: x'']"
  by (simp add: message_def crlf_def)

interpretation prompt_quoting: json_quoting json_escape
  "list_all (\<lambda>c. is_control c \<longrightarrow> c = CHR 0x0A \<or> c = CHR 0x0D \<or> c = CHR 0x09)"
  by (rule json_quoting_chars [OF json_escape_def]) (auto simp: json_chars list_all_iff)

text \<open>
  The prompt stays inside its literal whatever quotes and backslashes it has; a model name does
  when it needs no escaping.
\<close>

lemma request_body_reads:
  assumes "list_all (\<lambda>c. is_control c \<longrightarrow> c = CHR 0x0A \<or> c = CHR 0x0D \<or> c = CHR 0x09) prompt"
  shows "read_json_string (drop (length (llm_open @ model @ [dquote] @ llm_middle)) (request_body model prompt)) = Some (prompt, ''}]}'') \<and>
    (list_all plain_char model \<longrightarrow>
       read_json_string (drop (length llm_open) (request_body model prompt)) =
         Some (model, llm_middle @ json_escape prompt @ [dquote] @ ''}]}''))"
  using prompt_quoting.esc_reads [OF assms, of "''}]}''"]
    plain_quoting.esc_reads [of model "llm_middle @ json_escape prompt @ [dquote] @ ''}]}''"]
  by (simp add: request_body_def)

text \<open>A model name with a quote ends its literal and goes on with members of its own.\<close>

lemma model_injects_member:
  "read_json_string (drop (length llm_open) (request_body (''x'' @ [dquote] @ '','' @ [dquote] @ ''n'' @ [dquote] @ '':'' @ [dquote]) p)) =
     Some (''x'', '','' @ [dquote] @ ''n'' @ [dquote] @ '':'' @ [dquote] @ [dquote] @ llm_middle @ json_escape p @ [dquote] @ ''}]}'')"
  by (simp add: request_body_def is_control_def)

end
