(* ===== verification/Backends.thy ===== *)
theory Backends
  imports Abi TextCodec
begin

text \<open>
  Small backend plugins: the JSON and TOML formats (plugins/serde/json, plugins/serde/toml), the
  OpenAPI generator's plugin class (plugins/generator/openapi_generator), the two local
  orchestrators' plugin classes (plugins/orchestrator) and the local payload storage
  (plugins/payload/local) with its files.
\<close>

section \<open>Formats\<close>

text \<open>
  reflect-cpp writes and reads the texts; \<open>'g\<close> is its generic value, of which TOML writes only
  tables, \<open>'o\<close>.
\<close>

definition json_encode :: "('g \<Rightarrow> string) \<Rightarrow> 'g \<Rightarrow> (string + string) \<times> effects" where
  "json_encode rfl_write v = (Inr (rfl_write v), [Log DEBUG ''json''])"

definition json_decode :: "(string \<Rightarrow> string + 'g) \<Rightarrow> string \<Rightarrow> (string + 'g) \<times> effects" where
  "json_decode rfl_read dat =
     (case rfl_read dat of
        Inl e \<Rightarrow> (Inl e, [Log DEBUG ''json'', Log WARNING ''json'', Publish ''serde.json.decode_failed'' [(''error'', e)]])
      | Inr v \<Rightarrow> (Inr v, [Log DEBUG ''json'']))"

definition toml_encode :: "('g \<Rightarrow> 'o option) \<Rightarrow> ('o \<Rightarrow> string) \<Rightarrow> 'g \<Rightarrow> (string + string) \<times> effects" where
  "toml_encode to_object rfl_write v =
     (case to_object v of
        None \<Rightarrow> (Inl ''TOML requires a table at the document root'', [Log WARNING ''toml'', Publish ''serde.toml.encode_failed'' []])
      | Some t \<Rightarrow> (Inr (rfl_write t), [Log DEBUG ''toml'']))"

definition toml_decode :: "(string \<Rightarrow> string + 'g) \<Rightarrow> string \<Rightarrow> (string + 'g) \<times> effects" where
  "toml_decode rfl_read dat =
     (case rfl_read dat of
        Inl e \<Rightarrow> (Inl e, [Log DEBUG ''toml'', Log WARNING ''toml'', Publish ''serde.toml.decode_failed'' [(''error'', e)]])
      | Inr v \<Rightarrow> (Inr v, [Log DEBUG ''toml'']))"

definition json_class :: "unit plugin_class" where
  "json_class = default_plugin
     \<lparr>c_name := (\<lambda>_. ''json''), c_version := (\<lambda>_. ''0.1.0''), c_capabilities := (\<lambda>_. cap_bit RUN_SERDE),
      c_get := (\<lambda>t _. if t = RUN_SERDE then 1 else 0)\<rparr>"

definition toml_class :: "unit plugin_class" where
  "toml_class = default_plugin
     \<lparr>c_name := (\<lambda>_. ''toml''), c_version := (\<lambda>_. ''0.1.0''), c_capabilities := (\<lambda>_. cap_bit RUN_SERDE),
      c_get := (\<lambda>t _. if t = RUN_SERDE then 1 else 0)\<rparr>"

section \<open>The OpenAPI generator\<close>

text \<open>The routes that the plugin added to the host's router, by title and version.\<close>

definition openapi_on_load :: "host_callbacks \<Rightarrow> config \<Rightarrow> (string \<times> string) list \<Rightarrow> (string \<times> string) list \<times> effects" where
  "openapi_on_load host cfg routes =
     (if router_ctx host = 0 then (routes, [Log ERROR ''openapi_generator'', Publish ''openapi_generator.no_router_context'' []])
      else let title = (case config_get cfg ''title'' of None \<Rightarrow> ''Congelado API'' | Some v \<Rightarrow> v);
               version = (case config_get cfg ''version'' of None \<Rightarrow> ''1.0.0'' | Some v \<Rightarrow> v)
           in (routes @ [(title, version)], [Log DEBUG ''openapi_generator'', Log IMPORTANT ''openapi_generator'']))"

definition openapi_class :: "host_callbacks \<Rightarrow> (string \<times> string) list plugin_class" where
  "openapi_class host = default_plugin
     \<lparr>c_name := (\<lambda>_. ''openapi_generator''), c_version := (\<lambda>_. ''0.1.0''), c_load_before := (\<lambda>_. [''protocol'']),
      c_capabilities := (\<lambda>_. cap_bit RUN_OPENAPI), c_on_load := (\<lambda>cfg p. (fst (openapi_on_load host cfg p), False)),
      c_get := (\<lambda>t _. if t = RUN_OPENAPI then 1 else 0)\<rparr>"

text \<open>
  \<open>write_document\<close> and \<open>generate_client_sdk\<close> hand on what the generators return, and report an
  error.
\<close>

definition report_generator :: "string \<Rightarrow> string option \<Rightarrow> string option \<times> effects" where
  "report_generator event result =
     (result, [Log DEBUG ''openapi_generator''] @
        (case result of None \<Rightarrow> [] | Some e \<Rightarrow> [Log WARNING ''openapi_generator'', Publish event [(''error'', e)]]))"

definition write_document :: "(string \<Rightarrow> string \<Rightarrow> string \<Rightarrow> string option) \<Rightarrow> string \<Rightarrow> string \<Rightarrow> string \<Rightarrow> string option \<times> effects" where
  "write_document generator title version path =
     report_generator ''openapi_generator.write_document_failed'' (generator title version path)"

definition generate_client_sdk :: "(string option \<Rightarrow> string \<Rightarrow> string \<Rightarrow> string \<Rightarrow> string option) \<Rightarrow> string \<Rightarrow> string \<Rightarrow> string \<Rightarrow> string option \<Rightarrow> string option \<times> effects" where
  "generate_client_sdk generator openapi_path output_dir namespace_name shared_models =
     report_generator ''openapi_generator.generate_client_sdk_failed'' (generator shared_models namespace_name openapi_path output_dir)"

section \<open>The orchestrators\<close>

text \<open>The connector that the worker orchestrator is given.\<close>

definition worker_orchestrator_class :: "host_callbacks \<Rightarrow> ptr plugin_class" where
  "worker_orchestrator_class host = default_plugin
     \<lparr>c_name := (\<lambda>_. ''worker_orchestrator_local''), c_version := (\<lambda>_. ''1.0.0''), c_unique_type := (\<lambda>_. ''worker_orchestrator''),
      c_capabilities := (\<lambda>_. cap_bit RUN_WORKER_ORCHESTRATOR), c_on_load := (\<lambda>_ _. (connector_ctx host, False)),
      c_get := (\<lambda>t _. if t = RUN_WORKER_ORCHESTRATOR then 1 else 0)\<rparr>"

text \<open>The five contexts that the workflow orchestrator is wired from.\<close>

definition workflow_orchestrator_class :: "host_callbacks \<Rightarrow> ptr list plugin_class" where
  "workflow_orchestrator_class host = default_plugin
     \<lparr>c_name := (\<lambda>_. ''workflow_orchestrator_local''), c_version := (\<lambda>_. ''1.0.0''), c_unique_type := (\<lambda>_. ''workflow_orchestrator''),
      c_capabilities := (\<lambda>_. cap_bit RUN_WORKFLOW_ORCHESTRATOR),
      c_on_load := (\<lambda>_ _. ([connector_ctx host, lua_bridge_ctx host, search_ctx host, controller_ctx host, registry_ctx host], False)),
      c_get := (\<lambda>t _. if t = RUN_WORKFLOW_ORCHESTRATOR then 1 else 0)\<rparr>"

section \<open>The payload storage\<close>

text \<open>
  The storage with the files of the disk. The counter of \<open>generate_id\<close> is a 64-bit atomic.
\<close>

record payload_storage =
  m_dir :: string
  m_counter :: "64 word"
  m_files :: "(string \<times> string) list"

text \<open>\<open>std::format("{:x}")\<close> of a number that is not negative.\<close>

fun show_hex :: "nat \<Rightarrow> string" where
  "show_hex n = (if n < 16 then [hex_digit n] else show_hex (n div 16) @ [hex_digit (n mod 16)])"

declare show_hex.simps [simp del]

definition generate_id :: "nat \<Rightarrow> payload_storage \<Rightarrow> payload_storage \<times> string" where
  "generate_id now s = (s\<lparr>m_counter := m_counter s + 1\<rparr>, show_hex now @ ''-'' @ show_hex (unat (m_counter s)))"

text \<open>The operator \<open>/\<close> of \<open>std::filesystem::path\<close> with a relative right-hand side.\<close>

definition path_join :: "string \<Rightarrow> string \<Rightarrow> string" where
  "path_join d nm = (if d = '''' \<or> last d = CHR ''/'' then d @ nm else d @ CHR ''/'' # nm)"

text \<open>
  \<open>created\<close> says whether the directory is there after \<open>create_directories\<close>, else the error;
  \<open>stream\<close> is what the file holds after the stream was closed, None if it could not be opened.
\<close>

definition set_directory :: "string option \<Rightarrow> string \<Rightarrow> payload_storage \<Rightarrow> payload_storage \<times> effects" where
  "set_directory created d s =
     (s\<lparr>m_dir := d\<rparr>,
      case created of None \<Rightarrow> []
      | Some e \<Rightarrow> [Log WARNING ''payload.local'',
                   Publish ''payload.local.create_directory_failed'' [(''directory'', d), (''error'', e)]])"

definition payload_write :: "(string \<Rightarrow> string \<Rightarrow> string option) \<Rightarrow> nat \<Rightarrow> string \<Rightarrow> payload_storage \<Rightarrow> payload_storage \<times> string \<times> effects" where
  "payload_write stream now dat s =
     (let (s, i) = generate_id now s; path = path_join (m_dir s) (i @ ''.payload'')
      in case stream path dat of
           None \<Rightarrow> (s, '''', [Log WARNING ''payload.local'', Publish ''payload.local.open_write_failed'' [(''path'', path)]])
         | Some held \<Rightarrow> (s\<lparr>m_files := AList.update path held (m_files s)\<rparr>, path, []))"

definition payload_read :: "string \<Rightarrow> payload_storage \<Rightarrow> string \<times> effects" where
  "payload_read reference s =
     (case map_of (m_files s) reference of
        None \<Rightarrow> ('''', [Log WARNING ''payload.local'', Publish ''payload.local.open_read_failed'' [(''reference'', reference)]])
      | Some dat \<Rightarrow> (dat, []))"

definition payload_class :: "payload_storage plugin_class" where
  "payload_class = default_plugin
     \<lparr>c_name := (\<lambda>_. ''payload_local''), c_version := (\<lambda>_. ''1.0.0''), c_unique_type := (\<lambda>_. ''payload_storage''),
      c_capabilities := (\<lambda>_. cap_bit RUN_PAYLOAD_STORAGE),
      c_on_load := (\<lambda>cfg s. (fst (set_directory None (case config_get cfg ''directory'' of None \<Rightarrow> ''payloads'' | Some d \<Rightarrow> d) s), False)),
      c_get := (\<lambda>t _. if t = RUN_PAYLOAD_STORAGE then 1 else 0)\<rparr>"

interpretation json_caps: advertised json_class
  by unfold_locales (rename_tac t p, case_tac t; simp add: json_class_def)

interpretation toml_caps: advertised toml_class
  by unfold_locales (rename_tac t p, case_tac t; simp add: toml_class_def)

interpretation openapi_caps: advertised "openapi_class host"
  by unfold_locales (rename_tac t p, case_tac t; simp add: openapi_class_def)

interpretation worker_orchestrator_caps: advertised "worker_orchestrator_class host"
  by unfold_locales (rename_tac t p, case_tac t; simp add: worker_orchestrator_class_def)

interpretation workflow_orchestrator_caps: advertised "workflow_orchestrator_class host"
  by unfold_locales (rename_tac t p, case_tac t; simp add: workflow_orchestrator_class_def)

interpretation payload_caps: advertised payload_class
  by unfold_locales (rename_tac t p, case_tac t; simp add: payload_class_def)

section \<open>References stay valid\<close>

definition read_hex :: "string \<Rightarrow> nat" where
  "read_hex s = foldl (\<lambda>n c. 16 * n + the (hex_val c)) 0 s"

lemma read_hex_show: "read_hex (show_hex n) = n"
proof (induction n rule: show_hex.induct)
  case (1 n)
  show ?case
  proof (cases "n < 16")
    case True
    then show ?thesis by (simp add: show_hex.simps [of n] read_hex_def hex_val_digit)
  next
    case False
    then have "read_hex (show_hex n) = 16 * read_hex (show_hex (n div 16)) + n mod 16"
      by (simp add: show_hex.simps [of n] read_hex_def hex_val_digit)
    then show ?thesis using 1 False by simp
  qed
qed

lemma hex_digit_chars: "list_all (\<lambda>n. hex_digit n \<noteq> CHR ''/'' \<and> hex_digit n \<noteq> CHR ''-'' \<and> hex_digit n \<noteq> CHR ''.'') [0..<16]"
  by code_simp

lemma show_hex_chars: "CHR ''/'' \<notin> set (show_hex n)" "CHR ''-'' \<notin> set (show_hex n)" "CHR ''.'' \<notin> set (show_hex n)"
proof -
  have d: "hex_digit k \<noteq> CHR ''/'' \<and> hex_digit k \<noteq> CHR ''-'' \<and> hex_digit k \<noteq> CHR ''.''" if "k < 16" for k
    using hex_digit_chars that by (simp add: list_all_iff)
  have "CHR ''/'' \<notin> set (show_hex n) \<and> CHR ''-'' \<notin> set (show_hex n) \<and> CHR ''.'' \<notin> set (show_hex n)"
  proof (induction n rule: show_hex.induct)
    case (1 n)
    then show ?case
      using d [of n] d [of "n mod 16"] by (cases "n < 16") (auto simp: show_hex.simps [of n] dest: sym)
  qed
  then show "CHR ''/'' \<notin> set (show_hex n)" "CHR ''-'' \<notin> set (show_hex n)" "CHR ''.'' \<notin> set (show_hex n)" by simp_all
qed

text \<open>The last component of a path, and the counter that it ends with.\<close>

definition file_name :: "string \<Rightarrow> string" where
  "file_name path = rev (takeWhile (\<lambda>c. c \<noteq> CHR ''/'') (rev path))"

definition name_counter :: "string \<Rightarrow> nat" where
  "name_counter nm = read_hex (takeWhile (\<lambda>c. c \<noteq> CHR ''.'') (tl (dropWhile (\<lambda>c. c \<noteq> CHR ''-'') nm)))"

lemma upto_char:
  "c \<notin> set xs \<Longrightarrow> takeWhile (\<lambda>x. x \<noteq> c) (xs @ c # ys) = xs"
  "c \<notin> set xs \<Longrightarrow> dropWhile (\<lambda>x. x \<noteq> c) (xs @ c # ys) = c # ys"
  "c \<notin> set xs \<Longrightarrow> takeWhile (\<lambda>x. x \<noteq> c) xs = xs"
  by (induction xs) auto

lemma file_name_slash: "CHR ''/'' \<notin> set nm \<Longrightarrow> file_name (d @ CHR ''/'' # nm) = nm"
  using upto_char(1) [of "CHR ''/''" "rev nm" "rev d"] by (simp add: file_name_def)

lemma file_name_join:
  assumes "CHR ''/'' \<notin> set nm"
  shows "file_name (path_join d nm) = nm"
proof (cases d rule: rev_cases)
  case Nil
  then show ?thesis using assms by (simp add: path_join_def file_name_def upto_char(3))
next
  case (snoc e c)
  then show ?thesis
    using file_name_slash [OF assms, of e] file_name_slash [OF assms, of d] by (simp add: path_join_def)
qed

lemma name_counter_id: "name_counter (show_hex a @ CHR ''-'' # show_hex b @ ''.payload'') = b"
  by (simp add: name_counter_def upto_char show_hex_chars read_hex_show)

text \<open>
  A run of re-rootings and writes, with the reference and the data of every write; a write that
  could not open its file has the empty reference.
\<close>

datatype payload_op = Set_directory string | Write_payload nat string

fun payload_step :: "(string \<Rightarrow> string \<Rightarrow> string option) \<Rightarrow> payload_op \<Rightarrow> payload_storage \<Rightarrow> payload_storage \<times> (string \<times> string) list" where
  "payload_step stream (Set_directory d) s = (fst (set_directory None d s), [])"
| "payload_step stream (Write_payload now dat) s =
     (let (s', reference, _) = payload_write stream now dat s in (s', [(reference, dat)]))"

fun payload_run :: "(string \<Rightarrow> string \<Rightarrow> string option) \<Rightarrow> payload_op list \<Rightarrow> payload_storage \<Rightarrow> payload_storage \<times> (string \<times> string) list" where
  "payload_run stream [] s = (s, [])"
| "payload_run stream (op # os) s =
     (let (s1, rs) = payload_step stream op s; (s2, rs') = payload_run stream os s1 in (s2, rs @ rs'))"

text \<open>What is relied on of the disk: a file that could be opened holds what was written.\<close>

definition disk_takes_all :: "(string \<Rightarrow> string \<Rightarrow> string option) \<Rightarrow> bool" where
  "disk_takes_all stream \<longleftrightarrow> (\<forall>path dat held. stream path dat = Some held \<longrightarrow> held = dat)"

definition written :: "nat \<Rightarrow> (string \<times> string) list \<Rightarrow> payload_storage \<Rightarrow> bool" where
  "written n rs s \<longleftrightarrow> (\<forall>(r, d) \<in> set rs. r \<noteq> '''' \<longrightarrow>
     map_of (m_files s) r = Some d \<and> name_counter (file_name r) < n)"

lemma payload_write_ok:
  assumes "payload_write stream now dat s = (s', r, e)" "disk_takes_all stream" "written (unat (m_counter s)) rs s"
    "unat (m_counter s) + 1 < 2 ^ 64"
  shows "unat (m_counter s') = unat (m_counter s) + 1 \<and> written (unat (m_counter s')) (rs @ [(r, dat)]) s'"
proof -
  let ?nm = "show_hex now @ CHR ''-'' # show_hex (unat (m_counter s)) @ ''.payload''"
  let ?p = "path_join (m_dir s) ?nm"
  have c: "unat (m_counter s + 1) = unat (m_counter s) + 1"
    using assms(4) by (simp add: unat_word_ariths(1))
  have nm: "name_counter (file_name ?p) = unat (m_counter s)"
    by (subst file_name_join) (simp_all add: show_hex_chars name_counter_id)
  have old: "q \<noteq> ?p" if "(q, d) \<in> set rs" "q \<noteq> ''''" for q d
    using assms(3) that nm by (auto simp: written_def)
  show ?thesis
  proof (cases "stream ?p dat")
    case None
    then show ?thesis
      using assms(1,3) c by (auto simp: payload_write_def generate_id_def written_def Let_def)
  next
    case (Some held)
    then have held: "held = dat" using assms(2) unfolding disk_takes_all_def by blast
    have eqs: "s' = s\<lparr>m_counter := m_counter s + 1, m_files := AList.update ?p dat (m_files s)\<rparr>" "r = ?p"
      using assms(1) Some held by (auto simp: payload_write_def generate_id_def Let_def)
    have "map_of (m_files s') q = Some d \<and> name_counter (file_name q) < unat (m_counter s) + 1"
      if "(q, d) \<in> set rs" "q \<noteq> ''''" for q d
      using assms(3) that old [OF that] eqs(1) by (fastforce simp: written_def update_conv')
    then show ?thesis using nm c eqs by (auto simp: written_def update_conv')
  qed
qed

lemma payload_run_ok:
  "disk_takes_all stream \<Longrightarrow> written (unat (m_counter s)) rs s \<Longrightarrow> unat (m_counter s) + length os < 2 ^ 64 \<Longrightarrow>
   payload_run stream os s = (s', rs') \<Longrightarrow> written (unat (m_counter s')) (rs @ rs') s'"
proof (induction os arbitrary: s rs rs')
  case (Cons op os)
  obtain s1 q where step: "payload_step stream op s = (s1, q)" by (metis prod.exhaust)
  obtain q' where run: "payload_run stream os s1 = (s', q')" "rs' = q @ q'"
    using Cons.prems(4) step by (auto split: prod.splits)
  have "written (unat (m_counter s1)) (rs @ q) s1 \<and> unat (m_counter s1) \<le> unat (m_counter s) + 1"
  proof (cases op)
    case (Set_directory d)
    then show ?thesis using step Cons.prems(2) by (auto simp: set_directory_def written_def)
  next
    case (Write_payload now dat)
    then obtain r e where "payload_write stream now dat s = (s1, r, e)" "q = [(r, dat)]"
      using step by (auto split: prod.splits)
    then show ?thesis using payload_write_ok [OF _ Cons.prems(1,2)] Cons.prems(3) by fastforce
  qed
  then show ?case using Cons.IH [OF Cons.prems(1) _ _ run(1), of "rs @ q"] Cons.prems(3) run(2) by simp
qed simp


definition sample_storage :: payload_storage where
  "sample_storage = \<lparr>m_dir = ''payloads'', m_counter = 0, m_files = []\<rparr>"


text \<open>A write that the disk cut short reports its path as if it had succeeded.\<close>

lemma short_write_reported_as_success:
  "\<exists>s' r. payload_write (\<lambda>_ _. Some '''') 5 ''data'' sample_storage = (s', r, []) \<and> r \<noteq> '''' \<and> payload_read r s' = ('''', [])"
  by (simp add: payload_write_def generate_id_def path_join_def sample_storage_def payload_read_def Let_def)

text \<open>A reference from elsewhere is read as it is, in the directory or not.\<close>

lemma any_path_is_read:
  "payload_read ''/etc/passwd'' (sample_storage\<lparr>m_files := [(''/etc/passwd'', ''root'')]\<rparr>) = (''root'', [])"
  by (simp add: payload_read_def sample_storage_def)

end
