(* ===== verification/WorkflowModel.thy ===== *)
theory WorkflowModel
  imports TaskStore Workers
begin

text \<open>
  The data of the workflow orchestrator (plugins/shared/model) and its helpers: conditions and
  scripts in Lua (lua_eval.cppm), system tasks (system_task.cppm), the check of an input against a
  schema (schema_validator.cppm) and the projections for the search (projector.cppm), all under
  plugins/orchestrator/workflow_local/src.
\<close>

section \<open>Definitions and executions\<close>

datatype TaskType = SIMPLE | FORK | JOIN | SWITCH | SUB_WORKFLOW | DYNAMIC | TERMINATE | SET_VARIABLE | NOOP | LAMBDA
  | INLINE | JSON_JQ_TRANSFORM | DO_WHILE | FORK_JOIN_DYNAMIC | START_WORKFLOW | WAIT | HUMAN | EVENT

definition task_terminal :: "TaskStatus \<Rightarrow> bool" where
  "task_terminal s \<longleftrightarrow> s = COMPLETED \<or> s = FAILED \<or> s = TIMED_OUT \<or> s = SKIPPED \<or> s = CANCELED"

datatype WorkflowStatus = W_RUNNING | W_COMPLETED | W_FAILED | W_TIMED_OUT | W_PAUSED | W_TERMINATED

definition workflow_terminal :: "WorkflowStatus \<Rightarrow> bool" where
  "workflow_terminal s \<longleftrightarrow> s = W_COMPLETED \<or> s = W_FAILED \<or> s = W_TIMED_OUT \<or> s = W_TERMINATED"

fun status_name :: "WorkflowStatus \<Rightarrow> string" where
  "status_name W_RUNNING = ''RUNNING''"
| "status_name W_COMPLETED = ''COMPLETED''"
| "status_name W_FAILED = ''FAILED''"
| "status_name W_TIMED_OUT = ''TIMED_OUT''"
| "status_name W_PAUSED = ''PAUSED''"
| "status_name W_TERMINATED = ''TERMINATED''"

type_synonym strings = "(string \<times> string) list"

record TaskEdge =
  te_from :: string
  te_to :: string
  te_condition :: "string option"
  te_mappings :: strings

datatype JoinType = JOIN_ALL | JOIN_ANY

record TaskNode =
  tn_def_name :: string
  tn_ref_name :: string
  tn_edges :: "TaskEdge list"
  tn_join_on :: "string list"
  tn_join_type :: JoinType
  tn_loop_body :: "string list"
  tn_loop_condition :: "string option"
  tn_dynamic_tasks_input_key :: "string option"

record WorkflowDef =
  wd_name :: string
  wd_version :: "32 word"
  wd_nodes :: "TaskNode list"
  wd_output_mappings :: strings
  wd_failure_workflow :: "string option"
  wd_restartable :: bool
  wd_listener_enabled :: bool

text \<open>A definition without a name, for a row that is not there.\<close>

definition empty_def :: WorkflowDef where
  "empty_def = \<lparr>wd_name = '''', wd_version = 1, wd_nodes = [], wd_output_mappings = [], wd_failure_workflow = None,
     wd_restartable = True, wd_listener_enabled = False\<rparr>"

datatype RetryBackoff = FIXED | EXPONENTIAL

record RetryPolicy =
  rp_max_attempts :: "32 word"
  rp_backoff :: RetryBackoff
  rp_interval_ms :: "32 word"

definition default_retry :: RetryPolicy where
  "default_retry = \<lparr>rp_max_attempts = 3, rp_backoff = FIXED, rp_interval_ms = 1000\<rparr>"

datatype TimeoutAction = RETRY | FAIL_WORKFLOW | ALERT_ONLY

text \<open>The fields of a task definition that the orchestrator reads besides those of the store.\<close>

record FullTaskDef = TaskDef +
  td_type :: TaskType
  td_retry :: RetryPolicy
  td_timeout_action :: TimeoutAction
  td_max_concurrent :: "32 word option"
  td_dynamic_task_param :: "string option"
  td_wait_duration_ms :: "32 word option"
  td_input_schema :: "string option"
  td_enforce_schema :: bool

type_synonym instance_row = "generic TaskInstance"

record WorkflowExecution =
  x_exec_id :: string
  x_def_name :: string
  x_def_version :: "32 word"
  x_status :: WorkflowStatus
  x_correlation_id :: "string option"
  x_variables :: strings
  x_task_instances :: "instance_row list"
  x_timings :: "int option \<times> int option \<times> int option"
  x_dynamic_nodes :: "TaskNode list"
  x_parent_exec_id :: "string option"

datatype EventActionType = E_START_WORKFLOW | E_COMPLETE_TASK | E_FAIL_TASK | E_TERMINATE_WORKFLOW | E_UPDATE_WORKFLOW_VARIABLES

record EventHandler =
  eh_event :: string
  eh_condition :: "string option"
  eh_actions :: "(EventActionType \<times> strings) list"
  eh_active :: bool

section \<open>The state and its surroundings\<close>

text \<open>
  The rows that the orchestrator writes, the identifiers drawn so far, the globals of the Lua
  interpreter, the documents handed to the search and what was logged and published. The
  connector is in its local mode, where every callback runs at once, and stands for the map that
  it refines.
\<close>

record wf_state =
  w_execs :: "(string \<times> WorkflowExecution) list"
  w_tasks :: "(string \<times> instance_row) list"
  w_ids :: nat
  w_lua :: "(string \<times> generic) list"
  w_index :: "(string \<times> string \<times> string) list"
  w_effects :: effects

text \<open>
  A chunk that ran gives the truth value of its result and its text, None for nil; an
  interpreter may change its globals.
\<close>

datatype lua_result = Parse_error string | Runtime_error string | Returned bool "string option"

type_synonym lua = "(string \<times> generic) list \<Rightarrow> string \<Rightarrow> (string \<times> generic) list \<times> lua_result"

record WorkflowSummary =
  ws_exec_id :: string
  ws_workflow_type :: string
  ws_version :: "32 word"
  ws_status :: WorkflowStatus
  ws_correlation_id :: "string option"
  ws_start_time :: "int option"
  ws_end_time :: "int option"
  ws_failed_task_names :: "string list"

record TaskSummary =
  tsu_task_id :: string
  tsu_task_def_name :: string
  tsu_workflow_exec_id :: string
  tsu_status :: TaskStatus
  tsu_scheduled_time :: "int option"
  tsu_start_time :: "int option"
  tsu_update_time :: "int option"
  tsu_queue_wait_time_ms :: "64 word"

text \<open>
  What the orchestrator reads: the definitions and the event handlers, the identifiers of
  \<open>generate_id\<close> in the order in which they are drawn, the clock, which is read as constant during
  one operation, the Lua bridge (None without one, Some None without a native handle) and the
  search provider with the texts of the summaries. \<open>v_default_input\<close> is the value that reflect-cpp
  constructs by default.
\<close>

record wf_env =
  v_workflow_defs :: "string \<Rightarrow> WorkflowDef option"
  v_task_defs :: "string \<Rightarrow> FullTaskDef option"
  v_handlers :: "EventHandler list"
  v_id :: "nat \<Rightarrow> string"
  v_default_input :: generic
  v_now :: int
  v_bridge :: "lua option option"
  v_search :: "(string \<Rightarrow> string \<Rightarrow> string \<Rightarrow> bool) option"
  v_workflow_json :: "WorkflowSummary \<Rightarrow> string"
  v_task_json :: "TaskSummary \<Rightarrow> string"

definition emit :: "effects \<Rightarrow> wf_state \<Rightarrow> wf_state" where
  "emit es st = st\<lparr>w_effects := w_effects st @ es\<rparr>"

definition put_exec :: "WorkflowExecution \<Rightarrow> wf_state \<Rightarrow> wf_state" where
  "put_exec e st = st\<lparr>w_execs := AList.update (x_exec_id e) e (w_execs st)\<rparr>"

definition put_task :: "instance_row \<Rightarrow> wf_state \<Rightarrow> wf_state" where
  "put_task i st = st\<lparr>w_tasks := AList.update (m_task_id i) i (w_tasks st)\<rparr>"

definition draw_id :: "wf_env \<Rightarrow> wf_state \<Rightarrow> wf_state \<times> string" where
  "draw_id E st = (st\<lparr>w_ids := Suc (w_ids st)\<rparr>, v_id E (w_ids st))"

definition to_value_input :: "strings \<Rightarrow> generic" where
  "to_value_input input = GObject (map (map_prod id GString) input)"

definition assign_all :: "strings \<Rightarrow> strings \<Rightarrow> strings" where
  "assign_all updates m = fold (\<lambda>(k, v). AList.update k v) updates m"

section \<open>Lua\<close>

definition set_global :: "string \<times> generic \<Rightarrow> (string \<times> generic) list \<Rightarrow> (string \<times> generic) list" where
  "set_global b g = (case b of (k, GNull) \<Rightarrow> AList.delete (c_str k) g | (k, v) \<Rightarrow> AList.update (c_str k) v g)"

definition load_and_run :: "wf_env \<Rightarrow> string \<Rightarrow> generic \<Rightarrow> wf_state \<Rightarrow> wf_state \<times> (bool \<times> string option) option" where
  "load_and_run E expr bindings st =
     (if expr = '''' then (st, None)
      else case v_bridge E of
        None \<Rightarrow> (emit [Log WARNING ''engine'', Publish ''engine.lua_eval.no_bridge'' [(''expr'', expr)]] st, None)
      | Some None \<Rightarrow> (emit [Log WARNING ''engine'', Publish ''engine.lua_eval.no_native_handle'' []] st, None)
      | Some (Some lua) \<Rightarrow>
          (let g = (case to_object bindings of None \<Rightarrow> w_lua st | Some ms \<Rightarrow> fold set_global ms (w_lua st));
               (g', r) = lua g (c_str (''return ('' @ expr @ '')''))
           in case r of
                Parse_error e \<Rightarrow>
                  (emit [Log WARNING ''engine'', Publish ''engine.lua_eval.parse_error'' [(''expr'', expr), (''error'', e)]]
                     (st\<lparr>w_lua := g\<rparr>), None)
              | Runtime_error e \<Rightarrow>
                  (emit [Log WARNING ''engine'', Publish ''engine.lua_eval.runtime_error'' [(''expr'', expr), (''error'', e)]]
                     (st\<lparr>w_lua := g'\<rparr>), None)
              | Returned b t \<Rightarrow> (st\<lparr>w_lua := g'\<rparr>, Some (b, t))))"

definition eval_condition :: "wf_env \<Rightarrow> string \<Rightarrow> generic \<Rightarrow> wf_state \<Rightarrow> wf_state \<times> bool" where
  "eval_condition E expr bindings st =
     (let (st, r) = load_and_run E expr bindings st in (st, case r of None \<Rightarrow> False | Some (b, _) \<Rightarrow> b))"

definition eval_value :: "wf_env \<Rightarrow> string \<Rightarrow> generic \<Rightarrow> wf_state \<Rightarrow> wf_state \<times> string option" where
  "eval_value E expr bindings st =
     (let (st, r) = load_and_run E expr bindings st in (st, case r of None \<Rightarrow> None | Some (_, t) \<Rightarrow> t))"

section \<open>System tasks\<close>

record SystemTaskOutcome =
  so_output_data :: strings
  so_terminate_workflow :: bool
  so_terminate_status :: WorkflowStatus

definition outcome_of :: "strings \<Rightarrow> SystemTaskOutcome" where
  "outcome_of out = \<lparr>so_output_data = out, so_terminate_workflow = False, so_terminate_status = W_COMPLETED\<rparr>"

definition is_system_task :: "TaskType \<Rightarrow> bool" where
  "is_system_task t \<longleftrightarrow> t \<in> set [TERMINATE, SET_VARIABLE, NOOP, JOIN, FORK, LAMBDA, INLINE, JSON_JQ_TRANSFORM]"

definition execute_terminate :: "strings \<Rightarrow> SystemTaskOutcome" where
  "execute_terminate input =
     \<lparr>so_output_data = AList.delete ''status'' input, so_terminate_workflow = True,
      so_terminate_status =
        (case map_of input ''status'' of
           Some v \<Rightarrow> if v = ''FAILED'' then W_FAILED else if v = ''TIMED_OUT'' then W_TIMED_OUT
                     else if v = ''TERMINATED'' then W_TERMINATED else W_COMPLETED
         | None \<Rightarrow> W_COMPLETED)\<rparr>"

definition execute_script :: "wf_env \<Rightarrow> strings \<Rightarrow> strings \<Rightarrow> wf_state \<Rightarrow> wf_state \<times> SystemTaskOutcome" where
  "execute_script E input variables st =
     (case map_of input ''script'' of
        None \<Rightarrow> (emit [Log WARNING ''engine'', Publish ''engine.system_task.missing_script_input'' []] st, outcome_of [])
      | Some script \<Rightarrow>
          (let (st, r) = eval_value E script (to_value_input (assign_all (AList.delete ''script'' input) variables)) st
           in (st, outcome_of (case r of None \<Rightarrow> [] | Some t \<Rightarrow> [(''result'', t)]))))"

definition system_execute :: "wf_env \<Rightarrow> TaskType \<Rightarrow> strings \<Rightarrow> strings \<Rightarrow> wf_state \<Rightarrow> wf_state \<times> SystemTaskOutcome" where
  "system_execute E t input variables st =
     (if t = TERMINATE then (st, execute_terminate input)
      else if t \<in> set [SET_VARIABLE, NOOP, JOIN, FORK] then (st, outcome_of input)
      else if t \<in> set [LAMBDA, INLINE, JSON_JQ_TRANSFORM] then execute_script E input variables st
      else (emit [Log ERROR ''engine'', Publish ''engine.system_task.unhandled_type'' []] st, outcome_of []))"

section \<open>The check of an input\<close>

text \<open>The loop of \<open>matching_bracket\<close> on the text from its index on; the result counts from there.\<close>

fun scan_bracket :: "int \<Rightarrow> bool \<Rightarrow> string \<Rightarrow> nat option" where
  "scan_bracket depth in_string [] = None"
| "scan_bracket depth True (c # cs) =
     (if c = backslash then map_option (\<lambda>i. i + 2) (scan_bracket depth True (tl cs))
      else map_option Suc (scan_bracket depth (c \<noteq> dquote) cs))"
| "scan_bracket depth False (c # cs) =
     (if c = dquote then map_option Suc (scan_bracket depth True cs)
      else if c = CHR ''['' then map_option Suc (scan_bracket (depth + 1) False cs)
      else if c = CHR '']'' then
        (if depth - 1 = 0 then Some 0 else map_option Suc (scan_bracket (depth - 1) False cs))
      else map_option Suc (scan_bracket depth False cs))"

definition matching_bracket :: "string \<Rightarrow> nat \<Rightarrow> nat option" where
  "matching_bracket text open_pos = map_option (\<lambda>i. open_pos + i) (scan_bracket 0 False (drop open_pos text))"

text \<open>The names in the text between the brackets; the text ends before the closing one.\<close>

fun read_names :: "string option \<Rightarrow> string \<Rightarrow> string list" where
  "read_names cur [] = []"
| "read_names None (c # cs) = read_names (if c = dquote then Some [] else None) cs"
| "read_names (Some cur) (c # cs) =
     (if c = backslash \<and> cs \<noteq> [] then read_names (Some (cur @ [hd cs])) (tl cs)
      else if c = dquote then cur # read_names None cs
      else read_names (Some (cur @ [c])) cs)"

definition extract_required :: "string \<Rightarrow> string list" where
  "extract_required schema =
     (case find_sub ([dquote] @ ''required'' @ [dquote]) schema of
        None \<Rightarrow> []
      | Some key_pos \<Rightarrow>
          (case find_char (CHR ''['') (drop key_pos schema) of
             None \<Rightarrow> []
           | Some off \<Rightarrow>
               (let open_pos = key_pos + off
                in case matching_bracket schema open_pos of
                     None \<Rightarrow> []
                   | Some close_pos \<Rightarrow> read_names None (drop (open_pos + 1) (take close_pos schema)))))"

definition validate_schema :: "string \<Rightarrow> generic \<Rightarrow> string option" where
  "validate_schema schema dat =
     map_option (\<lambda>k. ''missing required field '' @ [quote] @ k @ [quote])
       (List.find (\<lambda>k. case to_object dat of None \<Rightarrow> True | Some ms \<Rightarrow> map_of ms k = None) (extract_required schema))"

section \<open>Projections\<close>

definition index_document :: "wf_env \<Rightarrow> string \<Rightarrow> string \<Rightarrow> string \<Rightarrow> wf_state \<Rightarrow> wf_state" where
  "index_document E collection i json st =
     (case v_search E of
        None \<Rightarrow> st
      | Some index \<Rightarrow>
          (let st = st\<lparr>w_index := w_index st @ [(collection, i, json)]\<rparr>
           in if index collection i json then st
              else emit [Log WARNING ''engine'', Publish ''engine.search.index_failed'' [(''collection'', collection), (''id'', i)]] st))"

definition workflow_summary :: "WorkflowExecution \<Rightarrow> WorkflowSummary" where
  "workflow_summary e =
     \<lparr>ws_exec_id = x_exec_id e, ws_workflow_type = x_def_name e, ws_version = x_def_version e, ws_status = x_status e,
      ws_correlation_id = x_correlation_id e, ws_start_time = fst (snd (x_timings e)), ws_end_time = snd (snd (x_timings e)),
      ws_failed_task_names = map m_def_name (filter (\<lambda>i. m_status i = FAILED \<or> m_status i = TIMED_OUT) (x_task_instances e))\<rparr>"

definition project_workflow :: "wf_env \<Rightarrow> WorkflowExecution \<Rightarrow> wf_state \<Rightarrow> wf_state" where
  "project_workflow E e = index_document E ''workflow_summaries'' (x_exec_id e) (v_workflow_json E (workflow_summary e))"

text \<open>
  The wait is a difference of times in nanoseconds; the cast to milliseconds rounds towards zero
  and the cast to an unsigned value wraps.
\<close>

definition queue_wait_ms :: "int option \<times> int option \<times> int option \<Rightarrow> 64 word" where
  "queue_wait_ms t =
     (case t of
        (Some scheduled, Some started, _) \<Rightarrow>
          word_of_int (sgn (started - scheduled) * (\<bar>started - scheduled\<bar> div 1000000))
      | _ \<Rightarrow> 0)"

definition task_summary :: "instance_row \<Rightarrow> TaskSummary" where
  "task_summary i =
     \<lparr>tsu_task_id = m_task_id i, tsu_task_def_name = m_def_name i, tsu_workflow_exec_id = m_workflow_exec_id i,
      tsu_status = m_status i, tsu_scheduled_time = fst (m_timings i), tsu_start_time = fst (snd (m_timings i)),
      tsu_update_time = snd (snd (m_timings i)), tsu_queue_wait_time_ms = queue_wait_ms (m_timings i)\<rparr>"

definition project_task :: "wf_env \<Rightarrow> instance_row \<Rightarrow> wf_state \<Rightarrow> wf_state" where
  "project_task E i = index_document E ''task_summaries'' (m_task_id i) (v_task_json E (task_summary i))"

section \<open>What the helpers keep\<close>

text \<open>No helper writes a row or draws an identifier.\<close>

definition same_rows :: "wf_state \<Rightarrow> wf_state \<Rightarrow> bool" where
  "same_rows st st' \<longleftrightarrow> w_execs st' = w_execs st \<and> w_tasks st' = w_tasks st \<and> w_ids st' = w_ids st"

lemma same_rows_refl [simp]: "same_rows st st"
  by (simp add: same_rows_def)

lemma same_rows_trans: "same_rows a b \<Longrightarrow> same_rows b c \<Longrightarrow> same_rows a c"
  by (simp add: same_rows_def)

lemma same_rows_emit [simp]: "same_rows st (emit es st') \<longleftrightarrow> same_rows st st'"
  by (simp add: same_rows_def emit_def)

lemma load_and_run_rows: "same_rows st (fst (load_and_run E expr bindings st))"
  by (auto simp: load_and_run_def Let_def same_rows_def emit_def case_prod_beta split: option.split lua_result.split)

lemma eval_condition_rows: "same_rows st (fst (eval_condition E expr bindings st))"
  using load_and_run_rows [of st E expr bindings] by (simp add: eval_condition_def case_prod_beta)

lemma system_execute_rows: "same_rows st (fst (system_execute E t input variables st))"
  using load_and_run_rows
  by (auto simp: system_execute_def execute_script_def eval_value_def case_prod_beta split: option.split)

lemma index_document_rows: "same_rows st (index_document E c i j st)"
  by (simp add: index_document_def same_rows_def emit_def Let_def split: option.split)

text \<open>A condition that cannot be evaluated is false.\<close>

lemma condition_fails_closed:
  "snd (eval_condition E expr bindings st) \<Longrightarrow> expr \<noteq> '''' \<and> (\<exists>lua. v_bridge E = Some (Some lua))"
  by (auto simp: eval_condition_def load_and_run_def case_prod_beta split: if_splits option.splits)

text \<open>A wait that ended before it began is a huge one.\<close>

lemma negative_wait_wraps: "queue_wait_ms (Some 1000000, Some 0, None) = 2 ^ 64 - 1"
  by (simp add: queue_wait_ms_def)

text \<open>The names of another array are taken for the required ones.\<close>

lemma required_of_other_array:
  "extract_required (''{'' @ [dquote] @ ''required'' @ [dquote] @ '':1,'' @ [dquote] @ ''enum'' @ [dquote] @ '':['' @ [dquote] @ ''a'' @ [dquote] @ '']}'') = [''a'']"
  by code_simp

end
