(* ===== verification/Workflow.thy ===== *)
theory Workflow
  imports WorkflowModel "HOL-Library.Monad_Syntax"
begin

text \<open>
  The workflow orchestrator, plugins/orchestrator/workflow_local/src/orchestrator.cppm, and the
  backend around it (workflow_local.cppm). The operations that call each other across executions
  (\<open>start\<close>, \<open>advance\<close>, \<open>spawn_next\<close>, \<open>on_execution_terminal\<close>, \<open>on_task_terminal\<close>) are values of the
  type \<open>call\<close>; the body of each takes the function that runs a call, and \<open>run\<close> ties the knot with
  fuel, since a workflow may start itself without end.

  The answer of a call is what its callback gets: None when the callback is never called,
  \<open>Some None\<close> for \<open>std::nullopt\<close>.
\<close>

type_synonym answer = "WorkflowExecution option option"

datatype call =
    Start string strings "string option"
  | Advance WorkflowExecution WorkflowDef
  | Spawn_next WorkflowExecution WorkflowDef "string list"
  | On_execution_terminal WorkflowExecution
  | On_task_terminal instance_row

type_synonym runner = "call \<Rightarrow> wf_state \<Rightarrow> (wf_state \<times> answer) option"

section \<open>Instances and nodes\<close>

definition find_node :: "WorkflowDef \<Rightarrow> string \<Rightarrow> TaskNode option" where
  "find_node d ref = List.find (\<lambda>n. tn_ref_name n = ref) (wd_nodes d)"

definition find_instance :: "instance_row list \<Rightarrow> string \<Rightarrow> instance_row option" where
  "find_instance is ref = List.find (\<lambda>i. m_node_ref i = ref) is"

fun replace_instance :: "instance_row \<Rightarrow> instance_row list \<Rightarrow> instance_row list" where
  "replace_instance i [] = [i]"
| "replace_instance i (j # js) = (if m_task_id j = m_task_id i then i # js else j # replace_instance i js)"

definition sync_instance :: "instance_row \<Rightarrow> WorkflowExecution \<Rightarrow> WorkflowExecution" where
  "sync_instance i e = e\<lparr>x_task_instances := replace_instance i (x_task_instances e)\<rparr>"

definition succeeded :: "instance_row \<Rightarrow> bool" where
  "succeeded i \<longleftrightarrow> m_status i = COMPLETED \<or> m_status i = SKIPPED"

definition new_instance :: "wf_env \<Rightarrow> WorkflowExecution \<Rightarrow> string \<Rightarrow> string \<Rightarrow> TaskStatus \<Rightarrow> wf_state \<Rightarrow> wf_state \<times> instance_row" where
  "new_instance E e def_name ref s st =
     (let (st, i) = draw_id E st
      in (st, (init_task (v_default_input E))\<lparr>m_task_id := i, m_workflow_exec_id := x_exec_id e, m_def_name := def_name,
                m_node_ref := ref, m_status := s\<rparr>))"

definition add_instance :: "instance_row \<Rightarrow> WorkflowExecution \<Rightarrow> WorkflowExecution" where
  "add_instance i e = e\<lparr>x_task_instances := x_task_instances e @ [i]\<rparr>"

text \<open>Ending an execution, at the time of the clock.\<close>

definition finish_exec :: "wf_env \<Rightarrow> WorkflowStatus \<Rightarrow> WorkflowExecution \<Rightarrow> WorkflowExecution" where
  "finish_exec E s e = e\<lparr>x_status := s, x_timings := (fst (x_timings e), fst (snd (x_timings e)), Some (v_now E))\<rparr>"

section \<open>Which nodes are ready\<close>

definition edge_condition_ok :: "wf_env \<Rightarrow> WorkflowExecution \<Rightarrow> TaskEdge \<Rightarrow> instance_row \<Rightarrow> wf_state \<Rightarrow> wf_state \<times> bool" where
  "edge_condition_ok E e edge predecessor st =
     (case te_condition edge of
        None \<Rightarrow> (st, True)
      | Some c \<Rightarrow> eval_condition E c (to_value_input (assign_all (m_output_data predecessor) (x_variables e))) st)"

definition incoming :: "WorkflowDef \<Rightarrow> string \<Rightarrow> TaskEdge list" where
  "incoming d ref = filter (\<lambda>edge. te_to edge = ref) (concat (map tn_edges (wd_nodes d)))"

definition join_ready :: "instance_row list \<Rightarrow> TaskNode \<Rightarrow> bool" where
  "join_ready is node =
     (case tn_join_type node of
        JOIN_ALL \<Rightarrow> list_all (\<lambda>ref. case find_instance is ref of None \<Rightarrow> False | Some i \<Rightarrow> task_terminal (m_status i)) (tn_join_on node)
      | JOIN_ANY \<Rightarrow> list_ex (\<lambda>ref. case find_instance is ref of None \<Rightarrow> False | Some i \<Rightarrow> succeeded i) (tn_join_on node))"

text \<open>Whether some edge is satisfied, and whether all predecessors have ended.\<close>

fun scan_incoming :: "wf_env \<Rightarrow> WorkflowExecution \<Rightarrow> TaskEdge list \<Rightarrow> wf_state \<Rightarrow> wf_state \<times> bool \<times> bool" where
  "scan_incoming E e [] st = (st, False, True)"
| "scan_incoming E e (edge # edges) st =
     (case find_instance (x_task_instances e) (te_from edge) of
        None \<Rightarrow> (let (st, any, _) = scan_incoming E e edges st in (st, any, False))
      | Some p \<Rightarrow>
          if \<not> task_terminal (m_status p) then (let (st, any, _) = scan_incoming E e edges st in (st, any, False))
          else (let (st, ok) = (if succeeded p then edge_condition_ok E e edge p st else (st, False));
                    (st, any, all) = scan_incoming E e edges st
                in (st, ok \<or> any, all)))"

datatype decision = Leave | Eligible | Skip

definition decide_node :: "wf_env \<Rightarrow> WorkflowExecution \<Rightarrow> WorkflowDef \<Rightarrow> TaskNode \<Rightarrow> wf_state \<Rightarrow> wf_state \<times> decision" where
  "decide_node E e d node st =
     (if tn_ref_name node \<in> set (map m_node_ref (x_task_instances e)) then (st, Leave)
      else if tn_join_on node \<noteq> [] then (st, if join_ready (x_task_instances e) node then Eligible else Leave)
      else if incoming d (tn_ref_name node) = [] then (st, Eligible)
      else let (st, any, all) = scan_incoming E e (incoming d (tn_ref_name node)) st
           in (st, if any then Eligible else if all then Skip else Leave))"

fun classify :: "wf_env \<Rightarrow> WorkflowExecution \<Rightarrow> WorkflowDef \<Rightarrow> TaskNode list \<Rightarrow> wf_state \<Rightarrow> wf_state \<times> string list \<times> string list" where
  "classify E e d [] st = (st, [], [])"
| "classify E e d (node # nodes) st =
     (let (st, dec) = decide_node E e d node st; (st, eligible, skips) = classify E e d nodes st
      in (st, if dec = Eligible then tn_ref_name node # eligible else eligible,
              if dec = Skip then tn_ref_name node # skips else skips))"

fun skip_nodes :: "wf_env \<Rightarrow> WorkflowDef \<Rightarrow> string list \<Rightarrow> WorkflowExecution \<Rightarrow> wf_state \<Rightarrow> wf_state \<times> WorkflowExecution" where
  "skip_nodes E d [] e st = (st, e)"
| "skip_nodes E d (ref # refs) e st =
     (case find_node d ref of
        None \<Rightarrow> skip_nodes E d refs e st
      | Some node \<Rightarrow>
          (let (st, i) = new_instance E e (tn_def_name node) ref SKIPPED st
           in skip_nodes E d refs (add_instance i e) (put_task i st)))"

section \<open>Events\<close>

text \<open>\<open>complete_instance_by_ref\<close>, also behind \<open>queue_update\<close>.\<close>

definition complete_instance_by_ref :: "runner \<Rightarrow> string \<Rightarrow> string \<Rightarrow> TaskStatus \<Rightarrow> strings \<Rightarrow> wf_state \<Rightarrow> wf_state option" where
  "complete_instance_by_ref rec exec_id node_ref s out st =
     (case map_of (w_execs st) exec_id of
        None \<Rightarrow> Some st
      | Some e \<Rightarrow>
          (case find_instance (x_task_instances e) node_ref of
             None \<Rightarrow> Some st
           | Some i \<Rightarrow>
               (let i = i\<lparr>m_status := s, m_output_data := AList.delete ''task_ref'' (AList.delete ''exec_id'' out)\<rparr>
                in map_option fst (rec (On_task_terminal i) (put_task i st)))))"

definition warn :: "wf_state \<Rightarrow> wf_state" where
  "warn st = emit [Log WARNING ''engine''] st"

definition terminate_status :: "strings \<Rightarrow> WorkflowStatus" where
  "terminate_status payload =
     (case map_of payload ''status'' of
        None \<Rightarrow> W_TERMINATED
      | Some v \<Rightarrow> if v = ''COMPLETED'' then W_COMPLETED else if v = ''FAILED'' then W_FAILED
                   else if v = ''TIMED_OUT'' then W_TIMED_OUT else W_TERMINATED)"

definition execute_event_action :: "runner \<Rightarrow> wf_env \<Rightarrow> EventActionType \<times> strings \<Rightarrow> wf_state \<Rightarrow> wf_state option" where
  "execute_event_action rec E action st =
     (let payload = snd action
      in case fst action of
           E_START_WORKFLOW \<Rightarrow>
             (case map_of payload ''workflow_name'' of
                None \<Rightarrow> Some (warn st)
              | Some w \<Rightarrow> map_option fst (rec (Start w (AList.delete ''workflow_name'' payload) None) st))
         | E_COMPLETE_TASK \<Rightarrow>
             (case (map_of payload ''exec_id'', map_of payload ''task_ref'') of
                (Some x, Some r) \<Rightarrow> complete_instance_by_ref rec x r COMPLETED payload st
              | _ \<Rightarrow> Some (warn st))
         | E_FAIL_TASK \<Rightarrow>
             (case (map_of payload ''exec_id'', map_of payload ''task_ref'') of
                (Some x, Some r) \<Rightarrow> complete_instance_by_ref rec x r FAILED payload st
              | _ \<Rightarrow> Some (warn st))
         | E_TERMINATE_WORKFLOW \<Rightarrow>
             (case map_of payload ''exec_id'' of
                None \<Rightarrow> Some (warn st)
              | Some x \<Rightarrow>
                  (case map_of (w_execs st) x of
                     None \<Rightarrow> Some st
                   | Some e \<Rightarrow>
                       if workflow_terminal (x_status e) then Some st
                       else let e = finish_exec E (terminate_status payload) e
                            in map_option fst (rec (On_execution_terminal e) (put_exec e st))))
         | E_UPDATE_WORKFLOW_VARIABLES \<Rightarrow>
             (case map_of payload ''exec_id'' of
                None \<Rightarrow> Some (warn st)
              | Some x \<Rightarrow>
                  (case map_of (w_execs st) x of
                     None \<Rightarrow> Some st
                   | Some e \<Rightarrow>
                       Some (put_exec (e\<lparr>x_variables := assign_all (AList.delete ''exec_id'' payload) (x_variables e)\<rparr>) st))))"

fun run_actions :: "runner \<Rightarrow> wf_env \<Rightarrow> (EventActionType \<times> strings) list \<Rightarrow> wf_state \<Rightarrow> wf_state option" where
  "run_actions rec E [] st = Some st"
| "run_actions rec E (a # as) st = Option.bind (execute_event_action rec E a st) (run_actions rec E as)"

fun run_handlers :: "runner \<Rightarrow> wf_env \<Rightarrow> string \<Rightarrow> strings \<Rightarrow> EventHandler list \<Rightarrow> wf_state \<Rightarrow> wf_state option" where
  "run_handlers rec E event payload [] st = Some st"
| "run_handlers rec E event payload (h # hs) st =
     (if \<not> eh_active h \<or> eh_event h \<noteq> event then run_handlers rec E event payload hs st
      else let (st, ok) = (case eh_condition h of None \<Rightarrow> (st, True) | Some c \<Rightarrow> eval_condition E c (to_value_input payload) st)
           in if \<not> ok then run_handlers rec E event payload hs st
              else Option.bind (run_actions rec E (eh_actions h) st) (run_handlers rec E event payload hs))"

definition publish_event :: "runner \<Rightarrow> wf_env \<Rightarrow> string \<Rightarrow> strings \<Rightarrow> wf_state \<Rightarrow> wf_state option" where
  "publish_event rec E event payload st =
     run_handlers rec E event payload (v_handlers E) (emit [Publish event payload] st)"

section \<open>Ends\<close>

definition on_execution_terminal :: "runner \<Rightarrow> wf_env \<Rightarrow> WorkflowExecution \<Rightarrow> wf_state \<Rightarrow> wf_state option" where
  "on_execution_terminal rec E child st =
     (let st = project_workflow E child st
      in do {
        st \<leftarrow> (case v_workflow_defs E (x_def_name child) of
                None \<Rightarrow> Some st
              | Some d \<Rightarrow>
                  if wd_listener_enabled d
                  then publish_event rec E ''conductor:workflow_status''
                         [(''exec_id'', x_exec_id child), (''status'', status_name (x_status child))] st
                  else Some st);
        (case x_parent_exec_id child of
           None \<Rightarrow> Some st
         | Some _ \<Rightarrow>
             (case List.find (\<lambda>i. m_sub_workflow_exec_id i = Some (x_exec_id child)) (map snd (w_tasks st)) of
                None \<Rightarrow> Some st
              | Some i \<Rightarrow>
                  (let i = i\<lparr>m_status := (if x_status child = W_COMPLETED then COMPLETED else FAILED),
                             m_output_data := x_variables child\<rparr>
                   in map_option fst (rec (On_task_terminal i) (put_task i st)))))
      })"

text \<open>\<open>std::min(attempt_number, 16U)\<close> and a shift of \<open>1U\<close>; the product is in milliseconds.\<close>

definition compute_backoff :: "RetryPolicy \<Rightarrow> 32 word \<Rightarrow> int" where
  "compute_backoff retry attempt_number =
     (case rp_backoff retry of
        FIXED \<Rightarrow> uint (rp_interval_ms retry)
      | EXPONENTIAL \<Rightarrow> uint (rp_interval_ms retry) * uint (push_bit (min (unat attempt_number) 16) (1 :: 32 word)))"

definition start_failure_workflow :: "runner \<Rightarrow> WorkflowDef \<Rightarrow> WorkflowExecution \<Rightarrow> wf_state \<Rightarrow> wf_state option" where
  "start_failure_workflow rec d e st =
     (case wd_failure_workflow d of None \<Rightarrow> Some st | Some w \<Rightarrow> map_option fst (rec (Start w (x_variables e) None) st))"

definition handle_failure :: "runner \<Rightarrow> wf_env \<Rightarrow> instance_row \<Rightarrow> WorkflowExecution \<Rightarrow> WorkflowDef \<Rightarrow> RetryPolicy \<Rightarrow> wf_state \<Rightarrow> wf_state option" where
  "handle_failure rec E i e d retry st =
     (if m_retry_count i + 1 < rp_max_attempts retry
      then let i = i\<lparr>m_retry_count := m_retry_count i + 1\<rparr>;
               i = i\<lparr>m_next_retry_at := Some (v_now E + compute_backoff retry (m_retry_count i) * 1000000)\<rparr>;
               st = emit [Log INFO ''engine'',
                      Publish ''engine.task.retry_armed''
                        [(''task_def_name'', m_def_name i), (''exec_id'', x_exec_id e),
                         (''retry_count'', show_nat (unat (m_retry_count i)))]] st
           in Some (put_exec (sync_instance i e) (put_task i st))
      else let st = emit [Log WARNING ''engine'',
                      Publish ''engine.task.retries_exhausted'' [(''task_def_name'', m_def_name i), (''exec_id'', x_exec_id e)]] st;
               e = sync_instance i (finish_exec E W_FAILED e)
           in do {
             (st, _) \<leftarrow> rec (On_execution_terminal e) (put_exec e (put_task i st));
             start_failure_workflow rec d e st
           })"

definition maybe_complete :: "runner \<Rightarrow> wf_env \<Rightarrow> WorkflowExecution \<Rightarrow> WorkflowDef \<Rightarrow> wf_state \<Rightarrow> (wf_state \<times> WorkflowExecution) option" where
  "maybe_complete rec E e d st =
     (if workflow_terminal (x_status e) \<or> length (x_task_instances e) < length (wd_nodes d) \<or>
         \<not> list_all succeeded (x_task_instances e) then Some (st, e)
      else let e = (if x_task_instances e \<noteq> [] \<and> wd_output_mappings d \<noteq> []
                    then e\<lparr>x_variables := fold (\<lambda>(source, target) vs.
                           case map_of (m_output_data (last (x_task_instances e))) source of
                             None \<Rightarrow> vs | Some v \<Rightarrow> AList.update target v vs) (wd_output_mappings d) (x_variables e)\<rparr>
                    else e);
               e = finish_exec E W_COMPLETED e
           in map_option (\<lambda>(st, _). (st, e)) (rec (On_execution_terminal e) st))"

definition answer_exec :: "(wf_state \<times> WorkflowExecution) option \<Rightarrow> (wf_state \<times> answer) option" where
  "answer_exec r = map_option (\<lambda>(st, e). (st, Some (Some e))) r"

text \<open>The callback that stores what \<open>advance\<close> hands on, with the answer of the operation.\<close>

definition store_advanced :: "(wf_state \<times> answer) option \<Rightarrow> (wf_state \<times> answer) option" where
  "store_advanced r =
     map_option (\<lambda>(st, a). case a of Some (Some e) \<Rightarrow> (put_exec e st, Some (Some e)) | _ \<Rightarrow> (st, None)) r"

definition process_terminal :: "runner \<Rightarrow> wf_env \<Rightarrow> instance_row \<Rightarrow> WorkflowExecution \<Rightarrow> WorkflowDef \<Rightarrow> wf_state \<Rightarrow> wf_state option" where
  "process_terminal rec E i e d st =
     (let e = sync_instance i e; st = project_task E i st
      in if m_status i = FAILED \<or> m_status i = TIMED_OUT
         then handle_failure rec E i e d (case v_task_defs E (m_def_name i) of None \<Rightarrow> default_retry | Some t \<Rightarrow> td_retry t) st
         else if \<not> succeeded i then Some (put_exec e st)
         else map_option fst (store_advanced (rec (Advance e d) st)))"

definition on_task_terminal :: "runner \<Rightarrow> wf_env \<Rightarrow> instance_row \<Rightarrow> wf_state \<Rightarrow> wf_state option" where
  "on_task_terminal rec E i st =
     (case map_of (w_execs st) (m_workflow_exec_id i) of
        None \<Rightarrow> Some st
      | Some e \<Rightarrow>
          if workflow_terminal (x_status e) then Some st
          else case v_workflow_defs E (x_def_name e) of None \<Rightarrow> Some st | Some d \<Rightarrow> process_terminal rec E i e d st)"

section \<open>Starting and advancing\<close>

definition start :: "runner \<Rightarrow> wf_env \<Rightarrow> string \<Rightarrow> strings \<Rightarrow> string option \<Rightarrow> wf_state \<Rightarrow> (wf_state \<times> answer) option" where
  "start rec E def_name variables parent st =
     (case v_workflow_defs E def_name of
        None \<Rightarrow> Some (st, Some None)
      | Some d \<Rightarrow>
          (let (st, i) = draw_id E st;
               e = \<lparr>x_exec_id = i, x_def_name = wd_name d, x_def_version = wd_version d, x_status = W_RUNNING,
                    x_correlation_id = None, x_variables = variables, x_task_instances = [],
                    x_timings = (None, Some (v_now E), None), x_dynamic_nodes = [], x_parent_exec_id = parent\<rparr>
           in store_advanced (rec (Advance e d) st)))"

definition advance :: "runner \<Rightarrow> wf_env \<Rightarrow> WorkflowExecution \<Rightarrow> WorkflowDef \<Rightarrow> wf_state \<Rightarrow> (wf_state \<times> answer) option" where
  "advance rec E e d st =
     (if workflow_terminal (x_status e) \<or> x_status e = W_PAUSED then Some (st, Some (Some e))
      else let (st, eligible, skips) = classify E e d (wd_nodes d) st
           in if eligible = [] \<and> skips = [] then answer_exec (maybe_complete rec E e d st)
              else let (st, e) = skip_nodes E d skips e st
                   in if eligible = [] then rec (Advance e d) st else rec (Spawn_next e d eligible) st)"

text \<open>The values that the satisfied edges into a node map to its input.\<close>

definition map_input :: "instance_row \<Rightarrow> TaskEdge \<Rightarrow> strings \<Rightarrow> strings" where
  "map_input p edge input =
     fold (\<lambda>(source, target) m. case map_of (m_output_data p) source of None \<Rightarrow> m | Some v \<Rightarrow> AList.update target v m)
       (te_mappings edge) input"

fun gather_input :: "wf_env \<Rightarrow> WorkflowExecution \<Rightarrow> TaskEdge list \<Rightarrow> strings \<Rightarrow> wf_state \<Rightarrow> wf_state \<times> strings" where
  "gather_input E e [] input st = (st, input)"
| "gather_input E e (edge # edges) input st =
     (case find_instance (x_task_instances e) (te_from edge) of
        None \<Rightarrow> gather_input E e edges input st
      | Some p \<Rightarrow>
          if \<not> succeeded p then gather_input E e edges input st
          else let (st, ok) = edge_condition_ok E e edge p st
               in gather_input E e edges (if ok then map_input p edge input else input) st)"

definition resolve_dynamic :: "wf_env \<Rightarrow> strings \<Rightarrow> FullTaskDef option \<Rightarrow> FullTaskDef option" where
  "resolve_dynamic E input task_def =
     (case task_def of
        Some t \<Rightarrow>
          (if td_type t = DYNAMIC
           then case td_dynamic_task_param t of
                  None \<Rightarrow> task_def
                | Some k \<Rightarrow> (case map_of input k of None \<Rightarrow> task_def | Some nm \<Rightarrow> v_task_defs E nm)
           else task_def)
      | None \<Rightarrow> None)"

definition instant :: "wf_env \<Rightarrow> int option \<times> int option \<times> int option" where
  "instant E = (Some (v_now E), Some (v_now E), Some (v_now E))"

definition in_flight :: "string \<Rightarrow> instance_row list \<Rightarrow> nat" where
  "in_flight def_name is = length (filter (\<lambda>i. m_def_name i = def_name \<and> (m_status i = SCHEDULED \<or> m_status i = IN_PROGRESS)) is)"

text \<open>A node that waits for somebody, or for a time: HUMAN and WAIT.\<close>

definition spawn_waiting :: "wf_env \<Rightarrow> WorkflowExecution \<Rightarrow> string \<Rightarrow> string \<Rightarrow> strings \<Rightarrow> int option \<Rightarrow> wf_state \<Rightarrow> wf_state \<times> WorkflowExecution" where
  "spawn_waiting E e def_name ref input until st =
     (let (st, i) = new_instance E e def_name ref IN_PROGRESS st;
          i = i\<lparr>m_input_data := to_value_input input, m_timings := (Some (v_now E), Some (v_now E), None), m_deadline_at := until\<rparr>
      in (put_task i st, add_instance i e))"

text \<open>A node that ends at once, with the given status and output.\<close>

definition spawn_ended :: "wf_env \<Rightarrow> WorkflowExecution \<Rightarrow> string \<Rightarrow> string \<Rightarrow> TaskStatus \<Rightarrow> strings \<Rightarrow> wf_state \<Rightarrow> wf_state \<times> WorkflowExecution" where
  "spawn_ended E e def_name ref s out st =
     (let (st, i) = new_instance E e def_name ref s st;
          i = i\<lparr>m_output_data := out, m_timings := instant E\<rparr>
      in (put_task i st, add_instance i e))"

definition spawn_start_workflow :: "runner \<Rightarrow> wf_env \<Rightarrow> WorkflowExecution \<Rightarrow> WorkflowDef \<Rightarrow> string list \<Rightarrow> strings \<Rightarrow> string \<Rightarrow> string \<Rightarrow> wf_state \<Rightarrow> (wf_state \<times> answer) option" where
  "spawn_start_workflow rec E e d rest input ref def_name st =
     (case map_of input ''workflow_name'' of
        None \<Rightarrow> rec (Spawn_next e d rest) (warn st)
      | Some w \<Rightarrow>
          do {
            (st, a) \<leftarrow> rec (Start w (AList.delete ''workflow_name'' input) None) st;
            (case a of
               None \<Rightarrow> Some (st, None)
             | Some child \<Rightarrow>
                 (let (st, e) = (case child of
                                   Some c \<Rightarrow> spawn_ended E e def_name ref COMPLETED [(''exec_id'', x_exec_id c)] st
                                 | None \<Rightarrow> spawn_ended E e def_name ref FAILED [] st)
                  in rec (Advance e d) st))
          })"

definition spawn_sub_workflow :: "runner \<Rightarrow> wf_env \<Rightarrow> WorkflowExecution \<Rightarrow> WorkflowDef \<Rightarrow> string list \<Rightarrow> strings \<Rightarrow> string \<Rightarrow> string \<Rightarrow> wf_state \<Rightarrow> (wf_state \<times> answer) option" where
  "spawn_sub_workflow rec E e d rest input ref def_name st =
     (case map_of input ''workflow_name'' of
        None \<Rightarrow> rec (Spawn_next e d rest) (warn st)
      | Some w \<Rightarrow>
          do {
            (st, a) \<leftarrow> rec (Start w (AList.delete ''workflow_name'' input) (Some (x_exec_id e))) st;
            (case a of
               None \<Rightarrow> Some (st, None)
             | Some None \<Rightarrow>
                 (let (st, i) = new_instance E e def_name ref FAILED st
                  in map_option (\<lambda>st. (st, None))
                       (handle_failure rec E i e d \<lparr>rp_max_attempts = 1, rp_backoff = FIXED, rp_interval_ms = 1\<rparr> st))
             | Some (Some child) \<Rightarrow>
                 (let (st, i) = new_instance E e def_name ref IN_PROGRESS st;
                      i = i\<lparr>m_sub_workflow_exec_id := Some (x_exec_id child), m_timings := (Some (v_now E), Some (v_now E), None)\<rparr>
                  in rec (Spawn_next (add_instance i e) d rest) (put_task i st)))
          })"

definition spawn_event :: "runner \<Rightarrow> wf_env \<Rightarrow> WorkflowExecution \<Rightarrow> WorkflowDef \<Rightarrow> strings \<Rightarrow> string \<Rightarrow> string \<Rightarrow> wf_state \<Rightarrow> (wf_state \<times> answer) option" where
  "spawn_event rec E e d input ref def_name st =
     do {
       st \<leftarrow> (case map_of input ''event'' of
               None \<Rightarrow> Some (warn st)
             | Some event \<Rightarrow> publish_event rec E event (AList.delete ''event'' input) st);
       (let (st, e) = spawn_ended E e def_name ref COMPLETED input st in rec (Advance e d) st)
     }"

definition spawn_system :: "runner \<Rightarrow> wf_env \<Rightarrow> WorkflowExecution \<Rightarrow> WorkflowDef \<Rightarrow> TaskType \<Rightarrow> strings \<Rightarrow> string \<Rightarrow> string \<Rightarrow> wf_state \<Rightarrow> (wf_state \<times> answer) option" where
  "spawn_system rec E e d t input ref def_name st =
     (let (st, outcome) = system_execute E t input (x_variables e) st;
          e = (if t = SET_VARIABLE then e\<lparr>x_variables := assign_all (so_output_data outcome) (x_variables e)\<rparr> else e);
          (st, e) = spawn_ended E e def_name ref COMPLETED (so_output_data outcome) st
      in if so_terminate_workflow outcome
         then let e = finish_exec E (so_terminate_status outcome) e
              in map_option (\<lambda>(st, _). (st, Some (Some e))) (rec (On_execution_terminal e) st)
         else rec (Advance e d) st)"

text \<open>A node whose input lacks a required key fails like a task of a worker.\<close>

definition spawn_rejected :: "runner \<Rightarrow> wf_env \<Rightarrow> WorkflowExecution \<Rightarrow> WorkflowDef \<Rightarrow> RetryPolicy \<Rightarrow> string \<Rightarrow> strings \<Rightarrow> string \<Rightarrow> string \<Rightarrow> wf_state \<Rightarrow> (wf_state \<times> answer) option" where
  "spawn_rejected rec E e d retry err input ref def_name st =
     (let st = emit [Log WARNING ''engine'',
                Publish ''engine.task.schema_validation_failed'' [(''node_ref'', ref), (''error'', err)]] st;
          (st, i) = new_instance E e def_name ref FAILED st;
          i = i\<lparr>m_input_data := to_value_input input, m_output_data := [(''error'', ''input schema validation failed: '' @ err)],
                m_timings := (Some (v_now E), Some (v_now E), None)\<rparr>
      in map_option (\<lambda>st. (st, None)) (handle_failure rec E i (add_instance i e) d retry (put_task i st)))"

definition spawn_scheduled :: "runner \<Rightarrow> wf_env \<Rightarrow> WorkflowExecution \<Rightarrow> WorkflowDef \<Rightarrow> string list \<Rightarrow> FullTaskDef option \<Rightarrow> strings \<Rightarrow> string \<Rightarrow> string \<Rightarrow> wf_state \<Rightarrow> (wf_state \<times> answer) option" where
  "spawn_scheduled rec E e d rest task_def input ref def_name st =
     (if (case Option.bind task_def td_max_concurrent of
            None \<Rightarrow> True | Some m \<Rightarrow> (of_nat (in_flight def_name (x_task_instances e)) :: 32 word) < m)
      then let (st, i) = new_instance E e def_name ref SCHEDULED st;
               i = i\<lparr>m_input_data := to_value_input input, m_timings := (Some (v_now E), None, None)\<rparr>
           in rec (Spawn_next (add_instance i e) d rest) (put_task i st)
      else rec (Spawn_next e d rest)
             (emit [Log INFO ''engine'', Publish ''engine.task.rate_limited'' [(''node_ref'', ref), (''exec_id'', x_exec_id e)]] st))"

definition schema_error :: "FullTaskDef \<Rightarrow> strings \<Rightarrow> string option" where
  "schema_error t input =
     (if td_enforce_schema t
      then case td_input_schema t of None \<Rightarrow> None | Some schema \<Rightarrow> validate_schema schema (to_value_input input)
      else None)"

definition spawn_with_def :: "runner \<Rightarrow> wf_env \<Rightarrow> WorkflowExecution \<Rightarrow> WorkflowDef \<Rightarrow> string list \<Rightarrow> strings \<Rightarrow> string \<Rightarrow> string \<Rightarrow> FullTaskDef option \<Rightarrow> wf_state \<Rightarrow> (wf_state \<times> answer) option" where
  "spawn_with_def rec E e d rest input ref original_def_name task_def st =
     (case task_def of
        None \<Rightarrow> spawn_scheduled rec E e d rest None input ref original_def_name st
      | Some t \<Rightarrow>
          (let nm = m_name t
           in if td_type t = HUMAN
              then let (st, e) = spawn_waiting E e nm ref input None st in rec (Spawn_next e d rest) st
              else if td_type t = WAIT
              then let (st, e) = spawn_waiting E e nm ref input
                         (map_option (\<lambda>ms. v_now E + uint ms * 1000000) (td_wait_duration_ms t)) st
                   in rec (Spawn_next e d rest) st
              else if td_type t = START_WORKFLOW then spawn_start_workflow rec E e d rest input ref nm st
              else if td_type t = SUB_WORKFLOW then spawn_sub_workflow rec E e d rest input ref nm st
              else if td_type t = EVENT then spawn_event rec E e d input ref nm st
              else if is_system_task (td_type t) then spawn_system rec E e d (td_type t) input ref nm st
              else case schema_error t input of
                     Some err \<Rightarrow> spawn_rejected rec E e d (td_retry t) err input ref nm st
                   | None \<Rightarrow> spawn_scheduled rec E e d rest task_def input ref nm st))"

definition spawn_next :: "runner \<Rightarrow> wf_env \<Rightarrow> WorkflowExecution \<Rightarrow> WorkflowDef \<Rightarrow> string list \<Rightarrow> wf_state \<Rightarrow> (wf_state \<times> answer) option" where
  "spawn_next rec E e d refs st =
     (case refs of
        [] \<Rightarrow> answer_exec (maybe_complete rec E e d st)
      | ref # rest \<Rightarrow>
          (case find_node d ref of
             None \<Rightarrow> rec (Spawn_next e d rest) st
           | Some node \<Rightarrow>
               (let (st, input) = gather_input E e (incoming d (tn_ref_name node)) [] st
                in spawn_with_def rec E e d rest input (tn_ref_name node) (tn_def_name node)
                     (resolve_dynamic E input (v_task_defs E (tn_def_name node))) st)))"

fun body :: "runner \<Rightarrow> wf_env \<Rightarrow> runner" where
  "body rec E (Start def_name variables parent) st = start rec E def_name variables parent st"
| "body rec E (Advance e d) st = advance rec E e d st"
| "body rec E (Spawn_next e d refs) st = spawn_next rec E e d refs st"
| "body rec E (On_execution_terminal e) st = map_option (\<lambda>st. (st, None)) (on_execution_terminal rec E e st)"
| "body rec E (On_task_terminal i) st = map_option (\<lambda>st. (st, None)) (on_task_terminal rec E i st)"

fun run :: "nat \<Rightarrow> wf_env \<Rightarrow> runner" where
  "run 0 E c st = None"
| "run (Suc n) E c st = body (run n E) E c st"

end
