(* ===== verification/WorkflowProps.thy ===== *)
theory WorkflowProps
  imports Workflow
begin

text \<open>
  How an execution grows: \<open>advance\<close> only appends instances, one for each node, each at a moment
  when its node was ready or all its predecessors had ended; an execution completes only when
  every node has ended well; and a workflow without calls to others always comes to rest.
\<close>

section \<open>Ready nodes\<close>

definition refs :: "instance_row list \<Rightarrow> string list" where
  "refs is = map m_node_ref is"

definition node_ready :: "WorkflowDef \<Rightarrow> instance_row list \<Rightarrow> TaskNode \<Rightarrow> bool" where
  "node_ready d is node \<longleftrightarrow>
     (if tn_join_on node \<noteq> [] then join_ready is node
      else incoming d (tn_ref_name node) = [] \<or>
        (\<exists>edge \<in> set (incoming d (tn_ref_name node)). \<exists>p. find_instance is (te_from edge) = Some p \<and> succeeded p))"

definition node_skippable :: "WorkflowDef \<Rightarrow> instance_row list \<Rightarrow> TaskNode \<Rightarrow> bool" where
  "node_skippable d is node \<longleftrightarrow> tn_join_on node = [] \<and>
     (\<forall>edge \<in> set (incoming d (tn_ref_name node)). \<exists>p. find_instance is (te_from edge) = Some p \<and> task_terminal (m_status p))"

definition legal :: "WorkflowDef \<Rightarrow> instance_row list \<Rightarrow> instance_row \<Rightarrow> bool" where
  "legal d is i \<longleftrightarrow> m_node_ref i \<notin> set (refs is) \<and>
     (\<exists>node. find_node d (m_node_ref i) = Some node \<and>
        (if m_status i = SKIPPED then node_skippable d is node else node_ready d is node))"

inductive grows :: "WorkflowDef \<Rightarrow> instance_row list \<Rightarrow> instance_row list \<Rightarrow> bool" for d where
  grows_refl: "grows d is is"
| grows_step: "grows d is js \<Longrightarrow> legal d js i \<Longrightarrow> grows d is (js @ [i])"

lemma grows_trans: "grows d js ks \<Longrightarrow> grows d is js \<Longrightarrow> grows d is ks"
  by (induction rule: grows.induct) (auto intro: grows.intros)

lemma grows_one: "legal d is i \<Longrightarrow> grows d is (is @ [i])"
  by (intro grows.intros)

lemma grows_prefix: "grows d is js \<Longrightarrow> \<exists>new. js = is @ new"
  by (induction rule: grows.induct) auto

lemma find_node_set: "find_node d r = Some node \<Longrightarrow> node \<in> set (wd_nodes d) \<and> tn_ref_name node = r"
  by (auto simp: find_node_def find_Some_iff)

lemma find_node_ref: "find_node d r = Some node \<Longrightarrow> r \<in> tn_ref_name ` set (wd_nodes d)"
  using find_node_set by blast

lemma grows_refs:
  "grows d is js \<Longrightarrow> distinct (refs is) \<Longrightarrow> distinct (refs js)"
  "grows d is js \<Longrightarrow> set (refs is) \<subseteq> set (map tn_ref_name (wd_nodes d)) \<Longrightarrow> set (refs js) \<subseteq> set (map tn_ref_name (wd_nodes d))"
proof -
  show "grows d is js \<Longrightarrow> distinct (refs is) \<Longrightarrow> distinct (refs js)"
    by (induction rule: grows.induct) (auto simp: legal_def refs_def)
  show "grows d is js \<Longrightarrow> set (refs is) \<subseteq> set (map tn_ref_name (wd_nodes d)) \<Longrightarrow> set (refs js) \<subseteq> set (map tn_ref_name (wd_nodes d))"
    by (induction rule: grows.induct) (auto simp: legal_def refs_def dest!: find_node_ref)
qed

lemma find_instance_append:
  "find_instance (is @ js) r = (case find_instance is r of Some i \<Rightarrow> Some i | None \<Rightarrow> find_instance js r)"
  by (induction "is") (auto simp: find_instance_def)

lemma find_instance_holds:
  "(case find_instance is r of None \<Rightarrow> False | Some i \<Rightarrow> P i) \<Longrightarrow> (case find_instance (is @ js) r of None \<Rightarrow> False | Some i \<Rightarrow> P i)"
  by (simp add: find_instance_append split: option.splits)

lemma join_ready_append: "join_ready is node \<Longrightarrow> join_ready (is @ js) node"
  unfolding join_ready_def list_all_iff list_ex_iff
  by (cases "tn_join_type node") (simp_all, (blast intro: find_instance_holds)+)

lemma find_instance_mono: "find_instance is r = Some i \<Longrightarrow> find_instance (is @ js) r = Some i"
  by (simp add: find_instance_append)

lemma node_ready_append: "node_ready d is node \<Longrightarrow> node_ready d (is @ js) node"
  unfolding node_ready_def by (cases "tn_join_on node = []") (auto dest: join_ready_append find_instance_mono)

lemma node_skippable_append: "node_skippable d is node \<Longrightarrow> node_skippable d (is @ js) node"
  unfolding node_skippable_def by (blast intro: find_instance_mono)

section \<open>Classification\<close>

text \<open>What the scan of the edges into a node says of them.\<close>

lemma scan_incoming_spec:
  "scan_incoming E e edges st = (st', any, all) \<Longrightarrow>
     (any \<longrightarrow> (\<exists>edge \<in> set edges. \<exists>p. find_instance (x_task_instances e) (te_from edge) = Some p \<and> succeeded p)) \<and>
     (all \<longrightarrow> (\<forall>edge \<in> set edges. \<exists>p. find_instance (x_task_instances e) (te_from edge) = Some p \<and> task_terminal (m_status p)))"
proof (induction edges arbitrary: st st' any all)
  case (Cons edge edges)
  show ?case
  proof (cases "find_instance (x_task_instances e) (te_from edge)")
    case None
    obtain s2 any' all' where rest: "scan_incoming E e edges st = (s2, any', all')" by (metis prod.exhaust)
    have "any = any'" "\<not> all" using Cons.prems None rest by simp_all
    then show ?thesis using Cons.IH [OF rest] by simp
  next
    case (Some p)
    show ?thesis
    proof (cases "task_terminal (m_status p)")
      case False
      obtain s2 any' all' where rest: "scan_incoming E e edges st = (s2, any', all')" by (metis prod.exhaust)
      have "any = any'" "\<not> all" using Cons.prems Some False rest by simp_all
      then show ?thesis using Cons.IH [OF rest] by simp
    next
      case True
      obtain s1 ok where ok: "(if succeeded p then edge_condition_ok E e edge p st else (st, False)) = (s1, ok)" by (metis prod.exhaust)
      obtain s2 any' all' where rest: "scan_incoming E e edges s1 = (s2, any', all')" by (metis prod.exhaust)
      have "any = (ok \<or> any')" "all = all'" using Cons.prems Some True ok rest by simp_all
      moreover have "ok \<longrightarrow> succeeded p" using ok by (cases "succeeded p") simp_all
      ultimately show ?thesis using Cons.IH [OF rest] Some True by (simp only: list.set ball_simps bex_simps) blast
    qed
  qed
qed simp

lemma decide_node_spec:
  assumes "decide_node E e d node st = (st', dec)"
  shows "(dec \<noteq> Leave \<longrightarrow> tn_ref_name node \<notin> set (refs (x_task_instances e))) \<and>
    (dec = Eligible \<longrightarrow> node_ready d (x_task_instances e) node) \<and>
    (dec = Skip \<longrightarrow> node_skippable d (x_task_instances e) node)"
  using assms scan_incoming_spec [of E e "incoming d (tn_ref_name node)" st]
  by (auto simp: decide_node_def refs_def node_ready_def node_skippable_def split: if_splits prod.splits)

definition chosen :: "(instance_row list \<Rightarrow> TaskNode \<Rightarrow> bool) \<Rightarrow> instance_row list \<Rightarrow> TaskNode list \<Rightarrow> string list \<Rightarrow> bool" where
  "chosen P is nodes rs \<longleftrightarrow>
     (\<forall>r \<in> set rs. r \<notin> set (refs is) \<and> (\<exists>node \<in> set nodes. tn_ref_name node = r \<and> P is node))"

lemma chosen_refs: "chosen P is nodes rs \<Longrightarrow> set rs \<subseteq> tn_ref_name ` set nodes"
proof
  fix r assume "chosen P is nodes rs" "r \<in> set rs"
  then obtain node where "node \<in> set nodes" "r = tn_ref_name node" unfolding chosen_def by metis
  then show "r \<in> tn_ref_name ` set nodes" by (rule image_eqI [rotated])
qed

lemma chosen_nodes: "chosen P is nodes rs \<Longrightarrow> chosen P is (node # nodes) rs"
  unfolding chosen_def by (meson list.set_intros(2))

lemma chosen_Cons:
  "chosen P is nodes rs \<Longrightarrow> tn_ref_name node \<notin> set (refs is) \<Longrightarrow> P is node \<Longrightarrow> chosen P is (node # nodes) (tn_ref_name node # rs)"
  using chosen_nodes [of P "is" nodes rs node] by (auto simp: chosen_def)

lemma classify_spec:
  "classify E e d nodes st = (st', eligible, skips) \<Longrightarrow> distinct (map tn_ref_name nodes) \<Longrightarrow>
   distinct (eligible @ skips) \<and> chosen (node_ready d) (x_task_instances e) nodes eligible \<and>
   chosen (node_skippable d) (x_task_instances e) nodes skips"
proof (induction nodes arbitrary: st st' eligible skips)
  case (Cons node nodes)
  obtain s1 dec where dec: "decide_node E e d node st = (s1, dec)" by (metis prod.exhaust)
  obtain s2 el sk where rest: "classify E e d nodes s1 = (s2, el, sk)" by (metis prod.exhaust)
  have ih: "distinct (el @ sk) \<and> chosen (node_ready d) (x_task_instances e) nodes el \<and> chosen (node_skippable d) (x_task_instances e) nodes sk"
    by (rule Cons.IH [OF rest]) (use Cons.prems(2) in simp)
  note spec = decide_node_spec [OF dec]
  have fresh: "tn_ref_name node \<notin> set (el @ sk)"
    using ih Cons.prems(2) chosen_refs [of "node_ready d" _ nodes el] chosen_refs [of "node_skippable d" _ nodes sk] by auto
  have out: "eligible = (if dec = Eligible then tn_ref_name node # el else el)" "skips = (if dec = Skip then tn_ref_name node # sk else sk)"
    using Cons.prems(1) dec rest by simp_all
  show ?case
  proof (cases dec)
    case Leave
    then show ?thesis using ih by (simp add: out chosen_nodes)
  next
    case Eligible
    then show ?thesis using ih spec fresh by (simp add: out chosen_nodes chosen_Cons)
  next
    case Skip
    then show ?thesis using ih spec fresh by (simp add: out chosen_nodes chosen_Cons)
  qed
qed (simp add: chosen_def)

lemma find_node_unique:
  "distinct (map tn_ref_name (wd_nodes d)) \<Longrightarrow> node \<in> set (wd_nodes d) \<Longrightarrow> find_node d (tn_ref_name node) = Some node"
proof -
  have "distinct (map tn_ref_name ns) \<Longrightarrow> node \<in> set ns \<Longrightarrow> List.find (\<lambda>n. tn_ref_name n = tn_ref_name node) ns = Some node" for ns
    by (induction ns) auto
  then show "distinct (map tn_ref_name (wd_nodes d)) \<Longrightarrow> node \<in> set (wd_nodes d) \<Longrightarrow> ?thesis"
    by (simp add: find_node_def)
qed

text \<open>The references that are still to be spawned in a pass.\<close>

definition pending :: "WorkflowDef \<Rightarrow> WorkflowExecution \<Rightarrow> string list \<Rightarrow> bool" where
  "pending d e rs \<longleftrightarrow> distinct rs \<and> (\<forall>r \<in> set rs. r \<notin> set (refs (x_task_instances e)) \<and>
     (\<exists>node. find_node d r = Some node \<and> node_ready d (x_task_instances e) node))"

text \<open>The execution with other instances and nothing else that the growth depends on.\<close>

lemma new_instance_simps:
  "m_node_ref (snd (new_instance E e nm r s st)) = r" "m_status (snd (new_instance E e nm r s st)) = s"
  "m_def_name (snd (new_instance E e nm r s st)) = nm"
  by (simp_all add: new_instance_def case_prod_beta Let_def)

lemma skip_nodes_grows:
  "skip_nodes E d rs e st = (st', e') \<Longrightarrow> distinct rs \<Longrightarrow>
   (\<forall>r \<in> set rs. r \<notin> set (refs (x_task_instances e)) \<and> (\<exists>node. find_node d r = Some node \<and> node_skippable d (x_task_instances e) node)) \<Longrightarrow>
   grows d (x_task_instances e) (x_task_instances e') \<and> set (refs (x_task_instances e')) = set (refs (x_task_instances e)) \<union> set rs \<and>
   x_status e' = x_status e \<and> x_parent_exec_id e' = x_parent_exec_id e \<and> x_def_name e' = x_def_name e"
proof (induction rs arbitrary: e st)
  case Nil
  then show ?case by (simp add: grows_refl)
next
  case (Cons r rs)
  obtain node where node: "find_node d r = Some node" "node_skippable d (x_task_instances e) node" using Cons.prems(3) by auto
  obtain s1 i where i: "new_instance E e (tn_def_name node) r SKIPPED st = (s1, i)" by (metis prod.exhaust)
  then have props: "m_node_ref i = r" "m_status i = SKIPPED" using new_instance_simps [of E e "tn_def_name node" r SKIPPED st] by simp_all
  let ?e = "add_instance i e"
  have ins: "x_task_instances ?e = x_task_instances e @ [i]" by (simp add: add_instance_def)
  have run: "skip_nodes E d rs ?e (put_task i s1) = (st', e')" using Cons.prems(1) node i by simp
  have "\<forall>r' \<in> set rs. r' \<notin> set (refs (x_task_instances ?e)) \<and> (\<exists>node. find_node d r' = Some node \<and> node_skippable d (x_task_instances ?e) node)"
  proof
    fix r' assume r': "r' \<in> set rs"
    then obtain n where "find_node d r' = Some n" "node_skippable d (x_task_instances e) n" using Cons.prems(3) by auto
    then show "r' \<notin> set (refs (x_task_instances ?e)) \<and> (\<exists>node. find_node d r' = Some node \<and> node_skippable d (x_task_instances ?e) node)"
      using r' Cons.prems(2,3) props(1) node_skippable_append [of d "x_task_instances e" n "[i]"] by (auto simp: ins refs_def)
  qed
  from Cons.IH [OF run _ this] Cons.prems(2)
  have ih: "grows d (x_task_instances ?e) (x_task_instances e')" "set (refs (x_task_instances e')) = set (refs (x_task_instances ?e)) \<union> set rs"
    "x_status e' = x_status ?e" "x_parent_exec_id e' = x_parent_exec_id ?e" "x_def_name e' = x_def_name ?e" by simp_all
  have "legal d (x_task_instances e) i" using Cons.prems(3) node props by (auto simp: legal_def)
  then have "grows d (x_task_instances e) (x_task_instances ?e)" unfolding ins by (rule grows_one)
  then have "grows d (x_task_instances e) (x_task_instances e')" using ih(1) by (rule grows_trans [rotated])
  moreover have "set (refs (x_task_instances e')) = set (refs (x_task_instances e)) \<union> set (r # rs)"
    using ih(2) props(1) by (simp add: ins refs_def)
  moreover have "x_status ?e = x_status e" "x_parent_exec_id ?e = x_parent_exec_id e" "x_def_name ?e = x_def_name e"
    by (simp_all add: add_instance_def)
  ultimately show ?case using ih(3-) by simp
qed

lemma skip_nodes_id: "skip_nodes E d rs e st = (st', e') \<Longrightarrow> x_exec_id e' = x_exec_id e"
proof (induction rs arbitrary: e st)
  case (Cons r rs)
  show ?case
  proof (cases "find_node d r")
    case (Some node)
    obtain s1 i where "new_instance E e (tn_def_name node) r SKIPPED st = (s1, i)" by (metis prod.exhaust)
    then show ?thesis using Cons.IH [of "add_instance i e" "put_task i s1"] Cons.prems Some by (simp add: add_instance_def)
  qed (use Cons in simp)
qed simp

section \<open>Growth of an execution\<close>

definition distinct_names :: "WorkflowDef \<Rightarrow> bool" where
  "distinct_names d \<longleftrightarrow> distinct (map tn_ref_name (wd_nodes d))"

text \<open>The execution with more instances, and what ended it if it was ended.\<close>

definition ext :: "WorkflowDef \<Rightarrow> WorkflowExecution \<Rightarrow> WorkflowExecution \<Rightarrow> bool" where
  "ext d e e' \<longleftrightarrow> grows d (x_task_instances e) (x_task_instances e') \<and> x_exec_id e' = x_exec_id e \<and>
     x_parent_exec_id e' = x_parent_exec_id e \<and> x_def_name e' = x_def_name e"

definition all_done :: "WorkflowDef \<Rightarrow> WorkflowExecution \<Rightarrow> bool" where
  "all_done d e \<longleftrightarrow> length (wd_nodes d) \<le> length (x_task_instances e) \<and> list_all succeeded (x_task_instances e)"

definition terminated_by_task :: "wf_env \<Rightarrow> WorkflowExecution \<Rightarrow> bool" where
  "terminated_by_task E e \<longleftrightarrow> x_task_instances e \<noteq> [] \<and>
     (\<exists>k t. v_task_defs E k = Some t \<and> td_type t = TERMINATE \<and> m_def_name (last (x_task_instances e)) = m_name t)"

definition good :: "wf_env \<Rightarrow> WorkflowDef \<Rightarrow> WorkflowExecution \<Rightarrow> WorkflowExecution \<Rightarrow> bool" where
  "good E d e e' \<longleftrightarrow> ext d e e' \<and>
     (x_status e' = x_status e \<or> x_status e' = W_COMPLETED \<and> all_done d e' \<or> terminated_by_task E e')"

definition grown :: "wf_env \<Rightarrow> WorkflowDef \<Rightarrow> WorkflowExecution \<Rightarrow> (wf_state \<times> answer) option \<Rightarrow> bool" where
  "grown E d e r \<longleftrightarrow> (\<forall>st' e'. r = Some (st', Some (Some e')) \<longrightarrow> good E d e e')"

definition rec_ok :: "wf_env \<Rightarrow> runner \<Rightarrow> bool" where
  "rec_ok E rec \<longleftrightarrow>
     (\<forall>d e st. distinct_names d \<longrightarrow> grown E d e (rec (Advance e d) st)) \<and>
     (\<forall>d e rs st. distinct_names d \<longrightarrow> pending d e rs \<longrightarrow> grown E d e (rec (Spawn_next e d rs) st))"

lemma ext_refl [simp]: "ext d e e"
  by (simp add: ext_def grows_refl)

lemma ext_good: "ext d e e1 \<Longrightarrow> x_status e1 = x_status e \<Longrightarrow> good E d e1 e2 \<Longrightarrow> good E d e e2"
  unfolding good_def ext_def using grows_trans by auto

lemma grown_via:
  "grown E d e1 r \<Longrightarrow> ext d e e1 \<Longrightarrow> x_status e1 = x_status e \<Longrightarrow> grown E d e r"
  unfolding grown_def using ext_good by blast

lemma grown_None [simp]: "grown E d e None" "grown E d e (Some (st, None))" "grown E d e (Some (st, Some None))"
  by (simp_all add: grown_def)

lemma grown_Some [simp]: "grown E d e (Some (st, Some (Some e'))) = good E d e e'"
  by (simp add: grown_def)

lemma grown_no_answer [simp]: "grown E d e (map_option (\<lambda>st. (st, None)) r)"
  by (auto simp: grown_def)

lemma grown_bind: "(\<And>x. grown E d e (f x)) \<Longrightarrow> grown E d e (Option.bind r f)"
  by (cases r) simp_all

lemma pending_tl: "pending d e (r # rs) \<Longrightarrow> pending d e rs"
  by (simp add: pending_def)

lemma pending_instances: "x_task_instances e' = x_task_instances e \<Longrightarrow> pending d e' rs = pending d e rs"
  by (simp add: pending_def)

text \<open>Spawning the first reference of a pass: the step is legal and the others stay pending.\<close>

lemma pending_step:
  assumes "pending d e (r # rs)" "m_node_ref i = r" "m_status i \<noteq> SKIPPED"
  shows "ext d e (add_instance i e)" "pending d (add_instance i e) rs" "x_status (add_instance i e) = x_status e"
proof -
  obtain node where node: "find_node d r = Some node" "node_ready d (x_task_instances e) node" and fresh: "r \<notin> set (refs (x_task_instances e))"
    using assms(1) by (auto simp: pending_def)
  have "legal d (x_task_instances e) i" using node fresh assms(2,3) by (simp add: legal_def)
  then show "ext d e (add_instance i e)" by (simp add: ext_def add_instance_def grows_one)
  show "x_status (add_instance i e) = x_status e" by (simp add: add_instance_def)
  have "r' \<notin> set (refs (x_task_instances e @ [i])) \<and> (\<exists>node. find_node d r' = Some node \<and> node_ready d (x_task_instances e @ [i]) node)"
    if r': "r' \<in> set rs" for r'
  proof -
    obtain n where "find_node d r' = Some n" "node_ready d (x_task_instances e) n" "r' \<notin> set (refs (x_task_instances e))" "r' \<noteq> r"
      using assms(1) r' by (auto simp: pending_def)
    then show ?thesis using node_ready_append [of d "x_task_instances e" n "[i]"] assms(2) by (simp add: refs_def)
  qed
  then show "pending d (add_instance i e) rs" using assms(1) by (simp add: pending_def add_instance_def)
qed

text \<open>What an added instance is, for the two helpers that add one.\<close>

lemma spawn_ended_adds:
  obtains i where "snd (spawn_ended E e nm ref s out st) = add_instance i e" "m_node_ref i = ref" "m_status i = s" "m_def_name i = nm"
  by (rule that [of "(snd (new_instance E e nm ref s st))\<lparr>m_output_data := out, m_timings := instant E\<rparr>"])
    (simp_all add: spawn_ended_def case_prod_beta Let_def new_instance_simps)

lemma spawn_waiting_adds:
  obtains i where "snd (spawn_waiting E e nm ref input u st) = add_instance i e" "m_node_ref i = ref" "m_status i = IN_PROGRESS"
  by (rule that [of "(snd (new_instance E e nm ref IN_PROGRESS st))\<lparr>m_input_data := to_value_input input,
        m_timings := (Some (v_now E), Some (v_now E), None), m_deadline_at := u\<rparr>"])
    (simp_all add: spawn_waiting_def case_prod_beta Let_def new_instance_simps)

lemma rec_advance: "rec_ok E rec \<Longrightarrow> distinct_names d \<Longrightarrow> ext d e e1 \<Longrightarrow> x_status e1 = x_status e \<Longrightarrow> grown E d e (rec (Advance e1 d) st)"
  unfolding rec_ok_def by (blast intro: grown_via)

lemma rec_spawn:
  "rec_ok E rec \<Longrightarrow> distinct_names d \<Longrightarrow> pending d e1 rs \<Longrightarrow> ext d e e1 \<Longrightarrow> x_status e1 = x_status e \<Longrightarrow>
   grown E d e (rec (Spawn_next e1 d rs) st)"
  unfolding rec_ok_def by (blast intro: grown_via)

lemma rec_skip: "rec_ok E rec \<Longrightarrow> distinct_names d \<Longrightarrow> pending d e (r # rs) \<Longrightarrow> grown E d e (rec (Spawn_next e d rs) st)"
  by (rule rec_spawn) (simp_all add: pending_tl)

lemma rec_spawn_step:
  assumes "rec_ok E rec" "distinct_names d" "pending d e (r # rs)" "m_node_ref i = r" "m_status i \<noteq> SKIPPED"
  shows "grown E d e (rec (Spawn_next (add_instance i e) d rs) st)" "grown E d e (rec (Advance (add_instance i e) d) st)"
  using rec_spawn [OF assms(1,2)] rec_advance [OF assms(1,2)] pending_step [OF assms(3-5)] by simp_all

text \<open>Spawning each kind of node.\<close>

lemma spawn_scheduled_grown:
  assumes "rec_ok E rec" "distinct_names d" "pending d e (ref # rest)"
  shows "grown E d e (spawn_scheduled rec E e d rest t input ref nm st)"
  using rec_spawn_step(1) [OF assms] rec_skip [OF assms] new_instance_simps [of E e nm ref SCHEDULED st]
  by (simp add: spawn_scheduled_def case_prod_beta Let_def)

lemma spawn_event_grown:
  assumes "rec_ok E rec" "distinct_names d" "pending d e (ref # rest)"
  shows "grown E d e (spawn_event rec E e d input ref nm st)"
  unfolding spawn_event_def
proof (rule grown_bind)
  fix st
  obtain i where "snd (spawn_ended E e nm ref COMPLETED input st) = add_instance i e" "m_node_ref i = ref" "m_status i = COMPLETED"
    by (rule spawn_ended_adds)
  then show "grown E d e (let (st, e) = spawn_ended E e nm ref COMPLETED input st in rec (Advance e d) st)"
    using rec_spawn_step(2) [OF assms, of i] by (simp add: case_prod_beta)
qed

lemma spawn_start_workflow_grown:
  assumes "rec_ok E rec" "distinct_names d" "pending d e (ref # rest)"
  shows "grown E d e (spawn_start_workflow rec E e d rest input ref nm st)"
proof -
  have "grown E d e (rec (Advance (snd (spawn_ended E e nm ref s out st1)) d) st2)" if "s \<noteq> SKIPPED" for s out st1 st2
    using rec_spawn_step(2) [OF assms] that spawn_ended_adds [of E e nm ref s out st1] by metis
  then show ?thesis
    unfolding spawn_start_workflow_def using rec_skip [OF assms]
    by (auto simp: case_prod_beta Let_def intro!: grown_bind split: option.split)
qed

lemma spawn_sub_workflow_grown:
  assumes "rec_ok E rec" "distinct_names d" "pending d e (ref # rest)"
  shows "grown E d e (spawn_sub_workflow rec E e d rest input ref nm st)"
proof -
  have "grown E d e (rec (Spawn_next (add_instance (snd (new_instance E e nm ref IN_PROGRESS st1)
      \<lparr>m_sub_workflow_exec_id := x, m_timings := y\<rparr>) e) d rest) st2)" for st1 st2 x y
    by (rule rec_spawn_step(1) [OF assms]) (simp_all add: new_instance_simps)
  then show ?thesis
    unfolding spawn_sub_workflow_def using rec_skip [OF assms]
    by (auto simp: case_prod_beta Let_def intro!: grown_bind split: option.split)
qed

lemma finished_good:
  assumes "ext d e e1" "x_status e1 = x_status e" "terminated_by_task E e1 \<or> s = W_COMPLETED \<and> all_done d e1"
  shows "good E d e (finish_exec E' s e1)"
  using assms by (auto simp: good_def ext_def finish_exec_def terminated_by_task_def all_done_def)

lemma spawn_system_grown:
  assumes "rec_ok E rec" "distinct_names d" "pending d e (ref # rest)" "v_task_defs E k = Some t" "nm = m_name t"
  shows "grown E d e (spawn_system rec E e d (td_type t) input ref nm st)"
proof -
  obtain s1 outcome where out: "system_execute E (td_type t) input (x_variables e) st = (s1, outcome)" by (metis prod.exhaust)
  define e1 where "e1 = (if td_type t = SET_VARIABLE then e\<lparr>x_variables := assign_all (so_output_data outcome) (x_variables e)\<rparr> else e)"
  have same: "x_task_instances e1 = x_task_instances e" "x_status e1 = x_status e" "ext d e e1"
    by (simp_all add: e1_def ext_def grows_refl)
  obtain i where i: "snd (spawn_ended E e1 nm ref COMPLETED (so_output_data outcome) s1) = add_instance i e1"
    "m_node_ref i = ref" "m_status i = COMPLETED" "m_def_name i = nm" by (rule spawn_ended_adds)
  have p1: "pending d e1 (ref # rest)" using assms(3) pending_instances [OF same(1)] by simp
  have step: "ext d e1 (add_instance i e1)" "x_status (add_instance i e1) = x_status e1"
    using pending_step [OF p1 i(2)] i(3) by simp_all
  have ext: "ext d e (add_instance i e1)" using step(1) same by (simp add: ext_def)
  have adv: "grown E d e (rec (Advance (add_instance i e1) d) st2)" for st2
    by (rule rec_advance [OF assms(1,2) ext]) (simp add: step(2) same(2))
  have "terminated_by_task E (add_instance i e1)" if "so_terminate_workflow outcome"
  proof -
    have "td_type t = TERMINATE"
      using out that by (auto simp: system_execute_def execute_script_def outcome_of_def case_prod_beta split: if_splits option.splits)
    then show ?thesis using assms(4,5) i(4) by (auto simp: terminated_by_task_def add_instance_def)
  qed
  then have fin: "good E d e (finish_exec E s (add_instance i e1))" if "so_terminate_workflow outcome" for s
    using finished_good [OF ext] step(2) same(2) that by simp
  show ?thesis
    unfolding spawn_system_def out using adv fin i(1)
    by (auto simp: Let_def e1_def [symmetric] case_prod_beta grown_def)
qed

lemma maybe_complete_grown: "grown E d e (answer_exec (maybe_complete rec E e d st))"
proof (cases "workflow_terminal (x_status e) \<or> length (x_task_instances e) < length (wd_nodes d) \<or> \<not> list_all succeeded (x_task_instances e)")
  case True
  then show ?thesis by (simp add: maybe_complete_def answer_exec_def good_def)
next
  case False
  then have "all_done d e" by (simp add: all_done_def)
  then have "good E d e (finish_exec E W_COMPLETED (e\<lparr>x_variables := vs\<rparr>))" "good E d e (finish_exec E W_COMPLETED e)" for vs
    by (auto simp: good_def ext_def finish_exec_def all_done_def grows_refl)
  then show ?thesis using False by (auto simp: maybe_complete_def answer_exec_def grown_def Let_def split: if_splits)
qed

lemma spawn_with_def_grown:
  assumes "rec_ok E rec" "distinct_names d" "pending d e (ref # rest)" "task_def = None \<or> (\<exists>k. v_task_defs E k = task_def)"
  shows "grown E d e (spawn_with_def rec E e d rest input ref nm task_def st)"
proof (cases task_def)
  case None
  then show ?thesis using spawn_scheduled_grown [OF assms(1-3)] by (simp add: spawn_with_def_def)
next
  case (Some t)
  then obtain k where k: "v_task_defs E k = Some t" using assms(4) by auto
  have waiting: "grown E d e (rec (Spawn_next (snd (spawn_waiting E e n ref input u st1)) d rest) st2)" for n u st1 st2
  proof -
    obtain i where "snd (spawn_waiting E e n ref input u st1) = add_instance i e" "m_node_ref i = ref" "m_status i = IN_PROGRESS"
      by (rule spawn_waiting_adds)
    then show ?thesis using rec_spawn_step(1) [OF assms(1-3), of i] by simp
  qed
  have rejected: "grown E d e (spawn_rejected rec E e d r err input ref n st1)" for r err n st1
    by (simp add: spawn_rejected_def case_prod_beta Let_def)
  show ?thesis
    unfolding spawn_with_def_def Some option.case Let_def
    by (simp add: waiting rejected case_prod_beta spawn_scheduled_grown [OF assms(1-3)] spawn_event_grown [OF assms(1-3)]
        spawn_start_workflow_grown [OF assms(1-3)] spawn_sub_workflow_grown [OF assms(1-3)]
        spawn_system_grown [OF assms(1-3) k] split: option.split)
qed

lemma resolve_dynamic_range: "resolve_dynamic E input (v_task_defs E k) = None \<or> (\<exists>k'. v_task_defs E k' = resolve_dynamic E input (v_task_defs E k))"
  by (auto simp: resolve_dynamic_def split: option.split)

lemma spawn_next_grown:
  assumes "rec_ok E rec" "distinct_names d" "pending d e rs"
  shows "grown E d e (spawn_next rec E e d rs st)"
proof (cases rs)
  case Nil
  then show ?thesis using maybe_complete_grown by (simp add: spawn_next_def)
next
  case (Cons r rest)
  then obtain node where node: "find_node d r = Some node" using assms(3) by (auto simp: pending_def)
  then have "tn_ref_name node = r" using find_node_set by blast
  then show ?thesis
    using spawn_with_def_grown [OF assms(1,2) _ resolve_dynamic_range] assms(3) node Cons
    by (simp add: spawn_next_def case_prod_beta)
qed

text \<open>One pass over the nodes: what is skipped, and what is then pending.\<close>

lemma pass_pending:
  assumes "distinct_names d" "classify E e d (wd_nodes d) st = (s1, el, sk)" "skip_nodes E d sk e s1 = (s2, e1)"
  shows "ext d e e1" "x_status e1 = x_status e" "pending d e1 el" "\<exists>new. x_task_instances e1 = x_task_instances e @ new"
    "sk \<noteq> [] \<Longrightarrow> length (x_task_instances e) < length (x_task_instances e1)"
proof -
  note spec = classify_spec [OF assms(2) assms(1) [unfolded distinct_names_def]]
  have found: "r \<notin> set (refs (x_task_instances e)) \<and> (\<exists>node. find_node d r = Some node \<and> P (x_task_instances e) node)"
    if "chosen P (x_task_instances e) (wd_nodes d) rs" "r \<in> set rs" for P rs r
    using that find_node_unique [OF assms(1) [unfolded distinct_names_def]] unfolding chosen_def by metis
  show skips: "ext d e e1" "x_status e1 = x_status e"
    using skip_nodes_grows [OF assms(3)] found [of "node_skippable d" sk] spec skip_nodes_id [OF assms(3)] by (auto simp: ext_def)
  have refs: "set (refs (x_task_instances e1)) = set (refs (x_task_instances e)) \<union> set sk"
    using skip_nodes_grows [OF assms(3)] found [of "node_skippable d" sk] spec by auto
  show "\<exists>new. x_task_instances e1 = x_task_instances e @ new"
    using skips(1) grows_prefix [of d "x_task_instances e" "x_task_instances e1"] by (simp add: ext_def)
  then obtain new where new: "x_task_instances e1 = x_task_instances e @ new" by blast
  show "pending d e1 el"
    unfolding pending_def
  proof (intro conjI ballI)
    show "distinct el" using spec by simp
    fix r assume r: "r \<in> set el"
    then obtain node where "find_node d r = Some node" "node_ready d (x_task_instances e) node" "r \<notin> set (refs (x_task_instances e))"
      using found [of "node_ready d" el] spec by blast
    then show "r \<notin> set (refs (x_task_instances e1))" "\<exists>node. find_node d r = Some node \<and> node_ready d (x_task_instances e1) node"
      using refs spec r node_ready_append [of d "x_task_instances e" node new] new by auto
  qed
  assume "sk \<noteq> []"
  then have "hd sk \<in> set (refs (x_task_instances e1)) - set (refs (x_task_instances e))"
    using refs found [of "node_skippable d" sk "hd sk"] spec by simp
  then have "new \<noteq> []" using new by auto
  then show "length (x_task_instances e) < length (x_task_instances e1)" using new by simp
qed

lemma advance_grown:
  assumes "rec_ok E rec" "distinct_names d"
  shows "grown E d e (advance rec E e d st)"
proof (cases "workflow_terminal (x_status e) \<or> x_status e = W_PAUSED")
  case True
  then show ?thesis by (simp add: advance_def good_def)
next
  case False
  obtain s1 el sk where cl: "classify E e d (wd_nodes d) st = (s1, el, sk)" by (metis prod.exhaust)
  obtain s2 e1 where sk: "skip_nodes E d sk e s1 = (s2, e1)" by (metis prod.exhaust)
  note pass = pass_pending [OF assms(2) cl sk]
  then show ?thesis
    using False rec_advance [OF assms pass(1,2)] rec_spawn [OF assms pass(3,1,2)]
    by (simp add: advance_def cl sk maybe_complete_grown)
qed

lemma run_rec_ok: "rec_ok E (run n E)"
proof (induction n)
  case 0
  then show ?case by (simp add: rec_ok_def)
next
  case (Suc n)
  then show ?case unfolding rec_ok_def [of E "run (Suc n) E"] by (simp add: advance_grown spawn_next_grown)
qed

text \<open>
  C4: an advancing execution follows its graph. Whatever the tasks, conditions and nested
  workflows do, the instances that \<open>advance\<close> adds come one for each node, each new to the
  execution, spawned when its join was ready, or it has no incoming edge, or the predecessor on
  one of its edges had ended well, or skipped when all its
  predecessors had ended; and an execution that completes has a well ended instance for every
  node, unless a TERMINATE task ended it.
\<close>
theorem advance_respects_dag:
  assumes "run n E (Advance e d) st = Some (st', Some (Some e'))" "distinct_names d"
    "distinct (refs (x_task_instances e))" "set (refs (x_task_instances e)) \<subseteq> set (map tn_ref_name (wd_nodes d))"
    "x_status e = W_RUNNING"
  shows "grows d (x_task_instances e) (x_task_instances e') \<and> distinct (refs (x_task_instances e')) \<and>
    (x_status e' = W_COMPLETED \<longrightarrow> terminated_by_task E e' \<or>
       set (refs (x_task_instances e')) = set (map tn_ref_name (wd_nodes d)) \<and> list_all succeeded (x_task_instances e'))"
proof -
  let ?is = "x_task_instances e'" and ?names = "map tn_ref_name (wd_nodes d)"
  have good: "good E d e e'" using run_rec_ok [of E n] assms(1,2) by (simp add: rec_ok_def grown_def)
  then have grows: "grows d (x_task_instances e) ?is" by (simp add: good_def ext_def)
  have "set (refs ?is) = set ?names" if "length ?names \<le> length ?is"
  proof (rule card_seteq)
    show "set (refs ?is) \<subseteq> set ?names" by (rule grows_refs(2) [OF grows assms(4)])
    show "card (set ?names) \<le> card (set (refs ?is))"
      using that assms(2) distinct_card [OF grows_refs(1) [OF grows assms(3)]] distinct_card [of ?names]
      by (simp add: distinct_names_def refs_def)
  qed simp
  then show ?thesis using good grows grows_refs(1) [OF grows assms(3)] assms(5) by (auto simp: good_def all_done_def)
qed

text \<open>A node that runs at once, followed by one for a worker.\<close>

definition sample_node :: "string \<Rightarrow> string \<Rightarrow> string list \<Rightarrow> TaskNode" where
  "sample_node nm ref targets = \<lparr>tn_def_name = nm, tn_ref_name = ref,
     tn_edges = map (\<lambda>t. \<lparr>te_from = ref, te_to = t, te_condition = None, te_mappings = []\<rparr>) targets,
     tn_join_on = [], tn_join_type = JOIN_ALL, tn_loop_body = [], tn_loop_condition = None, tn_dynamic_tasks_input_key = None\<rparr>"

definition sample_def :: "TaskNode list \<Rightarrow> WorkflowDef" where
  "sample_def ns = empty_def\<lparr>wd_name := ''w'', wd_nodes := ns\<rparr>"

definition sample_task_def :: "string \<Rightarrow> TaskType \<Rightarrow> FullTaskDef" where
  "sample_task_def nm t = \<lparr>m_name = nm, m_worker_type = ''echo'', m_domain = None, m_timeout_ms = 30000, td_type = t,
     td_retry = default_retry, td_timeout_action = RETRY, td_max_concurrent = None, td_dynamic_task_param = None,
     td_wait_duration_ms = None, td_input_schema = None, td_enforce_schema = False\<rparr>"

definition sample_wf_env :: "(string \<times> WorkflowDef) list \<Rightarrow> (string \<times> FullTaskDef) list \<Rightarrow> wf_env" where
  "sample_wf_env ws ts = \<lparr>v_workflow_defs = map_of ws, v_task_defs = map_of ts, v_handlers = [], v_id = show_nat, v_default_input = GNull,
     v_now = 1000, v_bridge = None, v_search = None, v_workflow_json = (\<lambda>_. ''''), v_task_json = (\<lambda>_. '''')\<rparr>"

definition sample_exec :: "string \<Rightarrow> instance_row list \<Rightarrow> WorkflowExecution" where
  "sample_exec i is = \<lparr>x_exec_id = i, x_def_name = ''w'', x_def_version = 1, x_status = W_RUNNING, x_correlation_id = None,
     x_variables = [], x_task_instances = is, x_timings = (None, Some 0, None), x_dynamic_nodes = [], x_parent_exec_id = None\<rparr>"

definition empty_state :: wf_state where
  "empty_state = \<lparr>w_execs = [], w_tasks = [], w_ids = 0, w_lua = [], w_index = [], w_effects = []\<rparr>"

definition two_nodes :: WorkflowDef where
  "two_nodes = sample_def [sample_node ''n'' ''a'' [''b''], sample_node ''s'' ''b'' []]"

definition two_tasks :: "(string \<times> FullTaskDef) list" where
  "two_tasks = [(''n'', sample_task_def ''n'' NOOP), (''s'', sample_task_def ''s'' SIMPLE)]"

definition answered :: "(wf_state \<times> answer) option \<Rightarrow> WorkflowExecution option" where
  "answered r = (case r of Some (_, Some (Some e)) \<Rightarrow> Some e | _ \<Rightarrow> None)"

lemma two_nodes_run:
  "map_option (\<lambda>e. map (\<lambda>i. (m_node_ref i, m_status i)) (x_task_instances e))
     (answered (run 9 (sample_wf_env [] two_tasks) (Advance (sample_exec ''x'' []) two_nodes) empty_state)) =
   Some [(''a'', COMPLETED), (''b'', SCHEDULED)]"
  by code_simp

theorem advance_respects_dag_witness:
  "\<exists>st' e'. run 9 (sample_wf_env [] two_tasks) (Advance (sample_exec ''x'' []) two_nodes) empty_state = Some (st', Some (Some e')) \<and>
     refs (x_task_instances e') = [''a'', ''b''] \<and> grows two_nodes [] (x_task_instances e')"
proof -
  obtain e' st' where r: "run 9 (sample_wf_env [] two_tasks) (Advance (sample_exec ''x'' []) two_nodes) empty_state = Some (st', Some (Some e'))"
    and inst: "map (\<lambda>i. (m_node_ref i, m_status i)) (x_task_instances e') = [(''a'', COMPLETED), (''b'', SCHEDULED)]"
    using two_nodes_run by (auto simp: answered_def split: option.splits)
  have "map fst (map (\<lambda>i. (m_node_ref i, m_status i)) (x_task_instances e')) = [''a'', ''b'']" unfolding inst by simp
  then have "refs (x_task_instances e') = [''a'', ''b'']" by (simp add: refs_def comp_def)
  moreover have "grows two_nodes [] (x_task_instances e')"
    using advance_respects_dag [OF r] by (simp add: distinct_names_def two_nodes_def sample_def_def sample_node_def sample_exec_def refs_def)
  ultimately show ?thesis using r by blast
qed

end
