(* ===== verification/WorkflowEnds.thy ===== *)
theory WorkflowEnds
  imports WorkflowProps
begin

text \<open>
  Fuel. A run that ends keeps its result with more fuel, so a result does not depend on it; and
  a workflow whose tasks start no other workflow, where nothing reacts to events, always ends,
  within a bound that is quadratic in the number of its nodes.
\<close>

section \<open>More fuel, same result\<close>

definition opt_le :: "'a option \<Rightarrow> 'a option \<Rightarrow> bool" where
  "opt_le a b \<longleftrightarrow> a = None \<or> a = b"

named_theorems mono_opt \<open>the order on results\<close>

lemma opt_le_refl [simp]: "opt_le a a"
  by (simp add: opt_le_def)

lemma opt_le_bind [mono_opt]: "opt_le a b \<Longrightarrow> (\<And>x. opt_le (f x) (g x)) \<Longrightarrow> opt_le (Option.bind a f) (Option.bind b g)"
proof (cases a)
  case (Some x)
  assume "opt_le a b" and le: "\<And>x. opt_le (f x) (g x)"
  then have "b = Some x" using Some by (simp add: opt_le_def)
  then show ?thesis using Some le by simp
qed (simp add: opt_le_def)

lemma opt_le_map [mono_opt]: "opt_le a b \<Longrightarrow> opt_le (map_option f a) (map_option f b)"
  by (auto simp: opt_le_def)

definition runner_le :: "runner \<Rightarrow> runner \<Rightarrow> bool" where
  "runner_le f g \<longleftrightarrow> (\<forall>c st. opt_le (f c st) (g c st))"

lemma runner_leD: "runner_le f g \<Longrightarrow> opt_le (f c st) (g c st)"
  by (simp add: runner_le_def)

lemma complete_instance_mono [mono_opt]:
  "runner_le f g \<Longrightarrow> opt_le (complete_instance_by_ref f x r s out st) (complete_instance_by_ref g x r s out st)"
  by (simp add: complete_instance_by_ref_def Let_def mono_opt runner_leD split: option.split)

lemma event_action_mono [mono_opt]:
  "runner_le f g \<Longrightarrow> opt_le (execute_event_action f E a st) (execute_event_action g E a st)"
  by (cases a; rename_tac t p, case_tac t)
    (simp_all add: execute_event_action_def Let_def mono_opt runner_leD split: option.split)

lemma actions_mono [mono_opt]: "runner_le f g \<Longrightarrow> opt_le (run_actions f E as st) (run_actions g E as st)"
  by (induction "as" arbitrary: st) (simp_all add: mono_opt)

lemma handlers_mono [mono_opt]: "runner_le f g \<Longrightarrow> opt_le (run_handlers f E ev p hs st) (run_handlers g E ev p hs st)"
  by (induction hs arbitrary: st) (simp_all add: mono_opt case_prod_beta Let_def)

lemma publish_event_mono [mono_opt]: "runner_le f g \<Longrightarrow> opt_le (publish_event f E ev p st) (publish_event g E ev p st)"
  by (simp add: publish_event_def mono_opt)

lemma on_execution_terminal_mono [mono_opt]:
  "runner_le f g \<Longrightarrow> opt_le (on_execution_terminal f E e st) (on_execution_terminal g E e st)"
  unfolding on_execution_terminal_def Let_def
  by (rule opt_le_bind) (simp_all add: mono_opt runner_leD split: option.split)

lemma start_failure_mono [mono_opt]:
  "runner_le f g \<Longrightarrow> opt_le (start_failure_workflow f d e st) (start_failure_workflow g d e st)"
  by (simp add: start_failure_workflow_def mono_opt runner_leD split: option.split)

lemma handle_failure_mono [mono_opt]:
  "runner_le f g \<Longrightarrow> opt_le (handle_failure f E i e d r st) (handle_failure g E i e d r st)"
  by (simp add: handle_failure_def Let_def mono_opt runner_leD case_prod_beta)

lemma maybe_complete_mono [mono_opt]: "runner_le f g \<Longrightarrow> opt_le (maybe_complete f E e d st) (maybe_complete g E e d st)"
  by (simp add: maybe_complete_def Let_def mono_opt runner_leD)

lemma store_advanced_mono [mono_opt]: "opt_le a b \<Longrightarrow> opt_le (store_advanced a) (store_advanced b)"
  by (simp add: store_advanced_def mono_opt)

lemma answer_exec_mono [mono_opt]: "opt_le a b \<Longrightarrow> opt_le (answer_exec a) (answer_exec b)"
  by (simp add: answer_exec_def mono_opt)

lemma on_task_terminal_mono [mono_opt]: "runner_le f g \<Longrightarrow> opt_le (on_task_terminal f E i st) (on_task_terminal g E i st)"
  by (simp add: on_task_terminal_def process_terminal_def Let_def mono_opt runner_leD split: option.split)

lemma start_mono [mono_opt]: "runner_le f g \<Longrightarrow> opt_le (start f E w vs p st) (start g E w vs p st)"
  by (simp add: start_def Let_def case_prod_beta mono_opt runner_leD split: option.split)

lemma advance_mono [mono_opt]: "runner_le f g \<Longrightarrow> opt_le (advance f E e d st) (advance g E e d st)"
  by (simp add: advance_def Let_def case_prod_beta mono_opt runner_leD)

lemma spawn_start_mono [mono_opt]:
  "runner_le f g \<Longrightarrow> opt_le (spawn_start_workflow f E e d rest input ref nm st) (spawn_start_workflow g E e d rest input ref nm st)"
  by (simp add: spawn_start_workflow_def Let_def case_prod_beta mono_opt runner_leD split: option.split)

lemma spawn_sub_mono [mono_opt]:
  "runner_le f g \<Longrightarrow> opt_le (spawn_sub_workflow f E e d rest input ref nm st) (spawn_sub_workflow g E e d rest input ref nm st)"
  by (simp add: spawn_sub_workflow_def Let_def case_prod_beta mono_opt runner_leD split: option.split)

lemma spawn_event_mono [mono_opt]:
  "runner_le f g \<Longrightarrow> opt_le (spawn_event f E e d input ref nm st) (spawn_event g E e d input ref nm st)"
  unfolding spawn_event_def
  by (rule opt_le_bind) (simp_all add: case_prod_beta Let_def mono_opt runner_leD split: option.split)

lemma spawn_system_mono [mono_opt]:
  "runner_le f g \<Longrightarrow> opt_le (spawn_system f E e d t input ref nm st) (spawn_system g E e d t input ref nm st)"
  by (simp add: spawn_system_def Let_def case_prod_beta mono_opt runner_leD)

lemma spawn_next_mono [mono_opt]: "runner_le f g \<Longrightarrow> opt_le (spawn_next f E e d rs st) (spawn_next g E e d rs st)"
  by (simp add: spawn_next_def spawn_with_def_def spawn_rejected_def spawn_scheduled_def Let_def case_prod_beta mono_opt runner_leD
      split: list.split option.split)

lemma body_mono: "runner_le f g \<Longrightarrow> runner_le (body f E) (body g E)"
  unfolding runner_le_def [of "body f E"]
proof (intro allI)
  fix c st assume "runner_le f g"
  then show "opt_le (body f E c st) (body g E c st)" by (cases c) (simp_all add: mono_opt)
qed

lemma run_Suc: "run (Suc n) E = body (run n E) E"
  by (intro ext) simp

lemma run_mono: "m \<le> n \<Longrightarrow> runner_le (run m E) (run n E)"
proof (induction m arbitrary: n)
  case 0
  then show ?case by (simp add: runner_le_def opt_le_def)
next
  case (Suc m)
  then obtain k where "n = Suc k" "m \<le> k" by (cases n) auto
  then show ?case using Suc.IH by (simp add: run_Suc body_mono)
qed

lemma run_more_fuel: "run m E c st = Some r \<Longrightarrow> m \<le> n \<Longrightarrow> run n E c st = Some r"
  using runner_leD [OF run_mono, of m n E c st] by (simp add: opt_le_def)

section \<open>Workflows that end\<close>

text \<open>No task starts a workflow, and nothing reacts to an event.\<close>

definition contained :: "wf_env \<Rightarrow> bool" where
  "contained E \<longleftrightarrow> v_handlers E = [] \<and>
     (\<forall>k t. v_task_defs E k = Some t \<longrightarrow> td_type t \<noteq> START_WORKFLOW \<and> td_type t \<noteq> SUB_WORKFLOW)"

definition inside :: "WorkflowDef \<Rightarrow> WorkflowExecution \<Rightarrow> bool" where
  "inside d e \<longleftrightarrow> distinct_names d \<and> wd_failure_workflow d = None \<and> x_parent_exec_id e = None \<and>
     distinct (refs (x_task_instances e)) \<and> set (refs (x_task_instances e)) \<subseteq> set (map tn_ref_name (wd_nodes d))"

definition unspawned :: "WorkflowDef \<Rightarrow> WorkflowExecution \<Rightarrow> nat" where
  "unspawned d e = length (wd_nodes d) - length (x_task_instances e)"

fun fuel_for :: "call \<Rightarrow> nat" where
  "fuel_for (Advance e d) = Suc (unspawned d e) * (length (wd_nodes d) + 4)"
| "fuel_for (Spawn_next e d rs) = unspawned d e * (length (wd_nodes d) + 4) + length rs + 2"
| "fuel_for _ = 1"

fun call_inside :: "call \<Rightarrow> bool" where
  "call_inside (Advance e d) = inside d e"
| "call_inside (Spawn_next e d rs) = (inside d e \<and> pending d e rs)"
| "call_inside (On_execution_terminal e) = (x_parent_exec_id e = None)"
| "call_inside _ = False"

definition rec_ends :: "nat \<Rightarrow> runner \<Rightarrow> bool" where
  "rec_ends m rec \<longleftrightarrow> (\<forall>c st. call_inside c \<longrightarrow> fuel_for c \<le> m \<longrightarrow> rec c st \<noteq> None)"

lemma rec_endsD: "rec_ends m rec \<Longrightarrow> call_inside c \<Longrightarrow> fuel_for c \<le> m \<Longrightarrow> rec c st \<noteq> None"
  by (simp add: rec_ends_def)

lemma length_inside: "inside d e \<Longrightarrow> length (x_task_instances e) \<le> length (wd_nodes d)"
  using card_mono [of "set (map tn_ref_name (wd_nodes d))" "set (refs (x_task_instances e))"]
    distinct_card [of "refs (x_task_instances e)"] distinct_card [of "map tn_ref_name (wd_nodes d)"]
  by (simp add: inside_def distinct_names_def refs_def)

lemma inside_ext: "inside d e \<Longrightarrow> WorkflowProps.ext d e e' \<Longrightarrow> inside d e'"
  unfolding inside_def WorkflowProps.ext_def using grows_refs by metis

lemma unspawned_less:
  assumes "inside d e'" "length (x_task_instances e) < length (x_task_instances e')"
  shows "Suc (unspawned d e') \<le> unspawned d e"
  using length_inside [OF assms(1)] assms(2) by (simp add: unspawned_def)

text \<open>The fuel of the calls that a pass makes.\<close>

lemma fuel_advance:
  assumes "inside d e'" "length (x_task_instances e) < length (x_task_instances e')"
  shows "fuel_for (Advance e' d) \<le> unspawned d e * (length (wd_nodes d) + 4)"
  unfolding fuel_for.simps by (rule mult_le_mono1 [OF unspawned_less [OF assms]])

lemma fuel_spawn:
  assumes "unspawned d e' \<le> unspawned d e"
  shows "fuel_for (Spawn_next e' d rs) \<le> unspawned d e * (length (wd_nodes d) + 4) + length rs + 2"
  using mult_le_mono1 [OF assms, of "length (wd_nodes d) + 4"] by simp

lemma pending_length: "inside d e \<Longrightarrow> pending d e rs \<Longrightarrow> length rs \<le> length (wd_nodes d)"
proof -
  assume "inside d e" and p: "pending d e rs"
  have "set rs \<subseteq> set (map tn_ref_name (wd_nodes d))" using p find_node_ref unfolding pending_def by fastforce
  then have "card (set rs) \<le> card (set (map tn_ref_name (wd_nodes d)))" by (intro card_mono) simp_all
  also have "\<dots> \<le> length (wd_nodes d)" using card_length [of "map tn_ref_name (wd_nodes d)"] by simp
  finally show ?thesis using p distinct_card [of rs] by (simp add: pending_def)
qed

lemma publish_contained: "contained E \<Longrightarrow> publish_event rec E ev p st \<noteq> None"
  by (simp add: publish_event_def contained_def)

lemma on_execution_terminal_ends:
  "contained E \<Longrightarrow> x_parent_exec_id e = None \<Longrightarrow> on_execution_terminal rec E e st \<noteq> None"
  using publish_contained [of E rec]
  by (auto simp: on_execution_terminal_def Let_def bind_eq_None_conv split: option.split)

lemma bind_not_None: "a \<noteq> None \<Longrightarrow> (\<And>x. f x \<noteq> None) \<Longrightarrow> Option.bind a f \<noteq> None"
  by (cases a) simp_all

lemma handle_failure_ends:
  assumes "contained E" "rec_ends m rec" "1 \<le> m" "x_parent_exec_id e = None" "wd_failure_workflow d = None"
  shows "handle_failure rec E i e d r st \<noteq> None"
proof -
  have "rec (On_execution_terminal (sync_instance i (finish_exec E s e))) st' \<noteq> None" for s st'
    by (rule rec_endsD [OF assms(2)]) (use assms(3,4) in \<open>simp_all add: sync_instance_def finish_exec_def\<close>)
  then have "Option.bind (rec (On_execution_terminal (sync_instance i (finish_exec E s e))) st') (\<lambda>(st, _). Some st) \<noteq> None" for s st'
    by (rule bind_not_None) (simp add: case_prod_beta)
  then show ?thesis by (simp add: handle_failure_def Let_def start_failure_workflow_def assms(5))
qed

lemma maybe_complete_ends:
  assumes "contained E" "rec_ends m rec" "1 \<le> m" "x_parent_exec_id e = None"
  shows "answer_exec (maybe_complete rec E e d st) \<noteq> None"
proof -
  have "rec (On_execution_terminal (finish_exec E s (e\<lparr>x_variables := vs\<rparr>))) st' \<noteq> None"
    "rec (On_execution_terminal (finish_exec E s e)) st' \<noteq> None" for s vs st'
    by (rule rec_endsD [OF assms(2)]; use assms(3,4) in \<open>simp add: finish_exec_def\<close>)+
  then show ?thesis by (auto simp: maybe_complete_def Let_def answer_exec_def)
qed

text \<open>Every way to spawn the first pending node ends.\<close>

lemma spawn_calls_end:
  assumes "rec_ends m rec" "inside d e" "pending d e (ref # rest)" "fuel_for (Spawn_next e d (ref # rest)) \<le> Suc m"
    "m_node_ref i = ref" "m_status i \<noteq> SKIPPED"
  shows "rec (Spawn_next (add_instance i e) d rest) st \<noteq> None" "rec (Advance (add_instance i e) d) st \<noteq> None"
    "rec (Spawn_next e d rest) st \<noteq> None" "1 \<le> m" "inside d (add_instance i e)"
proof -
  note step = pending_step [OF assms(3,5,6)]
  show ins: "inside d (add_instance i e)" by (rule inside_ext [OF assms(2) step(1)])
  have len: "length (x_task_instances e) < length (x_task_instances (add_instance i e))" by (simp add: add_instance_def)
  have le: "unspawned d (add_instance i e) \<le> unspawned d e" using unspawned_less [OF ins len] by simp
  have m: "unspawned d e * (length (wd_nodes d) + 4) + length rest + 2 \<le> m" using assms(4) by simp
  then show "1 \<le> m" by linarith
  show "rec (Spawn_next (add_instance i e) d rest) st \<noteq> None"
    by (rule rec_endsD [OF assms(1)]) (use ins step(2) m fuel_spawn [OF le] order_trans in \<open>simp, blast\<close>)
  show "rec (Advance (add_instance i e) d) st \<noteq> None"
    by (rule rec_endsD [OF assms(1)]) (use ins m fuel_advance [OF ins len] in \<open>simp, linarith\<close>)
  show "rec (Spawn_next e d rest) st \<noteq> None"
    by (rule rec_endsD [OF assms(1)]) (use assms(2,3) m in \<open>simp_all add: pending_tl\<close>)
qed

lemma spawn_system_ends:
  assumes "contained E" "rec_ends m rec" "inside d e" "pending d e (ref # rest)" "fuel_for (Spawn_next e d (ref # rest)) \<le> Suc m"
  shows "spawn_system rec E e d t input ref nm st \<noteq> None"
proof -
  obtain s1 outcome where out: "system_execute E t input (x_variables e) st = (s1, outcome)" by (metis prod.exhaust)
  define e1 where "e1 = (if t = SET_VARIABLE then e\<lparr>x_variables := assign_all (so_output_data outcome) (x_variables e)\<rparr> else e)"
  have same: "x_task_instances e1 = x_task_instances e" "x_parent_exec_id e1 = x_parent_exec_id e" by (simp_all add: e1_def)
  obtain i where i: "snd (spawn_ended E e1 nm ref COMPLETED (so_output_data outcome) s1) = add_instance i e1"
    "m_node_ref i = ref" "m_status i = COMPLETED" by (rule spawn_ended_adds)
  have "inside d e1" "pending d e1 (ref # rest)" "fuel_for (Spawn_next e1 d (ref # rest)) \<le> Suc m"
    using assms(3-5) same pending_instances [OF same(1)] by (simp_all add: inside_def unspawned_def)
  note calls = spawn_calls_end [OF assms(2) this i(2)]
  have "rec (On_execution_terminal (finish_exec E s (add_instance i e1))) st' \<noteq> None" for s st'
    by (rule rec_endsD [OF assms(2)])
      (use calls(4) i(3) same(2) assms(3) in \<open>simp_all add: finish_exec_def add_instance_def inside_def\<close>)
  then show ?thesis
    unfolding spawn_system_def out using calls(2) i(1,3)
    by (auto simp: Let_def e1_def [symmetric] case_prod_beta)
qed

lemma spawn_with_def_ends:
  assumes "contained E" "rec_ends m rec" "inside d e" "pending d e (ref # rest)" "fuel_for (Spawn_next e d (ref # rest)) \<le> Suc m"
    "task_def = None \<or> (\<exists>k. v_task_defs E k = task_def)"
  shows "spawn_with_def rec E e d rest input ref nm task_def st \<noteq> None"
proof -
  note calls = spawn_calls_end [OF assms(2-5)]
  let ?i = "(init_task GNull)\<lparr>m_node_ref := ref, m_status := FAILED\<rparr>"
  have skip: "rec (Spawn_next e d rest) st' \<noteq> None" for st' by (rule calls(3) [of ?i]) simp_all
  have sched: "spawn_scheduled rec E e d rest t input ref n st' \<noteq> None" for t n st'
    using calls(1) skip by (simp add: spawn_scheduled_def case_prod_beta Let_def new_instance_simps)
  have waiting: "rec (Spawn_next (snd (spawn_waiting E e n ref input u st1)) d rest) st2 \<noteq> None" for n u st1 st2
    using calls(1) spawn_waiting_adds [of E e n ref input u st1] by (metis TaskStatus.distinct(19))
  have ended: "rec (Advance (snd (spawn_ended E e n ref COMPLETED out st1)) d) st2 \<noteq> None" for n out st1 st2
    using calls(2) spawn_ended_adds [of E e n ref COMPLETED out st1] by (metis TaskStatus.distinct(27))
  have event: "spawn_event rec E e d input ref n st' \<noteq> None" for n st'
    using ended publish_contained [OF assms(1), of rec]
    by (auto simp: spawn_event_def bind_eq_None_conv case_prod_beta Let_def split: option.split)
  have rejected: "spawn_rejected rec E e d r err input ref n st' \<noteq> None" for r err n st'
  proof -
    have "1 \<le> m" by (rule calls(4) [of ?i]) simp_all
    then have "handle_failure rec E j (add_instance k e) d r st1 \<noteq> None" for j k st1
      by (rule handle_failure_ends [OF assms(1,2)]) (use assms(3) in \<open>simp_all add: add_instance_def inside_def\<close>)
    then show ?thesis by (simp add: spawn_rejected_def case_prod_beta Let_def)
  qed
  show ?thesis
  proof (cases task_def)
    case None
    then show ?thesis using sched by (simp add: spawn_with_def_def)
  next
    case (Some t)
    then have "td_type t \<noteq> START_WORKFLOW" "td_type t \<noteq> SUB_WORKFLOW" using assms(1,6) by (auto simp: contained_def)
    then show ?thesis
      unfolding spawn_with_def_def Some option.case Let_def
      using waiting event sched rejected spawn_system_ends [OF assms(1-5)]
      by (auto simp: case_prod_beta split: option.split)
  qed
qed

lemma spawn_next_ends:
  assumes "contained E" "rec_ends m rec" "inside d e" "pending d e rs" "fuel_for (Spawn_next e d rs) \<le> Suc m"
  shows "spawn_next rec E e d rs st \<noteq> None"
proof (cases rs)
  case Nil
  then show ?thesis using maybe_complete_ends [OF assms(1,2)] assms(3,5) by (simp add: spawn_next_def inside_def)
next
  case (Cons r rest)
  then obtain node where node: "find_node d r = Some node" using assms(4) by (auto simp: pending_def)
  then have "tn_ref_name node = r" using find_node_set by blast
  then show ?thesis
    using spawn_with_def_ends [OF assms(1-3) _ _ resolve_dynamic_range] assms(4,5) node Cons
    by (simp add: spawn_next_def case_prod_beta)
qed

lemma advance_ends:
  assumes "contained E" "rec_ends m rec" "inside d e" "fuel_for (Advance e d) \<le> Suc m"
  shows "advance rec E e d st \<noteq> None"
proof -
  obtain s1 el sk where cl: "classify E e d (wd_nodes d) st = (s1, el, sk)" by (metis prod.exhaust)
  obtain s2 e1 where sk: "skip_nodes E d sk e s1 = (s2, e1)" by (metis prod.exhaust)
  have names: "distinct_names d" and parent: "x_parent_exec_id e = None" using assms(3) by (simp_all add: inside_def)
  note pass = pass_pending [OF names cl sk]
  have ins: "inside d e1" by (rule inside_ext [OF assms(3) pass(1)])
  have m: "unspawned d e * (length (wd_nodes d) + 4) + length (wd_nodes d) + 3 \<le> m" using assms(4) by simp
  have spawn: "rec (Spawn_next e1 d el) s2 \<noteq> None"
  proof (rule rec_endsD [OF assms(2)])
    obtain new where "x_task_instances e1 = x_task_instances e @ new" using pass(4) by blast
    then have "unspawned d e1 \<le> unspawned d e" by (simp add: unspawned_def)
    from fuel_spawn [OF this, of el] show "fuel_for (Spawn_next e1 d el) \<le> m" using m pending_length [OF ins pass(3)] by linarith
  qed (simp add: ins pass(3))
  have adv: "rec (Advance e1 d) s2 \<noteq> None" if "sk \<noteq> []"
    by (rule rec_endsD [OF assms(2)]) (use ins m fuel_advance [OF ins pass(5) [OF that]] in \<open>simp, linarith\<close>)
  have "answer_exec (maybe_complete rec E e d s1) \<noteq> None"
    by (rule maybe_complete_ends [OF assms(1,2) _ parent]) (use m in linarith)
  then show ?thesis using spawn adv by (simp add: advance_def cl sk)
qed

lemma run_ends: "contained E \<Longrightarrow> rec_ends n (run n E)"
proof (induction n)
  case 0
  have "fuel_for c > 0" for c by (cases c) simp_all
  then show ?case by (simp add: rec_ends_def)
next
  case (Suc n)
  show ?case
    unfolding rec_ends_def
  proof (intro allI impI)
    fix c st assume c: "call_inside c" "fuel_for c \<le> Suc n"
    note ih = Suc.IH [OF Suc.prems]
    show "run (Suc n) E c st \<noteq> None"
      using c advance_ends [OF Suc.prems ih] spawn_next_ends [OF Suc.prems ih] on_execution_terminal_ends [OF Suc.prems]
      by (cases c) auto
  qed
qed

text \<open>
  C6: a workflow comes to rest. Starting a workflow whose nodes have distinct names, in a system
  where no task starts another workflow and nothing reacts to events, ends with fuel quadratic in
  the number of nodes, whatever its conditions and scripts do, and more fuel gives the same
  result.
\<close>
theorem start_comes_to_rest:
  assumes "contained E" "v_workflow_defs E w = Some d" "distinct_names d" "wd_failure_workflow d = None"
  shows "\<exists>r. \<forall>n \<ge> Suc (Suc (length (wd_nodes d)) * (length (wd_nodes d) + 4)). run n E (Start w vs None) st = Some r"
proof -
  let ?m = "Suc (length (wd_nodes d)) * (length (wd_nodes d) + 4)"
  have "run ?m E (Advance e d) st' \<noteq> None" if "x_task_instances e = []" "x_parent_exec_id e = None" for e st'
    by (rule rec_endsD [OF run_ends [OF assms(1)]])
      (use that assms(3,4) in \<open>simp_all add: inside_def unspawned_def refs_def\<close>)
  then have "run (Suc ?m) E (Start w vs None) st \<noteq> None"
    unfolding run.simps body.simps by (simp add: start_def assms(2) case_prod_beta Let_def store_advanced_def del: run.simps)
  then show ?thesis using run_more_fuel by blast
qed

theorem start_comes_to_rest_witness:
  "\<exists>r. \<forall>n \<ge> 19. run n (sample_wf_env [(''w'', two_nodes)] two_tasks) (Start ''w'' [] None) empty_state = Some r"
proof -
  have "contained (sample_wf_env [(''w'', two_nodes)] two_tasks)"
    by (auto simp: contained_def sample_wf_env_def two_tasks_def sample_task_def_def split: if_splits)
  then show ?thesis
    using start_comes_to_rest [of "sample_wf_env [(''w'', two_nodes)] two_tasks" "''w''" two_nodes "[]" empty_state]
    by (simp add: sample_wf_env_def two_nodes_def sample_def_def sample_node_def distinct_names_def empty_def_def)
qed

end
