(* ===== verification/WorkflowOps.thy ===== *)
theory WorkflowOps
  imports WorkflowEnds
begin

text \<open>
  The operations that the workflow orchestrator offers (the public part of orchestrator.cppm), its
  periodic sweep, and the backend that the host calls (workflow_local.cppm). An operation gives the
  answer of its callback, None when the callback is never called; the outer option is the fuel of
  the calls inside. The writes of a connector in its local mode succeed.
\<close>

type_synonym op_result = "(wf_state \<times> bool option) option"

text \<open>The end of most operations: advance the execution, store it and answer.\<close>

definition advance_and_store :: "runner \<Rightarrow> WorkflowExecution \<Rightarrow> WorkflowDef \<Rightarrow> wf_state \<Rightarrow> op_result" where
  "advance_and_store rec e d st =
     map_option (\<lambda>(st, a). (st, map_option (\<lambda>_. True) a)) (store_advanced (rec (Advance e d) st))"

section \<open>Operations on one execution\<close>

definition pause :: "string \<Rightarrow> wf_state \<Rightarrow> op_result" where
  "pause exec_id st =
     (case map_of (w_execs st) exec_id of
        None \<Rightarrow> Some (st, Some False)
      | Some e \<Rightarrow>
          if x_status e \<noteq> W_RUNNING then Some (st, Some False)
          else Some (put_exec (e\<lparr>x_status := W_PAUSED\<rparr>) st, Some True))"

definition resume :: "runner \<Rightarrow> wf_env \<Rightarrow> string \<Rightarrow> wf_state \<Rightarrow> op_result" where
  "resume rec E exec_id st =
     (case map_of (w_execs st) exec_id of
        None \<Rightarrow> Some (st, Some False)
      | Some e \<Rightarrow>
          if x_status e \<noteq> W_PAUSED then Some (st, Some False)
          else let e = e\<lparr>x_status := W_RUNNING\<rparr>
               in case v_workflow_defs E (x_def_name e) of
                    None \<Rightarrow> Some (put_exec e st, Some True)
                  | Some d \<Rightarrow> advance_and_store rec e d st)"

definition reset_instance :: "instance_row \<Rightarrow> instance_row" where
  "reset_instance i = i\<lparr>m_status := SCHEDULED, m_retry_count := 0, m_next_retry_at := None, m_output_data := []\<rparr>"

fun reset_failed :: "instance_row list \<Rightarrow> wf_state \<Rightarrow> wf_state \<times> instance_row list" where
  "reset_failed [] st = (st, [])"
| "reset_failed (i # is) st =
     (if m_status i = FAILED \<or> m_status i = TIMED_OUT
      then let (st, is) = reset_failed is (put_task (reset_instance i) st) in (st, reset_instance i # is)
      else let (st, is) = reset_failed is st in (st, i # is))"

definition retry :: "runner \<Rightarrow> wf_env \<Rightarrow> string \<Rightarrow> wf_state \<Rightarrow> op_result" where
  "retry rec E exec_id st =
     (case map_of (w_execs st) exec_id of
        None \<Rightarrow> Some (st, Some False)
      | Some e \<Rightarrow>
          if x_status e \<noteq> W_FAILED then Some (st, Some False)
          else case v_workflow_defs E (x_def_name e) of
                 None \<Rightarrow> Some (st, Some False)
               | Some d \<Rightarrow>
                   if \<not> wd_restartable d then Some (st, Some False)
                   else let (st, is) = reset_failed (x_task_instances e) st
                        in advance_and_store rec (e\<lparr>x_task_instances := is, x_status := W_RUNNING\<rparr>) d st)"

definition restart :: "runner \<Rightarrow> wf_env \<Rightarrow> string \<Rightarrow> wf_state \<Rightarrow> op_result" where
  "restart rec E exec_id st =
     (case map_of (w_execs st) exec_id of
        None \<Rightarrow> Some (st, Some False)
      | Some e \<Rightarrow>
          if \<not> workflow_terminal (x_status e) then Some (st, Some False)
          else case v_workflow_defs E (x_def_name e) of
                 None \<Rightarrow> Some (st, Some False)
               | Some d \<Rightarrow>
                   if \<not> wd_restartable d then Some (st, Some False)
                   else advance_and_store rec
                          (e\<lparr>x_task_instances := [], x_dynamic_nodes := [], x_status := W_RUNNING, x_timings := (None, Some (v_now E), None)\<rparr>) d st)"

fun rerun_first :: "string \<Rightarrow> generic \<Rightarrow> instance_row list \<Rightarrow> (instance_row \<times> instance_row list) option" where
  "rerun_first ref input [] = None"
| "rerun_first ref input (i # is) =
     (if m_node_ref i = ref
      then let j = (reset_instance i)\<lparr>m_input_data := input\<rparr> in Some (j, j # is)
      else map_option (map_prod id ((#) i)) (rerun_first ref input is))"

definition rerun :: "runner \<Rightarrow> wf_env \<Rightarrow> string \<Rightarrow> string \<Rightarrow> generic \<Rightarrow> wf_state \<Rightarrow> op_result" where
  "rerun rec E exec_id node_ref input st =
     (case map_of (w_execs st) exec_id of
        None \<Rightarrow> Some (st, Some False)
      | Some e \<Rightarrow>
          (case v_workflow_defs E (x_def_name e) of
             None \<Rightarrow> Some (st, Some False)
           | Some d \<Rightarrow>
               if \<not> wd_restartable d then Some (st, Some False)
               else case rerun_first node_ref input (x_task_instances e) of
                      None \<Rightarrow> Some (st, Some False)
                    | Some (j, is) \<Rightarrow>
                        advance_and_store rec (e\<lparr>x_task_instances := is, x_status := W_RUNNING\<rparr>) d (put_task j st)))"

definition signal :: "runner \<Rightarrow> string \<Rightarrow> string \<Rightarrow> string option \<Rightarrow> wf_state \<Rightarrow> op_result" where
  "signal rec exec_id node_ref payload st =
     (case map_of (w_execs st) exec_id of
        None \<Rightarrow> Some (st, Some False)
      | Some e \<Rightarrow>
          (case List.find (\<lambda>i. m_node_ref i = node_ref \<and> m_status i = IN_PROGRESS) (x_task_instances e) of
             None \<Rightarrow> Some (st, Some False)
           | Some i \<Rightarrow>
               (let i = i\<lparr>m_status := COMPLETED,
                          m_output_data := (case payload of None \<Rightarrow> m_output_data i
                             | Some p \<Rightarrow> AList.update ''signal_payload'' p (m_output_data i))\<rparr>
                in map_option (\<lambda>(st, _). (st, Some True)) (rec (On_task_terminal i) (put_task i st)))))"

definition queue_update :: "runner \<Rightarrow> string \<Rightarrow> string \<Rightarrow> TaskStatus \<Rightarrow> strings \<Rightarrow> wf_state \<Rightarrow> wf_state option" where
  "queue_update rec exec_id node_ref s out st = complete_instance_by_ref rec exec_id node_ref s out st"

definition terminate :: "runner \<Rightarrow> wf_env \<Rightarrow> string \<Rightarrow> wf_state \<Rightarrow> op_result" where
  "terminate rec E exec_id st =
     (case map_of (w_execs st) exec_id of
        None \<Rightarrow> Some (st, Some False)
      | Some e \<Rightarrow>
          if workflow_terminal (x_status e) then Some (st, Some False)
          else let e = finish_exec E W_TERMINATED e
               in map_option (\<lambda>(st, _). (st, Some True)) (rec (On_execution_terminal e) (put_exec e st)))"

definition reconcile :: "runner \<Rightarrow> wf_env \<Rightarrow> string \<Rightarrow> wf_state \<Rightarrow> op_result" where
  "reconcile rec E exec_id st =
     (case map_of (w_execs st) exec_id of
        None \<Rightarrow> Some (st, Some False)
      | Some e \<Rightarrow>
          (case v_workflow_defs E (x_def_name e) of
             None \<Rightarrow> Some (st, Some False)
           | Some d \<Rightarrow> advance_and_store rec e d st))"

section \<open>The sweep\<close>

fun sweep_each :: "('a \<Rightarrow> wf_state \<Rightarrow> wf_state option) \<Rightarrow> 'a list \<Rightarrow> wf_state \<Rightarrow> wf_state option" where
  "sweep_each f [] st = Some st"
| "sweep_each f (x # xs) st = Option.bind (f x st) (sweep_each f xs)"

definition sweep_exec :: "runner \<Rightarrow> wf_env \<Rightarrow> WorkflowExecution \<Rightarrow> wf_state \<Rightarrow> wf_state option" where
  "sweep_exec rec E e st =
     (if x_status e \<noteq> W_RUNNING then Some st
      else case v_workflow_defs E (x_def_name e) of
             None \<Rightarrow> Some st
           | Some d \<Rightarrow> map_option fst (store_advanced (rec (Advance e d) st)))"

definition sweep_advance :: "runner \<Rightarrow> wf_env \<Rightarrow> wf_state \<Rightarrow> wf_state option" where
  "sweep_advance rec E st = sweep_each (sweep_exec rec E) (map snd (w_execs st)) st"

definition handle_timeout :: "runner \<Rightarrow> wf_env \<Rightarrow> instance_row \<Rightarrow> wf_state \<Rightarrow> wf_state option" where
  "handle_timeout rec E i st =
     (let task_def = v_task_defs E (m_def_name i)
      in if (case task_def of None \<Rightarrow> False | Some t \<Rightarrow> td_type t = WAIT)
         then map_option fst (rec (On_task_terminal (i\<lparr>m_status := COMPLETED\<rparr>)) st)
         else let action = (case task_def of None \<Rightarrow> FAIL_WORKFLOW | Some t \<Rightarrow> td_timeout_action t)
              in if action = ALERT_ONLY then Some (warn st)
                 else let i = i\<lparr>m_status := TIMED_OUT\<rparr>;
                          policy = (case task_def of None \<Rightarrow> default_retry | Some t \<Rightarrow> td_retry t)
                      in case map_of (w_execs st) (m_workflow_exec_id i) of
                           None \<Rightarrow> Some (put_task i st)
                         | Some e \<Rightarrow>
                             if workflow_terminal (x_status e) then Some (put_task i st)
                             else let d = (case v_workflow_defs E (x_def_name e) of None \<Rightarrow> empty_def | Some d \<Rightarrow> d)
                                  in if action = RETRY then handle_failure rec E i e d policy st
                                     else let e = sync_instance i (finish_exec E W_FAILED e)
                                          in Option.bind (rec (On_execution_terminal e) (put_exec e (put_task i st)))
                                               (\<lambda>(st, _). start_failure_workflow rec d e st))"

definition sweep_timeout :: "runner \<Rightarrow> wf_env \<Rightarrow> instance_row \<Rightarrow> wf_state \<Rightarrow> wf_state option" where
  "sweep_timeout rec E i st =
     (if m_status i \<noteq> IN_PROGRESS then Some st
      else case m_deadline_at i of None \<Rightarrow> Some st | Some t \<Rightarrow> if t > v_now E then Some st else handle_timeout rec E i st)"

definition sweep_timeouts :: "runner \<Rightarrow> wf_env \<Rightarrow> wf_state \<Rightarrow> wf_state option" where
  "sweep_timeouts rec E st = sweep_each (sweep_timeout rec E) (map snd (w_tasks st)) st"

definition sweep_retry :: "wf_env \<Rightarrow> instance_row \<Rightarrow> wf_state \<Rightarrow> wf_state option" where
  "sweep_retry E i st =
     (case m_next_retry_at i of
        None \<Rightarrow> Some st
      | Some t \<Rightarrow>
          if t > v_now E \<or> \<not> (m_status i = FAILED \<or> m_status i = TIMED_OUT) then Some st
          else Some (put_task (i\<lparr>m_status := SCHEDULED, m_next_retry_at := None, m_output_data := []\<rparr>) st))"

definition sweep_retries :: "wf_env \<Rightarrow> wf_state \<Rightarrow> wf_state option" where
  "sweep_retries E st = sweep_each (sweep_retry E) (map snd (w_tasks st)) st"

text \<open>The handler of the contract, which then reschedules itself; \<open>ready\<close> is the migration's status.\<close>

definition sweep :: "runner \<Rightarrow> wf_env \<Rightarrow> bool \<Rightarrow> wf_state \<Rightarrow> wf_state option" where
  "sweep rec E ready st =
     (if \<not> ready then Some st
      else do { st \<leftarrow> sweep_timeouts rec E st; st \<leftarrow> sweep_retries E st; sweep_advance rec E st })"

section \<open>The backend\<close>

text \<open>What \<open>on_load\<close> wires: connector, bridge and search, and whether the sweep was registered.\<close>

definition workflow_on_load :: "host_callbacks \<Rightarrow> (ptr \<times> ptr \<times> ptr) \<times> bool \<times> effects" where
  "workflow_on_load host =
     ((connector_ctx host, lua_bridge_ctx host, search_ctx host),
      if controller_ctx host = 0 \<or> registry_ctx host = 0 then (False, [Log ERROR ''workflow_orchestrator.local'']) else (True, []))"

datatype wf_op =
    Op_start string strings
  | Op_task_terminal string
  | Op_execution_terminal string
  | Op_pause string
  | Op_resume string
  | Op_retry string
  | Op_restart string
  | Op_terminate string
  | Op_reconcile string
  | Op_rerun string string generic
  | Op_signal string string "string option"
  | Op_complete_task string string bool strings
  | Op_sweep bool

fun wf_op_step :: "runner \<Rightarrow> wf_env \<Rightarrow> wf_op \<Rightarrow> wf_state \<Rightarrow> op_result" where
  "wf_op_step rec E (Op_start w vs) st =
     map_option (\<lambda>(st, a). (st, map_option (\<lambda>e. e \<noteq> None) a)) (rec (Start w vs None) st)"
| "wf_op_step rec E (Op_task_terminal task_id) st =
     (case map_of (w_tasks st) task_id of
        None \<Rightarrow> Some (st, Some False)
      | Some i \<Rightarrow> map_option (\<lambda>(st, _). (st, Some True)) (rec (On_task_terminal i) st))"
| "wf_op_step rec E (Op_execution_terminal exec_id) st =
     (case map_of (w_execs st) exec_id of
        None \<Rightarrow> Some (st, Some False)
      | Some e \<Rightarrow> map_option (\<lambda>(st, _). (st, Some True)) (rec (On_execution_terminal e) st))"
| "wf_op_step rec E (Op_pause x) st = pause x st"
| "wf_op_step rec E (Op_resume x) st = resume rec E x st"
| "wf_op_step rec E (Op_retry x) st = retry rec E x st"
| "wf_op_step rec E (Op_restart x) st = restart rec E x st"
| "wf_op_step rec E (Op_terminate x) st = terminate rec E x st"
| "wf_op_step rec E (Op_reconcile x) st = reconcile rec E x st"
| "wf_op_step rec E (Op_rerun x ref input) st = rerun rec E x ref input st"
| "wf_op_step rec E (Op_signal x ref p) st = signal rec x ref p st"
| "wf_op_step rec E (Op_complete_task x ref success out) st =
     map_option (\<lambda>st. (st, Some True)) (queue_update rec x ref (if success then COMPLETED else FAILED) out st)"
| "wf_op_step rec E (Op_sweep ready) st = map_option (\<lambda>st. (st, None)) (sweep rec E ready st)"

section \<open>Consequences\<close>

text \<open>A start whose first node lacks a required input never answers: its caller waits for ever.\<close>

definition strict_task :: FullTaskDef where
  "strict_task = (sample_task_def ''s'' SIMPLE)\<lparr>td_enforce_schema := True,
     td_input_schema := Some (''{'' @ [dquote] @ ''required'' @ [dquote] @ '':['' @ [dquote] @ ''k'' @ [dquote] @ '']}'')\<rparr>"

lemma rejected_start_never_answers:
  "let E = sample_wf_env [(''w'', sample_def [sample_node ''s'' ''a'' []])] [(''s'', strict_task)]
   in map_option snd (wf_op_step (run 9 E) E (Op_start ''w'' []) empty_state) = Some None"
  by code_simp

text \<open>A finished task with an output, and a second node that takes the output as its input.\<close>

definition finished_task :: "string \<Rightarrow> string \<Rightarrow> string \<Rightarrow> instance_row" where
  "finished_task exec_id k v = (init_task GNull)\<lparr>m_task_id := ''t'', m_workflow_exec_id := exec_id, m_def_name := ''s'', m_node_ref := ''a'',
     m_status := COMPLETED, m_output_data := [(k, v)]\<rparr>"

definition mapped_def :: "string \<Rightarrow> string \<Rightarrow> WorkflowDef" where
  "mapped_def task_def k = sample_def [(sample_node ''s'' ''a'' [])\<lparr>tn_edges :=
      [\<lparr>te_from = ''a'', te_to = ''b'', te_condition = None, te_mappings = [(k, k)]\<rparr>]\<rparr>, sample_node task_def ''b'' []]"

definition stored :: "WorkflowExecution \<Rightarrow> wf_state" where
  "stored e = put_exec e empty_state"

text \<open>
  A child workflow that ends while it is started is not noticed: the row of the waiting task is
  written after the child has looked for it, and the parent waits for ever.
\<close>

lemma child_that_ends_at_once_is_lost:
  "let E = sample_wf_env [(''w'', mapped_def ''sub'' ''workflow_name''), (''c'', (sample_def [sample_node ''n'' ''x'' []])\<lparr>wd_name := ''c''\<rparr>)]
            [(''s'', sample_task_def ''s'' SIMPLE), (''sub'', sample_task_def ''sub'' SUB_WORKFLOW), (''n'', sample_task_def ''n'' NOOP)]
   in map_option (\<lambda>(st, _). (map_option x_status (map_of (w_execs st) ''0''),
         map_option (\<lambda>e. (x_status e, map m_status (x_task_instances e))) (map_of (w_execs st) ''p'')))
       (run 20 E (On_task_terminal (finished_task ''p'' ''workflow_name'' ''c'')) (stored (sample_exec ''p'' []))) =
     Some (Some W_COMPLETED, Some (W_RUNNING, [COMPLETED, IN_PROGRESS]))"
  by code_simp

text \<open>
  An event handler that terminates the execution that published the event has no effect: the
  execution in flight is written over the terminated one.
\<close>

lemma terminated_by_own_event_is_lost:
  "let E = (sample_wf_env [(''w'', mapped_def ''ev'' ''event'')]
            [(''s'', sample_task_def ''s'' SIMPLE), (''ev'', sample_task_def ''ev'' EVENT)])
            \<lparr>v_handlers := [\<lparr>eh_event = ''go'', eh_condition = None, eh_actions = [(E_TERMINATE_WORKFLOW, [(''exec_id'', ''p'')])], eh_active = True\<rparr>]\<rparr>
   in map_option (\<lambda>(st, _). map_option x_status (map_of (w_execs st) ''p''))
       (run 20 E (On_task_terminal (finished_task ''p'' ''event'' ''go'')) (stored (sample_exec ''p'' []))) = Some (Some W_COMPLETED)"
  by code_simp

text \<open>A wait that is over completes its node, but its row stays in progress: every sweep completes it again.\<close>

lemma elapsed_wait_stays_in_progress:
  "let E = sample_wf_env [(''w'', sample_def [sample_node ''wait'' ''a'' []])] [(''wait'', sample_task_def ''wait'' WAIT)];
       i = (finished_task ''p'' ''k'' ''v'')\<lparr>m_def_name := ''wait'', m_status := IN_PROGRESS, m_deadline_at := Some 5, m_output_data := []\<rparr>
   in map_option (\<lambda>st. (map_option m_status (map_of (w_tasks st) ''t''), map_option x_status (map_of (w_execs st) ''p'')))
        (sweep_timeouts (run 20 E) E (put_task i (stored (sample_exec ''p'' [i])))) = Some (Some IN_PROGRESS, Some W_COMPLETED)"
  by code_simp

text \<open>
  A node of the types that are not wired up yet does not sit idle: it is scheduled for a worker
  like a simple task.
\<close>

lemma do_while_is_scheduled:
  "let E = sample_wf_env [(''w'', sample_def [sample_node ''loop'' ''a'' []])] [(''loop'', sample_task_def ''loop'' DO_WHILE)]
   in map_option (\<lambda>(st, _). map (\<lambda>(_, i). (m_node_ref i, m_status i)) (w_tasks st)) (run 20 E (Start ''w'' [] None) empty_state) =
     Some [(''a'', SCHEDULED)]"
  by code_simp

text \<open>Completing a task of an execution that does not exist is answered with success.\<close>

lemma complete_unknown_task_succeeds: "wf_op_step rec E (Op_complete_task x ref ok out) empty_state = Some (empty_state, Some True)"
  by (simp add: queue_update_def complete_instance_by_ref_def empty_state_def)

text \<open>The wait before a retry is the interval, at most \<open>2 ^ 16\<close> times over.\<close>

lemma backoff_bounds:
  "uint (rp_interval_ms r) \<le> compute_backoff r k \<and> compute_backoff r k \<le> uint (rp_interval_ms r) * 65536"
proof -
  have "list_all (\<lambda>n. uint (push_bit n (1 :: 32 word)) = 2 ^ n) [0..<17]" by code_simp
  then have shift: "uint (push_bit n (1 :: 32 word)) = 2 ^ n" if "n \<le> 16" for n :: nat
    using that by (simp add: list_all_iff)
  show ?thesis
  proof (cases "rp_backoff r")
    case EXPONENTIAL
    let ?n = "min (unat k) 16"
    have "compute_backoff r k = uint (rp_interval_ms r) * 2 ^ ?n" using EXPONENTIAL shift [of ?n] by (simp add: compute_backoff_def)
    moreover have "(1 :: int) \<le> 2 ^ ?n" "(2 :: int) ^ ?n \<le> 2 ^ 16" by (simp, intro power_increasing, simp_all)
    ultimately show ?thesis using mult_left_mono [of 1 "2 ^ ?n" "uint (rp_interval_ms r)"] mult_left_mono [of "2 ^ ?n" "2 ^ 16" "uint (rp_interval_ms r)"] by simp
  qed (simp add: compute_backoff_def)
qed

end
