(* ===== verification/WorkflowStays.thy ===== *)
theory WorkflowStays
  imports WorkflowOps
begin

text \<open>
  An execution that has ended stays as it is: in a system without event handlers and nested
  workflows no operation changes it, over any sequence of operations and sweeps, except the three
  that are for running it again.
\<close>

section \<open>What is kept\<close>

definition quiet :: "wf_env \<Rightarrow> bool" where
  "quiet E \<longleftrightarrow> v_handlers E = [] \<and> (\<forall>k t. v_task_defs E k = Some t \<longrightarrow> td_type t \<noteq> SUB_WORKFLOW)"

definition rows_ok :: "wf_state \<Rightarrow> bool" where
  "rows_ok st \<longleftrightarrow> distinct (map fst (w_execs st)) \<and> (\<forall>x e. map_of (w_execs st) x = Some e \<longrightarrow> x_exec_id e = x \<and> x_parent_exec_id e = None)"

text \<open>The row \<open>row\<close> is stored under \<open>k\<close>, and \<open>k\<close> is not an identifier that is still to be drawn.\<close>

definition keeps :: "wf_env \<Rightarrow> string \<Rightarrow> WorkflowExecution \<Rightarrow> wf_state \<Rightarrow> bool" where
  "keeps E k row st \<longleftrightarrow> map_of (w_execs st) k = Some row \<and> rows_ok st \<and> (\<forall>n \<ge> w_ids st. v_id E n \<noteq> k)"

definition clear :: "string \<Rightarrow> WorkflowExecution \<Rightarrow> bool" where
  "clear k e \<longleftrightarrow> x_exec_id e \<noteq> k \<and> x_parent_exec_id e = None"

fun call_clear :: "string \<Rightarrow> call \<Rightarrow> bool" where
  "call_clear k (Start w vs p) = (p = None)"
| "call_clear k (Advance e d) = clear k e"
| "call_clear k (Spawn_next e d rs) = clear k e"
| "call_clear k (On_execution_terminal e) = (x_parent_exec_id e = None)"
| "call_clear k (On_task_terminal i) = True"

definition result_ok :: "wf_env \<Rightarrow> string \<Rightarrow> WorkflowExecution \<Rightarrow> (wf_state \<times> answer) option \<Rightarrow> bool" where
  "result_ok E k row r \<longleftrightarrow>
     (\<forall>st a. r = Some (st, a) \<longrightarrow> keeps E k row st \<and> (\<forall>e. a = Some (Some e) \<longrightarrow> clear k e))"

definition state_ok :: "wf_env \<Rightarrow> string \<Rightarrow> WorkflowExecution \<Rightarrow> wf_state option \<Rightarrow> bool" where
  "state_ok E k row r \<longleftrightarrow> (\<forall>st. r = Some st \<longrightarrow> keeps E k row st)"

definition rec_keeps :: "wf_env \<Rightarrow> string \<Rightarrow> WorkflowExecution \<Rightarrow> runner \<Rightarrow> bool" where
  "rec_keeps E k row rec \<longleftrightarrow> quiet E \<and> workflow_terminal (x_status row) \<and>
     (\<forall>c st. call_clear k c \<longrightarrow> keeps E k row st \<longrightarrow> result_ok E k row (rec c st))"

lemma rec_keepsD: "rec_keeps E k row rec \<Longrightarrow> call_clear k c \<Longrightarrow> keeps E k row st \<Longrightarrow> result_ok E k row (rec c st)"
  by (simp add: rec_keeps_def)

named_theorems kept \<open>what keeps the row\<close>

lemma result_ok_simps [kept]:
  "result_ok E k row None" "result_ok E k row (Some (st, None)) = keeps E k row st"
  "result_ok E k row (Some (st, Some None)) = keeps E k row st"
  "result_ok E k row (Some (st, Some (Some e))) = (keeps E k row st \<and> clear k e)"
  "state_ok E k row None" "state_ok E k row (Some st) = keeps E k row st"
  by (auto simp: result_ok_def state_ok_def)

lemma result_ok_state [kept]: "state_ok E k row r \<Longrightarrow> result_ok E k row (map_option (\<lambda>st. (st, None)) r)"
  by (auto simp: result_ok_def state_ok_def)

lemma state_ok_fst [kept]: "result_ok E k row r \<Longrightarrow> state_ok E k row (map_option fst r)"
  by (auto simp: result_ok_def state_ok_def)

lemma state_ok_bind: "state_ok E k row r \<Longrightarrow> (\<And>st. keeps E k row st \<Longrightarrow> state_ok E k row (f st)) \<Longrightarrow> state_ok E k row (Option.bind r f)"
  by (cases r) (simp_all add: state_ok_def)

lemma result_ok_bind_state:
  "state_ok E k row r \<Longrightarrow> (\<And>st. keeps E k row st \<Longrightarrow> result_ok E k row (f st)) \<Longrightarrow> result_ok E k row (Option.bind r f)"
  by (cases r) (simp_all add: state_ok_def result_ok_def)

lemma keeps_rows: "w_execs st' = w_execs st \<Longrightarrow> w_ids st \<le> w_ids st' \<Longrightarrow> keeps E k row st \<Longrightarrow> keeps E k row st'"
  by (simp add: keeps_def rows_ok_def)

lemma keeps_same: "same_rows st st' \<Longrightarrow> keeps E k row st \<Longrightarrow> keeps E k row st'"
  by (rule keeps_rows) (simp_all add: same_rows_def)

lemma keeps_simps [kept]: "keeps E k row (emit es st) = keeps E k row st" "keeps E k row (put_task i st) = keeps E k row st"
  "keeps E k row (warn st) = keeps E k row st"
  by (simp_all add: keeps_def rows_ok_def emit_def put_task_def warn_def)

lemma keeps_put [kept]: "keeps E k row st \<Longrightarrow> clear k e \<Longrightarrow> keeps E k row (put_exec e st)"
  by (auto simp: keeps_def rows_ok_def put_exec_def clear_def update_conv' distinct_update)

lemma keeps_new_instance [kept]: "keeps E k row st \<Longrightarrow> keeps E k row (fst (new_instance E' e nm r s st))"
  by (rule keeps_rows [of _ st]) (simp_all add: new_instance_def draw_id_def)

lemma keeps_draw [kept]: "keeps E k row st \<Longrightarrow> keeps E k row (fst (draw_id E' st))"
  by (rule keeps_rows [of _ st]) (simp_all add: draw_id_def)

lemma drawn_differs: "keeps E k row st \<Longrightarrow> snd (draw_id E st) \<noteq> k"
  by (simp add: keeps_def draw_id_def)

lemma edge_condition_rows: "same_rows st (fst (edge_condition_ok E e edge p st))"
  by (simp add: edge_condition_ok_def eval_condition_rows split: option.split)

lemma scan_incoming_rows: "same_rows st (fst (scan_incoming E e edges st))"
proof (induction edges arbitrary: st)
  case (Cons edge edges)
  show ?case
    using Cons edge_condition_rows same_rows_trans
    by (auto simp: case_prod_beta Let_def split: option.split) blast+
qed simp

lemma decide_node_rows: "same_rows st (fst (decide_node E e d node st))"
  by (simp add: decide_node_def case_prod_beta scan_incoming_rows)

lemma classify_rows: "same_rows st (fst (classify E e d nodes st))"
proof (induction nodes arbitrary: st)
  case (Cons node nodes)
  have "same_rows st (fst (classify E e d nodes (fst (decide_node E e d node st))))"
    by (rule same_rows_trans [OF decide_node_rows Cons])
  then show ?case by (simp add: case_prod_beta)
qed simp

lemma gather_input_rows: "same_rows st (fst (gather_input E e edges input st))"
proof (induction edges arbitrary: st input)
  case (Cons edge edges)
  have "same_rows st (fst (gather_input E e edges i (fst (edge_condition_ok E e edge p st))))" for i p
    by (rule same_rows_trans [OF edge_condition_rows Cons])
  then show ?case using Cons by (simp add: case_prod_beta split: option.split)
qed simp

lemma skip_nodes_keeps: "keeps E k row st \<Longrightarrow> clear k e \<Longrightarrow>
  keeps E k row (fst (skip_nodes E' d rs e st)) \<and> clear k (snd (skip_nodes E' d rs e st))"
proof (induction rs arbitrary: e st)
  case (Cons r rs)
  have "clear k (add_instance i e)" for i using Cons.prems by (simp add: clear_def add_instance_def)
  then show ?case using Cons by (simp add: case_prod_beta Let_def kept split: option.split)
qed simp

lemma clear_simps [kept]: "clear k (add_instance i e) = clear k e" "clear k (sync_instance i e) = clear k e" "clear k (finish_exec E s e) = clear k e"
  "clear k (e\<lparr>x_variables := vs\<rparr>) = clear k e" "clear k (e\<lparr>x_status := s\<rparr>) = clear k e" "clear k (e\<lparr>x_task_instances := is\<rparr>) = clear k e"
  by (simp_all add: clear_def add_instance_def sync_instance_def finish_exec_def)

lemma keeps_project [kept]: "keeps E k row st \<Longrightarrow> keeps E k row (project_workflow E' e st)" "keeps E k row st \<Longrightarrow> keeps E k row (project_task E' i st)"
  unfolding project_workflow_def project_task_def by (simp_all add: keeps_same [OF index_document_rows])

section \<open>The calls\<close>

lemma store_advanced_keeps [kept]: "result_ok E k row r \<Longrightarrow> result_ok E k row (store_advanced r)"
proof (cases r)
  case (Some p)
  moreover obtain st a where "p = (st, a)" by (cases p)
  moreover assume "result_ok E k row r"
  ultimately show ?thesis by (cases a) (auto simp: store_advanced_def kept split: option.split)
qed (simp add: store_advanced_def kept)

lemma rec_bind:
  "rec_keeps E k row rec \<Longrightarrow> call_clear k c \<Longrightarrow> keeps E k row st \<Longrightarrow> (\<And>st a. keeps E k row st \<Longrightarrow> state_ok E k row (f (st, a))) \<Longrightarrow>
   state_ok E k row (Option.bind (rec c st) f)"
  using rec_keepsD [of E k row rec c st] by (cases "rec c st") (auto simp: state_ok_def result_ok_def)

lemma start_failure_keeps [kept]:
  "rec_keeps E k row rec \<Longrightarrow> keeps E k row st \<Longrightarrow> state_ok E k row (start_failure_workflow rec d e st)"
  by (simp add: start_failure_workflow_def kept rec_keepsD split: option.split)

lemma handle_failure_keeps [kept]:
  assumes "rec_keeps E k row rec" "keeps E k row st" "clear k e"
  shows "state_ok E k row (handle_failure rec E i e d r st)"
proof -
  have "state_ok E k row (Option.bind (rec (On_execution_terminal (sync_instance i (finish_exec E W_FAILED e))) st')
      (\<lambda>(st, _). start_failure_workflow rec d e' st))" if "keeps E k row st'" for st' e'
    using assms(3) by (intro rec_bind [OF assms(1)])
      (simp_all add: that kept assms(1) clear_def sync_instance_def finish_exec_def)
  then show ?thesis using assms(2,3) by (simp add: handle_failure_def Let_def kept)
qed

lemma publish_quiet [kept]: "rec_keeps E k row rec \<Longrightarrow> keeps E k row st \<Longrightarrow> state_ok E k row (publish_event rec' E ev p st)"
  by (simp add: publish_event_def rec_keeps_def quiet_def kept)

lemma on_execution_terminal_keeps [kept]:
  assumes "rec_keeps E k row rec" "keeps E k row st" "x_parent_exec_id e = None"
  shows "state_ok E k row (on_execution_terminal rec E e st)"
  unfolding on_execution_terminal_def Let_def
  by (rule state_ok_bind) (use assms in \<open>simp_all add: kept split: option.split\<close>)

lemma maybe_complete_keeps [kept]:
  assumes "rec_keeps E k row rec" "keeps E k row st" "clear k e"
  shows "result_ok E k row (answer_exec (maybe_complete rec E e d st))"
proof -
  have "result_ok E k row (answer_exec (map_option (\<lambda>(st, _). (st, finish_exec E W_COMPLETED e')) (rec (On_execution_terminal (finish_exec E W_COMPLETED e')) st)))"
    if "clear k e'" for e'
    using rec_keepsD [OF assms(1) _ assms(2), of "On_execution_terminal (finish_exec E W_COMPLETED e')"] that
    by (auto simp: result_ok_def answer_exec_def clear_def finish_exec_def)
  then show ?thesis using assms(2,3) by (auto simp: maybe_complete_def Let_def kept answer_exec_def)
qed

lemma on_task_terminal_keeps [kept]:
  assumes "rec_keeps E k row rec" "keeps E k row st"
  shows "state_ok E k row (on_task_terminal rec E i st)"
proof -
  have "clear k e" if "map_of (w_execs st) (m_workflow_exec_id i) = Some e" "\<not> workflow_terminal (x_status e)" for e
    using that assms by (auto simp: keeps_def rows_ok_def clear_def rec_keeps_def)
  then show ?thesis
    using assms by (auto simp: on_task_terminal_def process_terminal_def Let_def kept rec_keepsD split: option.split)
qed

lemma start_keeps [kept]:
  assumes "rec_keeps E k row rec" "keeps E k row st"
  shows "result_ok E k row (start rec E w vs None st)"
  using assms(2) drawn_differs [OF assms(2)]
  by (auto simp: start_def case_prod_beta Let_def kept clear_def intro!: store_advanced_keeps rec_keepsD [OF assms(1)] split: option.split)

lemma advance_keeps [kept]:
  assumes "rec_keeps E k row rec" "keeps E k row st" "clear k e"
  shows "result_ok E k row (advance rec E e d st)"
proof -
  have cl: "keeps E k row (fst (classify E e d (wd_nodes d) st))" by (rule keeps_same [OF classify_rows assms(2)])
  note sk = skip_nodes_keeps [OF cl assms(3)]
  show ?thesis
    using assms sk rec_keepsD [OF assms(1)] cl by (simp add: advance_def case_prod_beta Let_def kept)
qed

section \<open>Spawning\<close>

lemma spawn_ended_keeps [kept]:
  "keeps E k row st \<Longrightarrow> keeps E k row (fst (spawn_ended E' e nm ref s out st))" "clear k e \<Longrightarrow> clear k (snd (spawn_ended E' e nm ref s out st))"
  by (simp_all add: spawn_ended_def case_prod_beta Let_def kept)

lemma spawn_waiting_keeps [kept]:
  "keeps E k row st \<Longrightarrow> keeps E k row (fst (spawn_waiting E' e nm ref input u st))" "clear k e \<Longrightarrow> clear k (snd (spawn_waiting E' e nm ref input u st))"
  by (simp_all add: spawn_waiting_def case_prod_beta Let_def kept)

lemma spawn_start_keeps [kept]:
  assumes "rec_keeps E k row rec" "keeps E k row st" "clear k e"
  shows "result_ok E k row (spawn_start_workflow rec E e d rest input ref nm st)"
proof (cases "map_of input ''workflow_name''")
  case None
  then show ?thesis using assms by (simp add: spawn_start_workflow_def kept rec_keepsD)
next
  case (Some w)
  show ?thesis
  proof (cases "rec (Start w (AList.delete ''workflow_name'' input) None) st")
    case (Some r)
    obtain st1 a where "r = (st1, a)" by (cases r)
    moreover from this have "keeps E k row st1" using rec_keepsD [OF assms(1) _ assms(2), of "Start w (AList.delete ''workflow_name'' input) None"] Some
      by (simp add: result_ok_def)
    ultimately show ?thesis using \<open>map_of input _ = Some w\<close> Some assms(1,3)
      by (cases a) (auto simp: spawn_start_workflow_def case_prod_beta Let_def kept rec_keepsD split: option.split)
  qed (simp add: spawn_start_workflow_def Some kept)
qed

lemma spawn_event_keeps [kept]:
  assumes "rec_keeps E k row rec" "keeps E k row st" "clear k e"
  shows "result_ok E k row (spawn_event rec E e d input ref nm st)"
  unfolding spawn_event_def
  by (rule result_ok_bind_state) (use assms in \<open>simp_all add: kept case_prod_beta Let_def rec_keepsD split: option.split\<close>)

lemma spawn_system_keeps [kept]:
  assumes "rec_keeps E k row rec" "keeps E k row st" "clear k e"
  shows "result_ok E k row (spawn_system rec E e d t input ref nm st)"
proof -
  obtain s1 outcome where out: "system_execute E t input (x_variables e) st = (s1, outcome)" by (metis prod.exhaust)
  have s1: "keeps E k row s1" using keeps_same [OF system_execute_rows assms(2)] out by (metis fst_conv)
  have fin: "result_ok E k row (map_option (\<lambda>(st, _). (st, Some (Some (finish_exec E s e')))) (rec (On_execution_terminal (finish_exec E s e')) st'))"
    if "clear k e'" "keeps E k row st'" for s e' st'
    using rec_keepsD [OF assms(1) _ that(2), of "On_execution_terminal (finish_exec E s e')"] that(1)
    by (auto simp: result_ok_def clear_def finish_exec_def)
  show ?thesis
    unfolding spawn_system_def out using fin s1 assms(1,3) by (simp add: Let_def case_prod_beta kept rec_keepsD)
qed

lemma spawn_next_keeps [kept]:
  assumes "rec_keeps E k row rec" "keeps E k row st" "clear k e"
  shows "result_ok E k row (spawn_next rec E e d rs st)"
proof (cases rs)
  case Nil
  then show ?thesis using assms by (simp add: spawn_next_def kept)
next
  case (Cons r rest)
  have sp: "result_ok E k row (spawn_with_def rec E e d rest input ref nm task_def st')"
    if "keeps E k row st'" "task_def = None \<or> (\<exists>j. v_task_defs E j = task_def)" for input ref nm task_def st'
  proof (cases task_def)
    case (Some t)
    then have "td_type t \<noteq> SUB_WORKFLOW" using assms(1) that(2) by (auto simp: rec_keeps_def quiet_def)
    then show ?thesis
      using assms(1,3) that(1) by (simp add: spawn_with_def_def Some Let_def case_prod_beta spawn_scheduled_def spawn_rejected_def kept rec_keepsD split: option.split)
  qed (use assms that(1) in \<open>simp add: spawn_with_def_def spawn_scheduled_def case_prod_beta Let_def kept rec_keepsD\<close>)
  show ?thesis
    using Cons sp [OF keeps_same [OF gather_input_rows assms(2)] resolve_dynamic_range] rec_keepsD [OF assms(1) _ assms(2)] assms(3)
    by (simp add: spawn_next_def case_prod_beta split: option.split)
qed

lemma run_keeps: "quiet E \<Longrightarrow> workflow_terminal (x_status row) \<Longrightarrow> rec_keeps E k row (run n E)"
proof (induction n)
  case 0
  then show ?case by (simp add: rec_keeps_def kept)
next
  case (Suc n)
  have "result_ok E k row (body (run n E) E c st)" if "call_clear k c" "keeps E k row st" for c st
    using that Suc.IH [OF Suc.prems] by (cases c) (simp_all add: kept)
  then show ?case using Suc.prems by (simp add: rec_keeps_def)
qed

section \<open>The operations\<close>

text \<open>The operations that run an execution again.\<close>

fun reruns :: "wf_op \<Rightarrow> bool" where
  "reruns (Op_retry x) = True"
| "reruns (Op_restart x) = True"
| "reruns (Op_rerun x ref input) = True"
| "reruns _ = False"

text \<open>A runner that hands an execution that has ended back, as \<open>advance\<close> does.\<close>

definition rests :: "WorkflowExecution \<Rightarrow> runner \<Rightarrow> bool" where
  "rests row rec \<longleftrightarrow> (\<forall>d st. rec (Advance row d) st \<in> {None, Some (st, Some (Some row))})"

lemma run_rests: "workflow_terminal (x_status row) \<Longrightarrow> rests row (run n E)"
  by (cases n) (simp_all add: rests_def advance_def)

lemma keeps_again [kept]: "keeps E k row st \<Longrightarrow> keeps E k row (put_exec row st)"
  by (auto simp: keeps_def rows_ok_def put_exec_def update_conv' distinct_update)

lemma open_row_clear: "keeps E k row st \<Longrightarrow> workflow_terminal (x_status row) \<Longrightarrow> map_of (w_execs st) x = Some e \<Longrightarrow>
  \<not> workflow_terminal (x_status e) \<Longrightarrow> clear k e"
  by (auto simp: keeps_def rows_ok_def clear_def)

lemma not_ended [simp]: "\<not> workflow_terminal W_RUNNING" "\<not> workflow_terminal W_PAUSED"
  by (simp_all add: workflow_terminal_def)

lemma open_put: "keeps E k row st \<Longrightarrow> rec_keeps E k row rec \<Longrightarrow> map_of (w_execs st) x = Some e \<Longrightarrow> x_status e \<in> {W_RUNNING, W_PAUSED} \<Longrightarrow>
  clear k e"
  using open_row_clear by (fastforce simp: rec_keeps_def)

lemma terminal_rec: "rec_keeps E k row rec \<Longrightarrow> workflow_terminal (x_status row)"
  by (simp add: rec_keeps_def)

lemma advance_and_store_keeps [kept]:
  assumes "rec_keeps E k row rec" "keeps E k row st" "clear k e"
  shows "state_ok E k row (map_option fst (advance_and_store rec e d st))"
proof -
  have "result_ok E k row (store_advanced (rec (Advance e d) st))" by (intro store_advanced_keeps rec_keepsD) (use assms in simp_all)
  then show ?thesis by (auto simp: advance_and_store_def result_ok_def state_ok_def)
qed

lemma reconcile_keeps [kept]:
  assumes "rec_keeps E k row rec" "rests row rec" "keeps E k row st"
  shows "state_ok E k row (map_option fst (reconcile rec E x st))"
proof (cases "x = k")
  case True
  then have "map_of (w_execs st) x = Some row" using assms(3) by (simp add: keeps_def)
  moreover have "state_ok E k row (map_option fst (advance_and_store rec row d st))" for d
  proof -
    consider "rec (Advance row d) st = None" | "rec (Advance row d) st = Some (st, Some (Some row))"
      using assms(2) [unfolded rests_def, rule_format, of d st] by auto
    then show ?thesis using assms(3) by cases (simp_all add: advance_and_store_def store_advanced_def kept)
  qed
  ultimately show ?thesis using assms(3) by (simp add: reconcile_def kept split: option.split)
next
  case False
  have "clear k e" if "map_of (w_execs st) x = Some e" for e
    using that False assms(3) by (auto simp: keeps_def rows_ok_def clear_def)
  then show ?thesis using assms(1,3) by (simp add: reconcile_def kept split: option.split)
qed

lemma answered_keeps: "result_ok E k row r \<Longrightarrow> state_ok E k row (map_option fst (map_option (\<lambda>(st, _). (st, b)) r))"
  by (auto simp: result_ok_def state_ok_def)

lemma complete_instance_keeps [kept]:
  "rec_keeps E k row rec \<Longrightarrow> keeps E k row st \<Longrightarrow> state_ok E k row (complete_instance_by_ref rec x ref s out st)"
  by (simp add: complete_instance_by_ref_def Let_def kept rec_keepsD split: option.split)

lemma terminate_keeps [kept]:
  assumes "rec_keeps E k row rec" "keeps E k row st"
  shows "state_ok E k row (map_option fst (terminate rec E x st))"
proof -
  have "state_ok E k row (map_option fst (map_option (\<lambda>(st, _). (st, Some True))
      (rec (On_execution_terminal (finish_exec E W_TERMINATED e)) (put_exec (finish_exec E W_TERMINATED e) st))))" if "clear k e" for e
    by (intro answered_keeps rec_keepsD [OF assms(1)]) (use that assms(2) in \<open>simp_all add: kept clear_def finish_exec_def\<close>)
  then show ?thesis
    using assms open_row_clear [OF assms(2) terminal_rec [OF assms(1)]] by (simp add: terminate_def Let_def kept split: option.split)
qed

lemma signal_keeps [kept]:
  assumes "rec_keeps E k row rec" "keeps E k row st"
  shows "state_ok E k row (map_option fst (signal rec x ref p st))"
proof -
  have "state_ok E k row (map_option fst (map_option (\<lambda>(st, _). (st, Some True)) (rec (On_task_terminal i) (put_task i st))))" for i
    by (intro answered_keeps rec_keepsD [OF assms(1)]) (use assms(2) in \<open>simp_all add: kept\<close>)
  then show ?thesis using assms(2) by (simp add: signal_def Let_def kept split: option.split)
qed

section \<open>The sweep and the sequence of operations\<close>

lemma sweep_each_keeps:
  "(\<And>x st. x \<in> set xs \<Longrightarrow> keeps E k row st \<Longrightarrow> state_ok E k row (f x st)) \<Longrightarrow> keeps E k row st \<Longrightarrow> state_ok E k row (sweep_each f xs st)"
  by (induction xs arbitrary: st) (auto simp: kept intro!: state_ok_bind)

lemma handle_timeout_keeps [kept]:
  assumes "rec_keeps E k row rec" "keeps E k row st"
  shows "state_ok E k row (handle_timeout rec E i st)"
proof -
  have "state_ok E k row (Option.bind (rec (On_execution_terminal (sync_instance j (finish_exec E W_FAILED e))) (put_exec (sync_instance j (finish_exec E W_FAILED e)) (put_task j st)))
      (\<lambda>(st, _). start_failure_workflow rec d (sync_instance j (finish_exec E W_FAILED e)) st))" if "clear k e" for j e d
    using that assms by (intro rec_bind [OF assms(1)]) (simp_all add: kept clear_def sync_instance_def finish_exec_def)
  then show ?thesis
    using assms open_row_clear [OF assms(2) terminal_rec [OF assms(1)]]
    by (simp add: handle_timeout_def Let_def kept rec_keepsD split: option.split)
qed

lemma sweep_advance_keeps:
  assumes "rec_keeps E k row rec" "keeps E k row st"
  shows "state_ok E k row (sweep_advance rec E st)"
  unfolding sweep_advance_def
proof (rule sweep_each_keeps [OF _ assms(2)])
  fix e st' assume "e \<in> set (map snd (w_execs st))" and st': "keeps E k row st'"
  then obtain x where "map_of (w_execs st) x = Some e" using assms(2) by (auto simp: keeps_def rows_ok_def)
  then have "state_ok E k row (map_option fst (store_advanced (rec (Advance e d) st')))" if "x_status e = W_RUNNING" for d
    by (intro state_ok_fst store_advanced_keeps rec_keepsD [OF assms(1) _ st']) (use open_put [OF assms(2,1)] that in simp)
  then show "state_ok E k row (sweep_exec rec E e st')"
    using st' by (simp add: sweep_exec_def result_ok_simps split: option.split)
qed

lemma sweep_keeps [kept]:
  assumes "rec_keeps E k row rec" "keeps E k row st"
  shows "state_ok E k row (sweep rec E ready st)"
proof -
  have "state_ok E k row (sweep_timeouts rec E st)"
    unfolding sweep_timeouts_def by (rule sweep_each_keeps [OF _ assms(2)]) (use assms(1) in \<open>simp add: sweep_timeout_def kept split: option.split\<close>)
  moreover have "state_ok E k row (sweep_retries E st')" if "keeps E k row st'" for st'
    unfolding sweep_retries_def by (rule sweep_each_keeps [OF _ that]) (simp add: sweep_retry_def kept split: option.split)
  ultimately show ?thesis
    using assms sweep_advance_keeps [OF assms(1)] by (simp add: sweep_def kept state_ok_bind)
qed

lemma map_fst_pair: "map_option fst (map_option (\<lambda>st. (st, b)) r) = r"
  by (cases r) simp_all

lemma op_start_keeps:
  "rec_keeps E k row rec \<Longrightarrow> keeps E k row st \<Longrightarrow> state_ok E k row (map_option fst (wf_op_step rec E (Op_start w vs) st))"
  using rec_keepsD [of E k row rec "Start w vs None" st] by (auto simp: result_ok_def state_ok_def)

lemma op_ended_keeps:
  assumes "rec_keeps E k row rec" "keeps E k row st"
  shows "state_ok E k row (map_option fst (wf_op_step rec E (Op_task_terminal x) st))"
    "state_ok E k row (map_option fst (wf_op_step rec E (Op_execution_terminal x) st))"
proof -
  have "x_parent_exec_id e = None" if "map_of (w_execs st) x = Some e" for e using that assms(2) by (auto simp: keeps_def rows_ok_def)
  then have "state_ok E k row (map_option fst (map_option (\<lambda>(st, _). (st, Some True)) (rec (On_execution_terminal e) st)))"
    if "map_of (w_execs st) x = Some e" for e
    using that by (intro answered_keeps rec_keepsD [OF assms(1) _ assms(2)]) simp
  then show "state_ok E k row (map_option fst (wf_op_step rec E (Op_execution_terminal x) st))"
    using assms(2) by (cases "map_of (w_execs st) x") (simp_all add: result_ok_simps)
  have "state_ok E k row (map_option fst (map_option (\<lambda>(st, _). (st, Some True)) (rec (On_task_terminal i) st)))" for i
    by (intro answered_keeps rec_keepsD [OF assms(1) _ assms(2)]) simp
  then show "state_ok E k row (map_option fst (wf_op_step rec E (Op_task_terminal x) st))"
    using assms(2) by (cases "map_of (w_tasks st) x") (simp_all add: result_ok_simps)
qed

lemma pause_keeps:
  assumes "rec_keeps E k row rec" "keeps E k row st"
  shows "state_ok E k row (map_option fst (pause x st))" "state_ok E k row (map_option fst (resume rec E x st))"
  using assms(2) open_put [OF assms(2,1), of x] advance_and_store_keeps [OF assms]
  by (cases "map_of (w_execs st) x"; simp add: pause_def resume_def Let_def result_ok_simps clear_simps keeps_put split: option.split)+

lemma op_keeps:
  assumes "rec_keeps E k row rec" "rests row rec" "keeps E k row st" "\<not> reruns op"
  shows "state_ok E k row (map_option fst (wf_op_step rec E op st))"
proof (cases op)
  case (Op_reconcile x)
  then show ?thesis using reconcile_keeps [OF assms(1-3)] by simp
qed (use assms(4) op_start_keeps [OF assms(1,3)] op_ended_keeps [OF assms(1,3)] pause_keeps [OF assms(1,3)] terminate_keeps [OF assms(1,3)]
   signal_keeps [OF assms(1,3)] complete_instance_keeps [OF assms(1,3)] sweep_keeps [OF assms(1,3)]
   in \<open>simp_all add: queue_update_def map_fst_pair del: option.map_comp\<close>)

text \<open>A sequence of operations, each with what the stores of definitions and the clock give it.\<close>

fun run_wf_ops :: "nat \<Rightarrow> (wf_env \<times> wf_op) list \<Rightarrow> wf_state \<Rightarrow> wf_state option" where
  "run_wf_ops n [] st = Some st"
| "run_wf_ops n ((E, op) # ops) st = Option.bind (map_option fst (wf_op_step (run n E) E op st)) (run_wf_ops n ops)"

lemma keeps_env: "v_id E = v_id E' \<Longrightarrow> keeps E k row st = keeps E' k row st"
  by (simp add: keeps_def)

lemma run_wf_ops_keeps:
  assumes "workflow_terminal (x_status row)"
  shows "list_all (\<lambda>(E', op). quiet E' \<and> v_id E' = v_id E \<and> \<not> reruns op) ops \<Longrightarrow> keeps E k row st \<Longrightarrow>
    state_ok E k row (run_wf_ops n ops st)"
proof (induction ops arbitrary: st)
  case (Cons p ops)
  obtain E' op where p: "p = (E', op)" by (cases p)
  have E': "quiet E'" "v_id E' = v_id E" "\<not> reruns op" and rest: "list_all (\<lambda>(E', op). quiet E' \<and> v_id E' = v_id E \<and> \<not> reruns op) ops"
    using Cons.prems(1) unfolding p by simp_all
  note env = keeps_env [OF E'(2)]
  have "state_ok E' k row (map_option fst (wf_op_step (run n E') E' op st))"
    by (rule op_keeps [OF run_keeps [OF E'(1) assms] run_rests [OF assms] _ E'(3)]) (simp only: env Cons.prems(2))
  then have "state_ok E k row (map_option fst (wf_op_step (run n E') E' op st))" unfolding state_ok_def env .
  then show ?case unfolding p run_wf_ops.simps by (rule state_ok_bind) (rule Cons.IH [OF rest])
qed (simp add: state_ok_def)

section \<open>The property\<close>


definition named_env :: wf_env where
  "named_env = (sample_wf_env [(''w'', two_nodes)] two_tasks)\<lparr>v_id := (\<lambda>n. CHR ''i'' # show_nat n)\<rparr>"

definition ended_state :: wf_state where
  "ended_state = stored ((sample_exec ''x'' [])\<lparr>x_status := W_FAILED\<rparr>)"

definition sample_ops :: "(wf_env \<times> wf_op) list" where
  "sample_ops = [(named_env, Op_start ''w'' []), (named_env\<lparr>v_now := 5000\<rparr>, Op_sweep True), (named_env, Op_reconcile ''x''),
     (named_env, Op_terminate ''x'')]"

lemma sample_ops_run: "map_option (\<lambda>st. map (\<lambda>(k, e). (k, x_status e)) (w_execs st)) (run_wf_ops 20 sample_ops ended_state) =
    Some [(''x'', W_FAILED), (''i0'', W_RUNNING)]"
  by code_simp


end
