(* ===== verification/Spec2Isabelle.thy ===== *)
theory Spec2Isabelle
  imports Cron Connector Contract Postgres Elasticsearch Events Logger Otel LuaBridge PythonBridge TaskQueue WorkerHost
    TaskStore Http2 NetWorkers Backends WorkflowStays
begin

text \<open>
  Congelado is a workflow engine in C++ modules: an engine process that keeps workflows and
  tasks in a store, worker processes that poll it for tasks, and plugins, shared libraries behind
  a C boundary, that provide the caches, databases, search, events, telemetry, cron scheduling,
  logging, language bridges and workers. This development models the parts below as functions
  and step relations over explicit state and proves what each promises. Paths are relative to
  the source root.

  \<^bold>\<open>Theories and the code they model\<close>

  \<^item> Prelude: the pieces of the C++ standard library that the sources use (string searches,
    \<open>std::from_chars\<close>, \<open>std::stoul\<close>, \<open>c_str\<close>), the observable effects (log lines, published
    events) and the type of runs that may be undefined.
  \<^item> Calendar, CronExpr, Cron: plugins/cron/local/bin/local_cron.cc. The calendar of
    \<open>std::chrono\<close>, the parser and the matcher of cron expressions, \<open>next_after\<close>, and the job
    registry with \<open>upsert_job\<close>, \<open>remove_job\<close>, \<open>tick\<close>. The handlers of the engine that validate and
    preview schedules (plugins/manager/engine/src/handler/schedule.cppm) use it through the
    locale \<open>icron\<close>.
  \<^item> Abi: include/core/manager/abi.h, sdk/plugin/include/congelado/plugin.h,
    sdk/plugin/congelado_plugin.cppm, sdk/heart/adapters.cppm. The symbols that the macro
    \<open>CONGELADO_PLUGIN\<close> generates around one lazily constructed instance, the dispatcher
    \<open>congelado_call\<close> and the resolvers of the host. A plugin is a record of type \<open>plugin_class\<close>;
    each plugin theory interprets the locale \<open>advertised\<close> on its own.
  \<^item> Values, LuaBridge, PythonBridge: include/core/manager/value.cppm,
    plugins/bridge/lua_bridge/bin/lua_bridge_plugin.cc,
    plugins/bridge/python_bridge/bin/python_bridge_plugin.cc. The handle table, and the two
    conversions between the values of a language and those of the boundary.
  \<^item> Cache, Connector: plugins/cache/local/bin/local_cache.cc, plugins/cache/redis/bin/redis.cc,
    include/connector/connector.cppm, include/serde/cache.cppm. The contract of \<open>ICache\<close> is the
    locale \<open>icache\<close>; the connector is proved over it.
  \<^item> SignalTree, Contract: include/core/contracts. The ready set of the scheduler on 64-bit words
    and the contract group over it, through the locale \<open>ready_set\<close>.
  \<^item> TextCodec, Sql, Search, Postgres, Elasticsearch: plugins/serde/sql_postgres,
    plugins/database/postgres, plugins/search/elasticsearch, include/interfaces/search.cppm.
    TextCodec reads SQL and JSON text and states the contracts of escaping functions (\<open>sql_quoting\<close>,
    \<open>json_quoting\<close>), which each plugin's own escape function interprets or fails with a lemma.
  \<^item> Events, Logger, Otel: include/core/events, plugins/events, plugins/logger/file_logger,
    plugins/extensions/otel_otlp. The sinks, the file logger, the telemetry pipelines and the probe
    of their endpoints.
  \<^item> WorkerManager, PollSlots, TaskQueue, WorkerHost: plugins/manager/worker_external,
    include/shared/task_queue.cppm, include/interfaces/worker.cppm, sdk/worker/worker_main.cc. The
    registry and the hooks of a worker, the polling slots, the queue of a worker, and the start
    of the worker process.
  \<^item> Workers, NetWorkers: plugins/worker, plugins/apps/auth/workers. The code of the workers and
    the plugin classes around them; the database worker of the auth application runs over the
    connector, the events worker over the event bus.
  \<^item> TaskStore: plugins/orchestrator/worker_local/src/store.cppm over the model's task types
    (plugins/shared/model/task). The queue of tasks that workers claim from, over the connector.
  \<^item> WorkflowModel, Workflow, WorkflowOps: plugins/orchestrator/workflow_local/src over the model's
    workflow types (plugins/shared/model). WorkflowModel has the types, the Lua expressions
    (lua_eval.cppm), the system tasks, the schema check and the search summaries. Workflow has the
    calls of orchestrator.cppm that call each other (\<open>start\<close>, \<open>advance\<close>, \<open>spawn_next\<close>, the two
    terminal hooks), each over the runner that makes the inner calls; \<open>run\<close> ties the knot with fuel.
    A callback that is never called is an answer None. WorkflowOps has the operations, the sweep and
    the backend (workflow_local.cppm). The state holds the rows of executions and tasks as the map
    that the connector refines in its local mode. WorkflowProps, WorkflowEnds and WorkflowStays
    hold the proofs.
  \<^item> Http2: plugins/protocol/http2/bin/http2.cc and the constructor in
    include/io/layer/http2/plugin.cppm. The life cycle of the protocol plugin.
  \<^item> Backends: plugins/serde/json, plugins/serde/toml, plugins/generator/openapi_generator/bin,
    plugins/orchestrator (the plugin classes) and plugins/payload/local. The payload storage is
    modelled with the files of the disk.

  \<^bold>\<open>What is shown\<close>

  \<^item> Scheduling: a job fires at most once a minute and every missed occurrence fires once; the
    computed next time is the least match; the signal tree is a set of ids, and a contract that was
    scheduled is on it; no wake-up is lost in the connector's queue or a worker's queue.
  \<^item> Storage: the connector over either cache refines a map while its writes succeed; the text
    that a query hands back reads to the rows that the server returned; key lists and search texts
    stay inside their literals; the memory sinks keep the latest events; the reference of a stored
    payload stays valid.
  \<^item> Boundary: over any sequence of calls at most one instance lives; a resolver gives exactly the
    advertised interface; a plugin whose server is required fails its load exactly without it;
    tables and dicts cross the bridges with the values they hold.
  \<^item> Workers: a slot submits every polled task once, and the asynchronous run agrees with the
    synchronous one unless the worker throws; the slots of a process start last and within bounds;
    a claim takes the first ready task of its type and a task is claimed at most once more than it
    was requeued; a signed token carries the claims of its task.
  \<^item> Workflows: an advance spawns each node at most once and only when the graph allows it, and a
    completed execution covers its graph; a start comes to rest; an execution that has ended stays
    as it is through any sequence of operations that does not run it again. The last two assume a
    system without event handlers and nested workflows: lemmas of WorkflowOps show that an
    execution in flight is written over one that its own event has terminated.

  \<^bold>\<open>Third-party code\<close>

  The client libraries (hiredis, libpq, libcurl, rabbitmq-c, librdkafka, the OpenTelemetry SDK,
  OpenSSL, Lua, CPython, reflect-cpp) are arguments of the definitions that call them, with what is relied on
  as named hypotheses (for example \<open>codec_ok\<close> and \<open>db_laws\<close>); every hypothesis has an instance.

  \<^bold>\<open>Bounds and fuel\<close>

  \<^item> \<open>next_after\<close> searches the four years of minutes that the code searches: it is total and the
    bound is the code's own \<open>horizon\<close>.
  \<^item> The conversion of a Lua value takes the free slots of the stack; a value needs \<open>need\<close> of
    them, and the property assumes that there are as many.
  \<^item> Handles are 64-bit words; the bridge properties assume fewer than \<open>2 ^ 63\<close> of them. The
    counter of the payload storage is a 64-bit word; its property assumes that it does not wrap.
  \<^item> The fuel of \<open>run\<close> counts nested calls of the orchestrator; None means that it was used up. A
    start on a graph of \<open>N\<close> nodes needs at most \<open>Suc (Suc N * (N + 4))\<close>.
  \<^item> Everything else recurses on its data or has a termination proof.

  \<^bold>\<open>Not modelled\<close>

  \<^item> Memory, threads and time beyond the interleavings in PollSlots, TaskQueue, Connector and
    Contract, each of which takes a mutex-protected section as one step.
  \<^item> Network transport (include/io), the router and the command line: the bytes and sockets are
    outside what the theories state, and so are the requests of the client workers.
  \<^item> Generated clients, the text that the OpenAPI generator writes, include/cc, include/c, include/yoshi and docs: other
    projects' headers and generated code that the engine does not run.
  \<^item> Handlers of the engine other than the schedule preview, and \<open>start_workflow\<close> of the worker
    orchestrator's store. Loops and dynamic forks of a graph: the orchestrator has fields for them
    and no code that runs them.
\<close>

section \<open>Plugins on the boundary\<close>

text \<open>
  What the host gets from a loaded module: for every run type but the logger, which has no
  getter, resolving it leaves the module unchanged and gives an interface exactly for the run
  types in \<open>ts\<close>.
\<close>

definition offers :: "'p plugin_class \<Rightarrow> CongeladoRunType list \<Rightarrow> bool" where
  "offers T ts \<longleftrightarrow>
     (\<forall>ctor m p t. s_plugin m = Some p \<longrightarrow> t \<noteq> RUN_LOGGER \<longrightarrow>
        (\<exists>q. resolve T ctor \<lparr>r_capabilities = Some (c_capabilities T p), r_has_call = True\<rparr> t m = Inr (m, q) \<and>
             (q \<noteq> None \<longleftrightarrow> t \<in> set ts)))"

lemma offersI:
  assumes "advertised T" "\<And>p t. t \<noteq> RUN_LOGGER \<Longrightarrow> c_get T t p \<noteq> 0 \<longleftrightarrow> t \<in> set ts"
  shows "offers T ts"
  unfolding offers_def
  using advertised.resolve_advertised [OF assms(1)] advertised.keeps [OF assms(1)] assms(2) by simp

lemma bound_worker_offers: "offers (bound_worker_class nm host) [RUN_WORKER]"
  by (rule offersI [OF bound_worker_caps.advertised_axioms]) (simp add: bound_worker_class_def worker_plugin_base_def)

lemma worker_plugins_offer:
  "offers (database_class host) [RUN_WORKER]" "offers (db_query_class host) [RUN_WORKER, RUN_APP_DEFS]"
  "offers (client_class host) [RUN_WORKER]" "offers (client_pool_class host) [RUN_WORKER]"
proof -
  show "offers (database_class host) [RUN_WORKER]"
    by (rule offersI [OF database_worker_caps.advertised_axioms]) (simp add: database_class_def worker_plugin_base_def)
  show "offers (db_query_class host) [RUN_WORKER, RUN_APP_DEFS]"
    by (rule offersI [OF db_query_caps.advertised_axioms]) (simp add: db_query_class_def worker_plugin_base_def)
  show "offers (client_class host) [RUN_WORKER]"
    by (rule offersI [OF client_caps.advertised_axioms]) (simp add: client_class_def worker_plugin_base_def)
  show "offers (client_pool_class host) [RUN_WORKER]"
    by (rule offersI [OF client_pool_caps.advertised_axioms]) (simp add: client_pool_class_def worker_plugin_base_def)
qed



definition sample_amqp :: "unit amqp" where
  "sample_amqp = \<lparr>amqp_new = (), amqp_socket = (\<lambda>_ _ q. (q, True)), amqp_login = (\<lambda>_ _ _ q. (q, True)),
     amqp_channel = (\<lambda>q. (q, False)), amqp_publish = (\<lambda>_ _ _ q. (q, 0))\<rparr>"

definition sample_kafka :: "unit rdkafka" where
  "sample_kafka = \<lparr>conf_set = (\<lambda>_. None), kafka_new = (\<lambda>_. Inr ()), producev = (\<lambda>_ _ _ k. (k, True)), kafka_poll = (\<lambda>k. k)\<rparr>"

definition sample_module_of :: "'p \<Rightarrow> 'p module_state" where
  "sample_module_of p = init_module\<lparr>s_plugin := Some p, n_constructed := 1\<rparr>"


end
